(* ===== verification/Prelude.thy ===== *)
theory Prelude
  imports Main "HOL-Library.Word" "HOL-Library.Monad_Syntax"
begin

text \<open>
  The part of the Go language and of its standard library that the program's components
  share, and the generic lemmas about it.

  \<^item> Go's \<open>int\<close> (64 bits here) is \<^typ>\<open>int\<close>: it holds terms, indexes and node numbers that
    grow by one per event. Where the program narrows a number it goes through \<open>int32\<close>
    below, which wraps; where it counts modulo a width (the epoch, the hash) it is a word.
  \<^item> A run-time panic (an index out of range, a division by zero) is the value \<^term>\<open>None\<close>
    of an \<^typ>\<open>'a option\<close>: \<open>go_index\<close>, \<open>go_store\<close>, \<open>go_slice_from\<close>, \<open>go_slice_to\<close>, \<open>go_rem\<close>.
  \<^item> A Go string is a byte sequence, like a HOL \<^typ>\<open>string\<close>.
  \<^item> A Go map is a partial function; a \<open>range\<close> loop over it visits its keys in some order,
    which is an explicit list of keys (\<open>range_order\<close>).
  \<^item> \<open>time.Time\<close> and \<open>time.Duration\<close> count nanoseconds.
\<close>

unbundle bit_operations_syntax

named_theorems go_simps \<open>evaluation of the Go primitives\<close>

type_synonym byte = "8 word"
type_synonym uint64 = "64 word"
type_synonym go_time = int
type_synonym duration = int

section \<open>Integers\<close>

text \<open>The conversion \<open>int32(x)\<close>: the low 32 bits, read in two's complement.\<close>

definition int32 :: "int \<Rightarrow> int" where
  "int32 x = signed_take_bit 31 x"

definition in_int32 :: "int \<Rightarrow> bool" where
  "in_int32 x \<longleftrightarrow> - (2 ^ 31) \<le> x \<and> x < 2 ^ 31"

lemma int32_id [simp]: "in_int32 x \<Longrightarrow> int32 x = x"
  by (simp add: int32_def in_int32_def signed_take_bit_int_eq_self)

lemma in_int32_int32 [simp]: "in_int32 (int32 x)"
  using signed_take_bit_int_greater_eq_minus_exp [of 31 x] signed_take_bit_int_less_exp [of 31 x]
  by (simp add: int32_def in_int32_def)

lemma int32_eq_iff: "int32 x = x \<longleftrightarrow> in_int32 x"
  by (metis in_int32_int32 int32_id)

text \<open>Go's \<open>%\<close> truncates towards zero and panics on a zero divisor.\<close>

definition go_rem :: "int \<Rightarrow> int \<Rightarrow> int option" where
  "go_rem a b = (if b = 0 then None else Some (sgn a * (\<bar>a\<bar> mod \<bar>b\<bar>)))"

lemma go_rem_nonneg: "0 \<le> a \<Longrightarrow> 0 < b \<Longrightarrow> go_rem a b = Some (a mod b)"
  by (cases "a = 0") (auto simp: go_rem_def sgn_if)

section \<open>Slices\<close>

definition go_len :: "'a list \<Rightarrow> int" where
  "go_len xs = int (length xs)"

definition go_index :: "'a list \<Rightarrow> int \<Rightarrow> 'a option" where
  "go_index xs i = (if 0 \<le> i \<and> i < go_len xs then Some (xs ! nat i) else None)"

definition go_store :: "'a list \<Rightarrow> int \<Rightarrow> 'a \<Rightarrow> 'a list option" where
  "go_store xs i v = (if 0 \<le> i \<and> i < go_len xs then Some (xs[nat i := v]) else None)"

text \<open>\<open>xs[lo:]\<close> and \<open>xs[:hi]\<close>.\<close>

definition go_slice_from :: "'a list \<Rightarrow> int \<Rightarrow> 'a list option" where
  "go_slice_from xs lo = (if 0 \<le> lo \<and> lo \<le> go_len xs then Some (drop (nat lo) xs) else None)"

definition go_slice_to :: "'a list \<Rightarrow> int \<Rightarrow> 'a list option" where
  "go_slice_to xs hi = (if 0 \<le> hi \<and> hi \<le> go_len xs then Some (take (nat hi) xs) else None)"

lemma go_len_nonneg [simp]: "0 \<le> go_len xs"
  by (simp add: go_len_def)

lemma go_len_simps [simp]:
  "go_len [] = 0"
  "go_len (x # xs) = 1 + go_len xs"
  "go_len (xs @ ys) = go_len xs + go_len ys"
  "go_len (map f xs) = go_len xs"
  "go_len (xs[n := v]) = go_len xs"
  by (simp_all add: go_len_def)

lemma go_len_take [simp]: "go_len (take n xs) = min (int n) (go_len xs)"
  by (simp add: go_len_def)

lemma go_len_drop [simp]: "go_len (drop n xs) = max 0 (go_len xs - int n)"
  by (simp add: go_len_def)

lemma go_index_Some [go_simps]:
  "0 \<le> i \<Longrightarrow> i < go_len xs \<Longrightarrow> go_index xs i = Some (xs ! nat i)"
  by (simp add: go_index_def)

lemma go_store_Some [go_simps]:
  "0 \<le> i \<Longrightarrow> i < go_len xs \<Longrightarrow> go_store xs i v = Some (xs[nat i := v])"
  by (simp add: go_store_def)

lemma go_slice_from_Some [go_simps]:
  "0 \<le> lo \<Longrightarrow> lo \<le> go_len xs \<Longrightarrow> go_slice_from xs lo = Some (drop (nat lo) xs)"
  by (simp add: go_slice_from_def)

lemma go_slice_to_Some [go_simps]:
  "0 \<le> hi \<Longrightarrow> hi \<le> go_len xs \<Longrightarrow> go_slice_to xs hi = Some (take (nat hi) xs)"
  by (simp add: go_slice_to_def)

section \<open>Maps\<close>

text \<open>
  The key order of a \<open>range\<close> loop over a map: each key once, in an order the language
  leaves open.
\<close>

definition range_order :: "'k list \<Rightarrow> ('k \<rightharpoonup> 'v) \<Rightarrow> bool" where
  "range_order ks m \<longleftrightarrow> distinct ks \<and> set ks = dom m"

text \<open>Reading a map of strings yields the zero value for a missing key.\<close>

definition str_at :: "('k \<rightharpoonup> string) \<Rightarrow> 'k \<Rightarrow> string" where
  "str_at m k = (case m k of None \<Rightarrow> [] | Some v \<Rightarrow> v)"

lemma restrict_map_UNIV: "m |` UNIV = m"
  by (simp add: restrict_map_def)

lemma map_add_restrict_split: "(m |` A) ++ (m |` B) = m |` (A \<union> B)"
  by (rule ext) (auto simp: map_add_def restrict_map_def split: option.splits)

section \<open>Strings\<close>

definition bytes_of :: "string \<Rightarrow> byte list" where
  "bytes_of s = map of_char s"

text \<open>\<open>strings.Split\<close> and \<open>strings.Cut\<close> with a separator of one byte.\<close>

fun go_split :: "char \<Rightarrow> string \<Rightarrow> string list" where
  "go_split sep [] = [[]]"
| "go_split sep (c # cs) =
     (if c = sep then [] # go_split sep cs
      else (case go_split sep cs of w # ws \<Rightarrow> (c # w) # ws | [] \<Rightarrow> [[c]]))"

definition go_cut :: "char \<Rightarrow> string \<Rightarrow> string \<times> string" where
  "go_cut sep s = (takeWhile (\<lambda>c. c \<noteq> sep) s, drop 1 (dropWhile (\<lambda>c. c \<noteq> sep) s))"

lemma go_split_no_sep: "sep \<notin> set s \<Longrightarrow> go_split sep s = [s]"
  by (induction s) auto

lemma go_split_not_Nil [simp]: "go_split sep s \<noteq> []"
  by (induction s) (auto split: list.splits)

lemma go_cut_no_sep: "sep \<notin> set s \<Longrightarrow> go_cut sep s = (s, [])"
  by (induction s) (auto simp: go_cut_def)

lemma go_cut_append: "sep \<notin> set a \<Longrightarrow> go_cut sep (a @ sep # b) = (a, b)"
  by (induction a) (auto simp: go_cut_def)

section \<open>Numbers in strings\<close>

text \<open>Decimal numerals, as \<open>strconv.Itoa\<close> and \<open>%d\<close> print them and \<open>strconv.Atoi\<close> reads them.\<close>

fun dec_digits :: "nat \<Rightarrow> string" where
  "dec_digits n = (if n < 10 then [char_of (48 + n)] else dec_digits (n div 10) @ [char_of (48 + n mod 10)])"

declare dec_digits.simps [simp del]

definition itoa :: "int \<Rightarrow> string" where
  "itoa i = (if i < 0 then CHR ''-'' # dec_digits (nat (- i)) else dec_digits (nat i))"

definition is_digit :: "char \<Rightarrow> bool" where
  "is_digit c \<longleftrightarrow> c \<in> set ''0123456789''"

definition digits_val :: "string \<Rightarrow> int" where
  "digits_val ds = foldl (\<lambda>n c. 10 * n + (of_char c - 48)) 0 ds"

definition in_int64 :: "int \<Rightarrow> bool" where
  "in_int64 n \<longleftrightarrow> - (2 ^ 63) \<le> n \<and> n < 2 ^ 63"

definition atoi :: "string \<Rightarrow> int option" where
  "atoi s =
     (let (neg, ds) = (case s of
                         c # cs \<Rightarrow> if c = CHR ''-'' then (True, cs) else if c = CHR ''+'' then (False, cs) else (False, s)
                       | [] \<Rightarrow> (False, s));
          n = (if neg then - digits_val ds else digits_val ds)
      in if ds = [] \<or> \<not> list_all is_digit ds \<or> \<not> in_int64 n then None else Some n)"

lemma digit_char:
  assumes "d < 10"
  shows "is_digit (char_of (48 + d))" and "of_char (char_of (48 + d) :: char) = (48 + int d)"
proof -
  have "d = 0 \<or> d = 1 \<or> d = 2 \<or> d = 3 \<or> d = 4 \<or> d = 5 \<or> d = 6 \<or> d = 7 \<or> d = 8 \<or> d = 9"
    using assms by arith
  then show "is_digit (char_of (48 + d))" by (elim disjE) (simp_all add: is_digit_def char_of_def bit_0 bit_iff_odd drop_bit_eq_div)
  have "of_char (char_of (48 + d) :: char) = int (of_char (char_of (48 + d) :: char))" by (simp only: of_nat_of_char)
  also have "\<dots> = 48 + int d" using assms by (simp add: of_char_of)
  finally show "of_char (char_of (48 + d) :: char) = (48 + int d)" .
qed

lemma dec_digits_read:
  "dec_digits n \<noteq> [] \<and> (\<forall>c \<in> set (dec_digits n). is_digit c) \<and> digits_val (dec_digits n) = int n"
proof (induction n rule: dec_digits.induct)
  case (1 n)
  show ?case
  proof (cases "n < 10")
    case True
    then show ?thesis by (simp add: dec_digits.simps [of n] digits_val_def digit_char)
  next
    case False
    have "n mod 10 < 10" by simp
    note d = digit_char [OF this]
    have "digits_val (dec_digits n) = 10 * digits_val (dec_digits (n div 10)) + (of_char (char_of (48 + n mod 10) :: char) - 48)"
      using False by (simp add: dec_digits.simps [of n] digits_val_def)
    also have "\<dots> = 10 * int (n div 10) + int (n mod 10)" using 1 [OF False] d(2) by simp
    also have "\<dots> = int n" by presburger
    finally show ?thesis using False 1 [OF False] d(1) by (simp add: dec_digits.simps [of n])
  qed
qed

lemma dec_digits_Cons: "\<exists>c cs. dec_digits n = c # cs \<and> c \<noteq> CHR ''-'' \<and> c \<noteq> CHR ''+''"
proof (cases "dec_digits n")
  case (Cons c cs)
  then have "is_digit c" using dec_digits_read [of n] by auto
  then show ?thesis using Cons by (auto simp: is_digit_def)
qed (use dec_digits_read [of n] in auto)

lemma atoi_itoa: "in_int64 n \<Longrightarrow> atoi (itoa n) = Some n"
proof -
  assume n: "in_int64 n"
  note d = dec_digits_read [of "nat \<bar>n\<bar>"]
  then have all: "list_all is_digit (dec_digits (nat \<bar>n\<bar>))" "dec_digits (nat \<bar>n\<bar>) \<noteq> []" by (simp_all add: list_all_iff)
  show ?thesis
  proof (cases "n < 0")
    case True
    then show ?thesis using d all n by (simp add: atoi_def itoa_def)
  next
    case False
    obtain c cs where c: "dec_digits (nat n) = c # cs" "c \<noteq> CHR ''-''" "c \<noteq> CHR ''+''" using dec_digits_Cons by blast
    have "atoi (dec_digits (nat n)) = (if dec_digits (nat n) = [] \<or> \<not> list_all is_digit (dec_digits (nat n)) \<or>
        \<not> in_int64 (digits_val (dec_digits (nat n))) then None else Some (digits_val (dec_digits (nat n))))"
      using c by (simp add: atoi_def)
    then show ?thesis using d all n False by (simp add: itoa_def)
  qed
qed

text \<open>\<open>strings.ToLower\<close> on ASCII, and \<open>strings.Contains\<close>.\<close>

definition to_lower :: "string \<Rightarrow> string" where
  "to_lower s = map (\<lambda>c. let n = (of_char c :: nat) in if 65 \<le> n \<and> n \<le> 90 then char_of (n + 32) else c) s"

fun has_prefix :: "string \<Rightarrow> string \<Rightarrow> bool" where
  "has_prefix [] s = True"
| "has_prefix (p # ps) [] = False"
| "has_prefix (p # ps) (c # cs) \<longleftrightarrow> p = c \<and> has_prefix ps cs"

fun go_contains :: "string \<Rightarrow> string \<Rightarrow> bool" where
  "go_contains pat [] \<longleftrightarrow> pat = []"
| "go_contains pat (c # cs) \<longleftrightarrow> has_prefix pat (c # cs) \<or> go_contains pat cs"

section \<open>HTTP\<close>

text \<open>
  A response is a status code and a body. A request sent to another process either fails
  in transport (\<^term>\<open>None\<close>) or yields a response.
\<close>

type_synonym http_status = nat

abbreviation StatusOK :: http_status where "StatusOK \<equiv> 200"
abbreviation StatusBadRequest :: http_status where "StatusBadRequest \<equiv> 400"
abbreviation StatusNotFound :: http_status where "StatusNotFound \<equiv> 404"
abbreviation StatusMethodNotAllowed :: http_status where "StatusMethodNotAllowed \<equiv> 405"
abbreviation StatusPreconditionFailed :: http_status where "StatusPreconditionFailed \<equiv> 412"
abbreviation StatusLocked :: http_status where "StatusLocked \<equiv> 423"
abbreviation StatusInternalServerError :: http_status where "StatusInternalServerError \<equiv> 500"
abbreviation StatusBadGateway :: http_status where "StatusBadGateway \<equiv> 502"
abbreviation StatusServiceUnavailable :: http_status where "StatusServiceUnavailable \<equiv> 503"
abbreviation StatusGatewayTimeout :: http_status where "StatusGatewayTimeout \<equiv> 504"

section \<open>Time\<close>

text \<open>\<open>t.Sub(u)\<close> saturates at the range of a 64-bit duration; \<open>time.Time{}\<close> is year 1.\<close>

definition max_duration :: duration where
  "max_duration = 2 ^ 63 - 1"

definition time_sub :: "go_time \<Rightarrow> go_time \<Rightarrow> duration" where
  "time_sub t u = max (- (2 ^ 63)) (min max_duration (t - u))"

definition zero_time :: go_time where
  "zero_time = - 62135596800 * 10 ^ 9"

lemma time_sub_gt_iff: "d < max_duration \<Longrightarrow> - (2 ^ 63) \<le> d \<Longrightarrow> time_sub t u > d \<longleftrightarrow> t - u > d"
  by (auto simp: time_sub_def max_duration_def)

section \<open>Invariants of step systems\<close>

text \<open>
  A system whose steps keep an invariant keeps it along every run: the contract shared by
  the state machines of the development.
\<close>

inductive run :: "('s \<Rightarrow> 's \<Rightarrow> bool) \<Rightarrow> 's \<Rightarrow> 's \<Rightarrow> bool" for step where
  run_refl: "run step s s"
| run_step: "run step s t \<Longrightarrow> step t u \<Longrightarrow> run step s u"

lemma run_single: "step s t \<Longrightarrow> run step s t"
  by (rule run_step [OF run_refl])

lemma run_trans: "run step t u \<Longrightarrow> run step s t \<Longrightarrow> run step s u"
  by (induction rule: run.induct) (auto intro: run.intros)

locale step_invariant =
  fixes step :: "'s \<Rightarrow> 's \<Rightarrow> bool"
    and inv :: "'s \<Rightarrow> bool"
  assumes step_inv: "step s t \<Longrightarrow> inv s \<Longrightarrow> inv t"
begin

lemma run_inv: "run step s t \<Longrightarrow> inv s \<Longrightarrow> inv t"
  by (induction rule: run.induct) (auto intro: step_inv)

end

end
