(* ===== verification/Cache_Model.thy ===== *)
theory Cache_Model
  imports Prelude
begin

text \<open>
  The key-value stores of \<open>pkg/cache\<close> behind the interface \<open>pkg/cachemodel\<close>: the basic
  map, the \<open>sync.Map\<close> store, the locked map of the data node with its shard export and
  import, and the lock-striped \<open>ShardedCache\<close>. The locks of the Go code make each operation
  atomic; an operation is a function of the store's data.

  The interface is the locale \<open>cache\<close>: an operation does not panic, and behaves on the
  abstract content (a map) as the interface promises. Each store is an interpretation.
\<close>

section \<open>Hashing keys to shards\<close>

text \<open>FNV-1a, 32 bits (\<open>hash/fnv\<close>): xor a byte in, multiply by the prime, wrap.\<close>

definition fnv32a :: "byte list \<Rightarrow> 32 word" where
  "fnv32a bs = foldl (\<lambda>h b. (h XOR ucast b) * 16777619) 2166136261 bs"

definition hash_key :: "string \<Rightarrow> 32 word" where
  "hash_key k = fnv32a (bytes_of k)"

text \<open>
  The shard of a key, as the store, the data node and the client each compute it:
  \<open>int(h.Sum32()) % totalShards\<close>, made positive.
\<close>

definition key_shard_id :: "string \<Rightarrow> int \<Rightarrow> int option" where
  "key_shard_id k totalShards = do {
     keyShardID \<leftarrow> go_rem (uint (hash_key k)) totalShards;
     Some (if keyShardID < 0 then - keyShardID else keyShardID)
   }"

lemma key_shard_id_pos: "0 < n \<Longrightarrow> key_shard_id k n = Some (uint (hash_key k) mod n)"
  by (simp add: key_shard_id_def go_rem_nonneg not_less)

lemma key_shard_id_zero: "key_shard_id k 0 = None"
  by (simp add: key_shard_id_def go_rem_def)

section \<open>The interface\<close>

text \<open>
  \<open>lookup\<close> is the abstract content. \<open>Get\<close> returns the empty string for a missing key, so
  it reads the content through \<^const>\<open>str_at\<close>.
\<close>

locale cache =
  fixes empty :: "'c"
    and get_op :: "'c \<Rightarrow> string \<Rightarrow> string option"
    and put_op :: "'c \<Rightarrow> string \<Rightarrow> string \<Rightarrow> 'c option"
    and delete_op :: "'c \<Rightarrow> string \<Rightarrow> 'c option"
    and lookup :: "'c \<Rightarrow> string \<rightharpoonup> string"
    and invar :: "'c \<Rightarrow> bool"
  assumes cache_empty: "invar empty" "lookup empty = Map.empty"
    and cache_get: "invar c \<Longrightarrow> get_op c k = Some (str_at (lookup c) k)"
    and cache_put: "invar c \<Longrightarrow> \<exists>c'. put_op c k v = Some c' \<and> invar c' \<and> lookup c' = (lookup c)(k \<mapsto> v)"
    and cache_delete: "invar c \<Longrightarrow> \<exists>c'. delete_op c k = Some c' \<and> invar c' \<and> lookup c' = (lookup c)(k := None)"

text \<open>Sequences of writes, on a store and on the abstract map.\<close>

datatype cache_write = CPut string string | CDelete string

fun map_write :: "(string \<rightharpoonup> string) \<Rightarrow> cache_write \<Rightarrow> (string \<rightharpoonup> string)" where
  "map_write m (CPut k v) = m(k \<mapsto> v)"
| "map_write m (CDelete k) = m(k := None)"

fun store_write :: "('c \<Rightarrow> string \<Rightarrow> string \<Rightarrow> 'c option) \<Rightarrow> ('c \<Rightarrow> string \<Rightarrow> 'c option) \<Rightarrow>
    'c \<Rightarrow> cache_write \<Rightarrow> 'c option" where
  "store_write put del c (CPut k v) = put c k v"
| "store_write put del c (CDelete k) = del c k"

fun store_writes :: "('c \<Rightarrow> string \<Rightarrow> string \<Rightarrow> 'c option) \<Rightarrow> ('c \<Rightarrow> string \<Rightarrow> 'c option) \<Rightarrow>
    'c \<Rightarrow> cache_write list \<Rightarrow> 'c option" where
  "store_writes put del c [] = Some c"
| "store_writes put del c (w # ws) =
     (case store_write put del c w of None \<Rightarrow> None | Some c' \<Rightarrow> store_writes put del c' ws)"

context cache
begin

lemma write_refines:
  "invar c \<Longrightarrow> \<exists>c'. store_write put_op delete_op c w = Some c' \<and> invar c' \<and> lookup c' = map_write (lookup c) w"
  using cache_put [of c] cache_delete [of c] by (cases w) auto

lemma writes_refine:
  "invar c \<Longrightarrow> \<exists>c'. store_writes put_op delete_op c ws = Some c' \<and> invar c' \<and>
     lookup c' = foldl map_write (lookup c) ws"
proof (induction ws arbitrary: c)
  case Nil
  then show ?case by simp
next
  case (Cons w ws)
  from write_refines [OF Cons.prems, of w] obtain c1 where c1: "store_write put_op delete_op c w = Some c1"
      "invar c1" "lookup c1 = map_write (lookup c) w"
    by blast
  from Cons.IH [OF c1(2)] c1 show ?case by simp
qed

lemma get_after_writes:
  "\<exists>c. store_writes put_op delete_op empty ws = Some c \<and>
     get_op c k = Some (str_at (foldl map_write Map.empty ws) k)"
  using writes_refine [OF cache_empty(1), of ws] cache_get cache_empty(2) by fastforce

lemma put_get: "invar c \<Longrightarrow> \<exists>c'. put_op c k v = Some c' \<and> get_op c' k = Some v"
  using cache_put [of c k v] cache_get by (fastforce simp: str_at_def)

lemma delete_get: "invar c \<Longrightarrow> \<exists>c'. delete_op c k = Some c' \<and> get_op c' k = Some []"
  using cache_delete [of c k] cache_get by (fastforce simp: str_at_def)

end

section \<open>BasicMapCache\<close>

type_synonym kv = "string \<rightharpoonup> string"

record BasicMapCache =
  bm_data :: kv

definition NewBasicMapCache :: BasicMapCache where
  "NewBasicMapCache = \<lparr>bm_data = Map.empty\<rparr>"

definition BasicMapCache_Get :: "BasicMapCache \<Rightarrow> string \<Rightarrow> string" where
  "BasicMapCache_Get c key = str_at (bm_data c) key"

definition BasicMapCache_Delete :: "BasicMapCache \<Rightarrow> string \<Rightarrow> BasicMapCache" where
  "BasicMapCache_Delete c key = c\<lparr>bm_data := (bm_data c)(key := None)\<rparr>"

definition BasicMapCache_Put :: "BasicMapCache \<Rightarrow> string \<Rightarrow> string \<Rightarrow> BasicMapCache" where
  "BasicMapCache_Put c key val = c\<lparr>bm_data := (bm_data c)(key \<mapsto> val)\<rparr>"

interpretation basic_cache: cache NewBasicMapCache "\<lambda>c k. Some (BasicMapCache_Get c k)"
  "\<lambda>c k v. Some (BasicMapCache_Put c k v)" "\<lambda>c k. Some (BasicMapCache_Delete c k)" bm_data "\<lambda>_. True"
  by unfold_locales
    (simp_all add: NewBasicMapCache_def BasicMapCache_Get_def BasicMapCache_Put_def BasicMapCache_Delete_def)

section \<open>SyncMapCache\<close>

text \<open>\<open>Load\<close> reports a miss separately, which \<open>Get\<close> turns into the empty string.\<close>

record SyncMapCache =
  sm_data :: kv

definition NewSyncMapCache :: SyncMapCache where
  "NewSyncMapCache = \<lparr>sm_data = Map.empty\<rparr>"

definition SyncMapCache_Get :: "SyncMapCache \<Rightarrow> string \<Rightarrow> string" where
  "SyncMapCache_Get c key = (case sm_data c key of None \<Rightarrow> [] | Some val \<Rightarrow> val)"

definition SyncMapCache_Delete :: "SyncMapCache \<Rightarrow> string \<Rightarrow> SyncMapCache" where
  "SyncMapCache_Delete c key = c\<lparr>sm_data := (sm_data c)(key := None)\<rparr>"

definition SyncMapCache_Put :: "SyncMapCache \<Rightarrow> string \<Rightarrow> string \<Rightarrow> SyncMapCache" where
  "SyncMapCache_Put c key val = c\<lparr>sm_data := (sm_data c)(key \<mapsto> val)\<rparr>"

interpretation sync_cache: cache NewSyncMapCache "\<lambda>c k. Some (SyncMapCache_Get c k)"
  "\<lambda>c k v. Some (SyncMapCache_Put c k v)" "\<lambda>c k. Some (SyncMapCache_Delete c k)" sm_data "\<lambda>_. True"
  by unfold_locales
    (simp_all add: NewSyncMapCache_def SyncMapCache_Get_def SyncMapCache_Put_def SyncMapCache_Delete_def str_at_def)

section \<open>ConcurrentMapCache\<close>

record ConcurrentMapCache =
  cm_data :: kv

definition NewConcurrentMapCache :: ConcurrentMapCache where
  "NewConcurrentMapCache = \<lparr>cm_data = Map.empty\<rparr>"

definition ConcurrentMapCache_Get :: "ConcurrentMapCache \<Rightarrow> string \<Rightarrow> string" where
  "ConcurrentMapCache_Get c key = str_at (cm_data c) key"

definition ConcurrentMapCache_Delete :: "ConcurrentMapCache \<Rightarrow> string \<Rightarrow> ConcurrentMapCache" where
  "ConcurrentMapCache_Delete c key = c\<lparr>cm_data := (cm_data c)(key := None)\<rparr>"

definition ConcurrentMapCache_Put :: "ConcurrentMapCache \<Rightarrow> string \<Rightarrow> string \<Rightarrow> ConcurrentMapCache" where
  "ConcurrentMapCache_Put c key val = c\<lparr>cm_data := (cm_data c)(key \<mapsto> val)\<rparr>"

interpretation concurrent_cache: cache NewConcurrentMapCache "\<lambda>c k. Some (ConcurrentMapCache_Get c k)"
  "\<lambda>c k v. Some (ConcurrentMapCache_Put c k v)" "\<lambda>c k. Some (ConcurrentMapCache_Delete c k)" cm_data "\<lambda>_. True"
  by unfold_locales
    (simp_all add: NewConcurrentMapCache_def ConcurrentMapCache_Get_def ConcurrentMapCache_Put_def
      ConcurrentMapCache_Delete_def)

text \<open>
  \<open>ExportShard\<close> and \<open>Import\<close> range over a map. The loop visits the keys of \<open>ks\<close>, which is
  a \<^const>\<open>range_order\<close> of the map.
\<close>

fun export_loop :: "kv \<Rightarrow> int \<Rightarrow> int \<Rightarrow> string list \<Rightarrow> kv \<Rightarrow> kv option" where
  "export_loop data shardID totalShards [] result = Some result"
| "export_loop data shardID totalShards (k # ks) result =
     (case data k of
        None \<Rightarrow> export_loop data shardID totalShards ks result
      | Some v \<Rightarrow> do {
          keyShardID \<leftarrow> key_shard_id k totalShards;
          export_loop data shardID totalShards ks
            (if keyShardID = shardID then result(k \<mapsto> v) else result)
        })"

definition ExportShard :: "string list \<Rightarrow> ConcurrentMapCache \<Rightarrow> int \<Rightarrow> int \<Rightarrow> kv option" where
  "ExportShard ks c shardID totalShards = export_loop (cm_data c) shardID totalShards ks Map.empty"

fun import_loop :: "kv \<Rightarrow> string list \<Rightarrow> kv \<Rightarrow> kv" where
  "import_loop data [] m = m"
| "import_loop data (k # ks) m =
     import_loop data ks (case data k of None \<Rightarrow> m | Some v \<Rightarrow> m(k \<mapsto> v))"

definition Import :: "string list \<Rightarrow> ConcurrentMapCache \<Rightarrow> kv \<Rightarrow> ConcurrentMapCache" where
  "Import ks c data = c\<lparr>cm_data := import_loop data ks (cm_data c)\<rparr>"

section \<open>Sharding a key space\<close>

text \<open>
  What migration relies on: the shard function maps every key to one of the \<open>n\<close> shards.
  Exporting every shard and merging the parts then gives the whole content back.
\<close>

locale sharding =
  fixes shard :: "string \<Rightarrow> int \<Rightarrow> int"
  assumes shard_range: "0 < n \<Longrightarrow> 0 \<le> shard k n \<and> shard k n < n"
begin

lemma merge_parts:
  "foldl (\<lambda>m s. m ++ (data |` {k. shard k n = s})) m0 ss = m0 ++ (data |` {k. shard k n \<in> set ss})"
proof (induction ss arbitrary: m0)
  case Nil
  show ?case by simp
next
  case (Cons s ss)
  have "(data |` {k. shard k n = s}) ++ (data |` {k. shard k n \<in> set ss})
      = data |` {k. shard k n \<in> set (s # ss)}"
    by (subst map_add_restrict_split) (rule arg_cong [where f = "\<lambda>A. data |` A"], auto)
  then show ?case by (simp add: Cons.IH flip: map_add_assoc)
qed

lemma merge_all_parts:
  "0 < n \<Longrightarrow> foldl (\<lambda>m s. m ++ (data |` {k. shard k n = s})) Map.empty [0..n - 1] = data"
proof -
  assume "0 < n"
  then have "{k. shard k n \<in> set [0..n - 1]} = UNIV"
    using shard_range [of n] by auto
  then have "data |` {k. shard k n \<in> set [0..n - 1]} = data"
    by (simp only: restrict_map_UNIV)
  then show ?thesis
    by (simp only: merge_parts empty_map_add)
qed

lemma one_shard: "0 < n \<Longrightarrow> \<exists>!s. s \<in> {0..<n} \<and> shard k n = s"
  using shard_range [of n k] by auto

end

abbreviation shard_of :: "string \<Rightarrow> int \<Rightarrow> int" where
  "shard_of k n \<equiv> the (key_shard_id k n)"

interpretation key_sharding: sharding shard_of
  by unfold_locales (simp add: key_shard_id_pos)

lemma key_shard_id_Some_iff: "0 < n \<Longrightarrow> key_shard_id k n = Some s \<longleftrightarrow> shard_of k n = s"
  by (simp add: key_shard_id_pos)

lemma export_loop_eq:
  assumes n: "0 < n"
  shows "export_loop data s n ks result = Some (result ++ (data |` {k \<in> set ks. shard_of k n = s}))"
proof (induction ks arbitrary: result)
  case Nil
  show ?case by simp
next
  case (Cons k ks)
  show ?case
    by (auto simp: Cons.IH key_shard_id_pos [OF n] map_add_def restrict_map_def fun_eq_iff
        split: option.splits)
qed

lemma import_loop_eq: "import_loop data ks m = m ++ (data |` set ks)"
  by (induction ks arbitrary: m)
    (auto simp: map_add_def restrict_map_def fun_eq_iff split: option.splits)

text \<open>The order of the \<open>range\<close> loops does not matter.\<close>

lemma ExportShard_eq:
  assumes "range_order ks (cm_data c)" and "0 < n"
  shows "ExportShard ks c s n = Some (cm_data c |` {k. shard_of k n = s})"
proof -
  have "cm_data c |` {k \<in> set ks. shard_of k n = s} = cm_data c |` {k. shard_of k n = s}"
    using assms(1) by (auto simp: range_order_def restrict_map_def fun_eq_iff dom_def)
  then show ?thesis
    using assms(2) by (simp add: ExportShard_def export_loop_eq)
qed

lemma Import_eq:
  assumes "range_order ks data"
  shows "cm_data (Import ks c data) = cm_data c ++ data"
proof -
  have "data |` set ks = data"
    using assms by (auto simp: range_order_def restrict_map_def fun_eq_iff dom_def)
  then show ?thesis by (simp add: Import_def import_loop_eq)
qed

section \<open>ShardedCache\<close>

record ShardedCache =
  shards :: "kv list"
  numShards :: int
  shardMask :: int

definition defaultNumShards :: int where
  "defaultNumShards = 16"

definition NewShardedCache :: "int \<Rightarrow> ShardedCache" where
  "NewShardedCache n =
     (let numShards = (if n \<le> 0 \<or> n AND (n - 1) \<noteq> 0 then defaultNumShards else n)
      in \<lparr>shards = replicate (nat numShards) Map.empty, numShards = numShards,
          shardMask = numShards - 1\<rparr>)"

text \<open>The index \<open>uint(h.Sum32()) & uint(sc.shardMask)\<close>, computed on 64-bit words.\<close>

definition getShard :: "ShardedCache \<Rightarrow> string \<Rightarrow> int" where
  "getShard sc key = uint ((ucast (hash_key key) :: 64 word) AND word_of_int (shardMask sc))"

definition ShardedCache_Get :: "ShardedCache \<Rightarrow> string \<Rightarrow> string option" where
  "ShardedCache_Get sc key = do {
     shard \<leftarrow> go_index (shards sc) (getShard sc key);
     Some (str_at shard key)
   }"

definition ShardedCache_Delete :: "ShardedCache \<Rightarrow> string \<Rightarrow> ShardedCache option" where
  "ShardedCache_Delete sc key = do {
     shard \<leftarrow> go_index (shards sc) (getShard sc key);
     ss \<leftarrow> go_store (shards sc) (getShard sc key) (shard(key := None));
     Some (sc\<lparr>shards := ss\<rparr>)
   }"

definition ShardedCache_Put :: "ShardedCache \<Rightarrow> string \<Rightarrow> string \<Rightarrow> ShardedCache option" where
  "ShardedCache_Put sc key val = do {
     shard \<leftarrow> go_index (shards sc) (getShard sc key);
     ss \<leftarrow> go_store (shards sc) (getShard sc key) (shard(key \<mapsto> val));
     Some (sc\<lparr>shards := ss\<rparr>)
   }"

text \<open>
  The invariant: one map per shard, the mask is the largest index, and the number of shards
  is a power of two. The content of the store at a key is that of the
  key's shard.
\<close>

definition sharded_invar :: "ShardedCache \<Rightarrow> bool" where
  "sharded_invar sc \<longleftrightarrow> go_len (shards sc) = numShards sc \<and> shardMask sc = numShards sc - 1 \<and>
     (\<exists>j. numShards sc = 2 ^ j)"

definition sharded_lookup :: "ShardedCache \<Rightarrow> kv" where
  "sharded_lookup sc key = (shards sc ! nat (getShard sc key)) key"

lemma int_and_pred_pow2:
  fixes n :: int
  assumes "0 < n" and "n AND (n - 1) = 0"
  shows "\<exists>j. n = 2 ^ j"
  using assms
proof (induction "nat n" arbitrary: n rule: less_induct)
  case less
  show ?case
  proof (cases "even n")
    case True
    then obtain m where m: "n = 2 * m" by (elim evenE)
    have "(n - 1) div 2 = m - 1" "n div 2 = m" using m by simp_all
    then have "n AND (n - 1) = 2 * (m AND (m - 1))"
      using True by (simp add: and_int_rec [of n])
    with less.prems m have "0 < m" "m AND (m - 1) = 0" by auto
    moreover have "nat m < nat n" using m less.prems by simp
    ultimately obtain j where "m = 2 ^ j" using less.hyps by blast
    then have "n = 2 ^ Suc j" using m by simp
    then show ?thesis by blast
  next
    case False
    then obtain m where m: "n = 2 * m + 1" by (elim oddE)
    then have "(n - 1) div 2 = m" "n div 2 = m" "even (n - 1)" by simp_all
    then have "n AND (n - 1) = 2 * m"
      by (simp add: and_int_rec [of n])
    with less.prems m have "n = 2 ^ 0" by simp
    then show ?thesis by blast
  qed
qed

text \<open>The mask picks the hash modulo the number of shards, an index in range.\<close>

lemma min_numeral_32_64: "min 32 64 = (32 :: nat)"
  by simp

lemma hash_and_mask:
  "uint ((ucast (h :: 32 word) :: 64 word) AND word_of_int (2 ^ j - 1)) = uint h mod 2 ^ j"
proof -
  have h: "take_bit 32 (uint h) = uint h"
    by (simp add: take_bit_int_eq_self_iff unsigned_less [of h, simplified])
  have "uint ((ucast h :: 64 word) AND word_of_int (2 ^ j - 1))
      = take_bit 64 (uint h) AND take_bit 64 (mask j)"
    by (simp only: uint_and uint_word_of_int_eq mask_eq_exp_minus_1 unsigned_ucast_eq) simp
  also have "\<dots> = take_bit 64 (take_bit j (uint h))"
    by (simp add: take_bit_eq_mask ac_simps and.assoc)
  also have "\<dots> = take_bit j (uint h)"
    by (metis h take_bit_take_bit min.assoc min.commute min_numeral_32_64)
  finally show ?thesis by (simp add: take_bit_eq_mod)
qed

lemma getShard_mod: "sharded_invar sc \<Longrightarrow> getShard sc key = uint (hash_key key) mod numShards sc"
  unfolding sharded_invar_def getShard_def using hash_and_mask by metis

lemma getShard_range:
  "sharded_invar sc \<Longrightarrow> 0 \<le> getShard sc key \<and> getShard sc key < go_len (shards sc)"
  using getShard_mod [of sc key] by (auto simp: sharded_invar_def)

lemma NewShardedCache_invar: "sharded_invar (NewShardedCache n)"
proof (cases "n \<le> 0 \<or> n AND (n - 1) \<noteq> 0")
  case True
  have "(16 :: int) = 2 ^ 4" by simp
  with True show ?thesis
    by (auto simp: sharded_invar_def NewShardedCache_def defaultNumShards_def go_len_def intro!: exI [of _ 4])
next
  case False
  with int_and_pred_pow2 [of n] show ?thesis
    by (auto simp: sharded_invar_def NewShardedCache_def go_len_def)
qed

lemma sharded_update:
  assumes inv: "sharded_invar sc" and i: "i = getShard sc key"
    and same: "\<And>k. k \<noteq> key \<Longrightarrow> m' k = (shards sc ! nat i) k"
  shows "sharded_invar (sc\<lparr>shards := (shards sc)[nat i := m']\<rparr>)"
    and "sharded_lookup (sc\<lparr>shards := (shards sc)[nat i := m']\<rparr>) = (sharded_lookup sc)(key := m' key)"
proof -
  let ?sc = "sc\<lparr>shards := (shards sc)[nat i := m']\<rparr>"
  show inv': "sharded_invar ?sc"
    using inv by (simp add: sharded_invar_def)
  have len: "nat i < length (shards sc)"
    using getShard_range [OF inv, of key] i by (simp add: go_len_def nat_less_iff)
  have g: "getShard (sc\<lparr>shards := ss\<rparr>) k = getShard sc k" for k ss
    by (simp add: getShard_def)
  show "sharded_lookup ?sc = (sharded_lookup sc)(key := m' key)"
    using len same by (auto simp: sharded_lookup_def g fun_eq_iff nth_list_update i)
qed

interpretation sharded_cache: cache "NewShardedCache n" ShardedCache_Get ShardedCache_Put ShardedCache_Delete
  sharded_lookup sharded_invar for n
proof unfold_locales
  show "sharded_invar (NewShardedCache n)" by (rule NewShardedCache_invar)
  have empty: "shards (NewShardedCache n) ! i = Map.empty" if "i < length (shards (NewShardedCache n))" for i
    using that by (simp add: NewShardedCache_def Let_def del: nat_less_iff)
  show "sharded_lookup (NewShardedCache n) = Map.empty"
    using getShard_range [OF NewShardedCache_invar [of n]]
    by (simp add: sharded_lookup_def fun_eq_iff empty go_len_def nat_less_iff)
next
  fix c :: ShardedCache and k v :: string
  assume inv: "sharded_invar c"
  note r = getShard_range [OF inv, of k]
  show "ShardedCache_Get c k = Some (str_at (sharded_lookup c) k)"
    using r by (simp add: ShardedCache_Get_def go_simps sharded_lookup_def str_at_def)
  show "\<exists>c'. ShardedCache_Put c k v = Some c' \<and> sharded_invar c' \<and>
      sharded_lookup c' = (sharded_lookup c)(k \<mapsto> v)"
    using r sharded_update [OF inv refl, of k "(shards c ! nat (getShard c k))(k \<mapsto> v)"]
    by (simp add: ShardedCache_Put_def go_simps)
  show "\<exists>c'. ShardedCache_Delete c k = Some c' \<and> sharded_invar c' \<and>
      sharded_lookup c' = (sharded_lookup c)(k := None)"
    using r sharded_update [OF inv refl, of k "(shards c ! nat (getShard c k))(k := None)"]
    by (simp add: ShardedCache_Delete_def go_simps)
qed

section \<open>Properties\<close>

text \<open>C28: The lock-striped store and the plain map store cannot be told apart: after any
  sequence of puts and deletes on a new \<open>ShardedCache\<close> (of any requested size) and on a new
  \<open>BasicMapCache\<close>, no operation has panicked and \<open>Get\<close> returns the same string for every key.\<close>

theorem sharded_cache_equiv_basic:
  "\<exists>sc b. store_writes ShardedCache_Put ShardedCache_Delete (NewShardedCache n) ws = Some sc \<and>
     store_writes (\<lambda>c k v. Some (BasicMapCache_Put c k v)) (\<lambda>c k. Some (BasicMapCache_Delete c k))
       NewBasicMapCache ws = Some b \<and>
     (\<forall>k. ShardedCache_Get sc k = Some (BasicMapCache_Get b k))"
proof -
  from sharded_cache.writes_refine [OF NewShardedCache_invar [of n], of ws] obtain sc
    where sc: "store_writes ShardedCache_Put ShardedCache_Delete (NewShardedCache n) ws = Some sc"
      "sharded_invar sc" "sharded_lookup sc = foldl map_write Map.empty ws"
    using sharded_cache.cache_empty(2) by metis
  from basic_cache.writes_refine [OF TrueI, of NewBasicMapCache ws] obtain b
    where b: "store_writes (\<lambda>c k v. Some (BasicMapCache_Put c k v))
        (\<lambda>c k. Some (BasicMapCache_Delete c k)) NewBasicMapCache ws = Some b"
      "bm_data b = foldl map_write Map.empty ws"
    using basic_cache.cache_empty(2) by metis
  have "ShardedCache_Get sc k = Some (BasicMapCache_Get b k)" for k
    using sharded_cache.cache_get [OF sc(2)] sc(3) b(2) by (simp add: BasicMapCache_Get_def)
  with sc(1) b(1) show ?thesis by blast
qed

text \<open>The bit mask of \<open>ShardedCache\<close> selects the hash modulo the number of shards: for every
  requested size, the store has a power of two of shards, and the index of every key is in range.\<close>

theorem sharded_index_is_hash_mod:
  "(\<exists>j. numShards (NewShardedCache n) = 2 ^ j) \<and>
   getShard (NewShardedCache n) key = uint (hash_key key) mod numShards (NewShardedCache n) \<and>
   0 \<le> getShard (NewShardedCache n) key \<and>
   getShard (NewShardedCache n) key < go_len (shards (NewShardedCache n))"
  using NewShardedCache_invar [of n] getShard_mod [OF NewShardedCache_invar, of n key]
    getShard_range [OF NewShardedCache_invar, of n key]
  by (auto simp: sharded_invar_def)

text \<open>C32: Exporting every shard of a data node's store loses and duplicates nothing: merging the
  exports of all \<open>n\<close> shards gives the whole content back, in whatever order the store's map is
  visited, and no key is exported under two shards.\<close>

theorem export_all_shards:
  assumes "range_order ks (cm_data c)" and "0 < n"
  shows "foldl (\<lambda>m s. m ++ the (ExportShard ks c s n)) Map.empty [0..n - 1] = cm_data c \<and>
    (\<forall>s s'. s \<noteq> s' \<longrightarrow> dom (the (ExportShard ks c s n)) \<inter> dom (the (ExportShard ks c s' n)) = {})"
  using key_sharding.merge_all_parts [OF assms(2), of "cm_data c"]
  by (auto simp: ExportShard_eq [OF assms] restrict_map_def split: if_splits)

theorem export_all_shards_witness:
  "range_order [''a'', ''b''] (cm_data \<lparr>cm_data = [''a'' \<mapsto> ''1'', ''b'' \<mapsto> ''2'']\<rparr>) \<and> (0 :: int) < 2 \<and>
   foldl (\<lambda>m s. m ++ the (ExportShard [''a'', ''b''] \<lparr>cm_data = [''a'' \<mapsto> ''1'', ''b'' \<mapsto> ''2'']\<rparr> s 2))
     Map.empty [0..2 - 1] = [''a'' \<mapsto> ''1'', ''b'' \<mapsto> ''2'']"
proof -
  have h: "range_order [''a'', ''b''] (cm_data \<lparr>cm_data = [''a'' \<mapsto> ''1'', ''b'' \<mapsto> ''2'']\<rparr>)"
    by (auto simp: range_order_def)
  show ?thesis using h export_all_shards [OF h, of 2] by simp
qed

end
