(* ===== verification/Metadata.thy ===== *)
theory Metadata
  imports Prelude
begin

text \<open>
  The cluster topology of \<open>pkg/metadata\<close>: nodes, shards and the epoch, and the reaction to a
  dead node. Statuses are Go strings with named constants, so the zero value \<open>''''\<close> is a
  status too. The epoch is a \<open>uint64\<close>. Maps that a loop ranges over come with the key order
  of that loop.
\<close>

section \<open>The data model\<close>

type_synonym NodeStatus = string
type_synonym ShardStatus = string

definition StatusActive :: NodeStatus where "StatusActive = ''ACTIVE''"
definition StatusDead :: NodeStatus where "StatusDead = ''DEAD''"
definition StatusJoining :: NodeStatus where "StatusJoining = ''JOINING''"

definition ShardStatusActive :: ShardStatus where "ShardStatusActive = ''ACTIVE''"
definition ShardStatusMigrating :: ShardStatus where "ShardStatusMigrating = ''MIGRATING''"
definition ShardStatusLocked :: ShardStatus where "ShardStatusLocked = ''LOCKED''"

lemmas status_defs = StatusActive_def StatusDead_def StatusJoining_def
  ShardStatusActive_def ShardStatusMigrating_def ShardStatusLocked_def

record ShardMetadata =
  shard_ID :: int
  PrimaryID :: string
  ReplicaIDs :: "string list"
  shard_Status :: ShardStatus

record NodeMetadata =
  node_ID :: string
  Address :: string
  node_Status :: NodeStatus
  LastHeartbeat :: go_time

record ClusterConfig =
  Epoch :: uint64
  TotalShards :: int
  Nodes :: "string \<rightharpoonup> NodeMetadata"
  Shards :: "int \<rightharpoonup> ShardMetadata"

fun new_shards_loop :: "int list \<Rightarrow> (int \<rightharpoonup> ShardMetadata) \<Rightarrow> (int \<rightharpoonup> ShardMetadata)" where
  "new_shards_loop [] m = m"
| "new_shards_loop (i # is) m = new_shards_loop is
     (m(i \<mapsto> \<lparr>shard_ID = i, PrimaryID = [], ReplicaIDs = [], shard_Status = ShardStatusActive\<rparr>))"

definition NewClusterConfig :: "int \<Rightarrow> ClusterConfig" where
  "NewClusterConfig numShards =
     \<lparr>Epoch = 0, TotalShards = numShards, Nodes = Map.empty,
      Shards = new_shards_loop [0..numShards - 1] Map.empty\<rparr>"

lemma new_shards_loop_eq:
  "new_shards_loop is m i = (if i \<in> set is
     then Some \<lparr>shard_ID = i, PrimaryID = [], ReplicaIDs = [], shard_Status = ShardStatusActive\<rparr>
     else m i)"
  by (induction "is" arbitrary: m) auto

section \<open>Rebalancing after a failure\<close>

text \<open>
  \<open>deepCopyConfig\<close> marshals to JSON and back; every field is a JSON value, so the copy is
  equal to the original. The model's configurations are values, never shared.
\<close>

definition deepCopyConfig :: "ClusterConfig \<Rightarrow> ClusterConfig" where
  "deepCopyConfig config = config"

text \<open>The loop body of \<open>Rebalance\<close>: the new struct leaves \<open>Status\<close> at its zero value.\<close>

definition rebalance_shard :: "string \<Rightarrow> ShardMetadata \<Rightarrow> ShardMetadata" where
  "rebalance_shard deadNodeID shard =
     (if PrimaryID shard = deadNodeID then
        (case ReplicaIDs shard of
           newPrimary # rest \<Rightarrow>
             \<lparr>shard_ID = shard_ID shard, PrimaryID = newPrimary, ReplicaIDs = rest, shard_Status = []\<rparr>
         | [] \<Rightarrow>
             \<lparr>shard_ID = shard_ID shard, PrimaryID = [], ReplicaIDs = ReplicaIDs shard, shard_Status = []\<rparr>)
      else
        \<lparr>shard_ID = shard_ID shard, PrimaryID = PrimaryID shard,
         ReplicaIDs = filter (\<lambda>replica. replica \<noteq> deadNodeID) (ReplicaIDs shard), shard_Status = []\<rparr>)"

fun rebalance_loop :: "string \<Rightarrow> int list \<Rightarrow> (int \<rightharpoonup> ShardMetadata) \<Rightarrow> (int \<rightharpoonup> ShardMetadata)" where
  "rebalance_loop dead [] m = m"
| "rebalance_loop dead (i # is) m = rebalance_loop dead is
     (case m i of None \<Rightarrow> m | Some shard \<Rightarrow> m(i \<mapsto> rebalance_shard dead shard))"

definition mark_dead :: "string \<Rightarrow> (string \<rightharpoonup> NodeMetadata) \<Rightarrow> (string \<rightharpoonup> NodeMetadata)" where
  "mark_dead deadNodeID nodes =
     (case nodes deadNodeID of
        Some status \<Rightarrow> nodes(deadNodeID \<mapsto> status\<lparr>node_Status := StatusDead, LastHeartbeat := zero_time\<rparr>)
      | None \<Rightarrow> nodes)"

definition metadata_Rebalance :: "int list \<Rightarrow> ClusterConfig \<Rightarrow> string \<Rightarrow> ClusterConfig" where
  "metadata_Rebalance is config deadNodeID =
     (let newConfig = deepCopyConfig config;
          newConfig = newConfig\<lparr>Epoch := Epoch newConfig + 1\<rparr>;
          newConfig = newConfig\<lparr>Nodes := mark_dead deadNodeID (Nodes newConfig)\<rparr>
      in newConfig\<lparr>Shards := rebalance_loop deadNodeID is (Shards newConfig)\<rparr>)"

lemma rebalance_loop_eq:
  "distinct is \<Longrightarrow> rebalance_loop dead is m i =
     (if i \<in> set is then map_option (rebalance_shard dead) (m i) else m i)"
  by (induction "is" arbitrary: m) (auto split: option.splits)

text \<open>The loop's order does not matter: every shard goes through the body once.\<close>

lemma metadata_Rebalance_simps:
  assumes "range_order is (Shards config)"
  shows "Epoch (metadata_Rebalance is config dead) = Epoch config + 1"
    and "TotalShards (metadata_Rebalance is config dead) = TotalShards config"
    and "Nodes (metadata_Rebalance is config dead) = mark_dead dead (Nodes config)"
    and "Shards (metadata_Rebalance is config dead) i = map_option (rebalance_shard dead) (Shards config i)"
  using assms
  by (auto simp: metadata_Rebalance_def deepCopyConfig_def Let_def rebalance_loop_eq range_order_def domIff
      split: if_splits)

section \<open>Well-formed topologies\<close>

text \<open>
  A shard is well-formed when its replicas are distinct and other than its primary, and a
  shard with no primary has no replica either. In a live topology, every primary and replica
  is an active node.
\<close>

definition shard_wf :: "ShardMetadata \<Rightarrow> bool" where
  "shard_wf shard \<longleftrightarrow> distinct (ReplicaIDs shard) \<and> PrimaryID shard \<notin> set (ReplicaIDs shard) \<and>
     (PrimaryID shard = [] \<longrightarrow> ReplicaIDs shard = []) \<and> [] \<notin> set (ReplicaIDs shard)"

definition topology_wf :: "ClusterConfig \<Rightarrow> bool" where
  "topology_wf config \<longleftrightarrow> (\<forall>i shard. Shards config i = Some shard \<longrightarrow> shard_wf shard)"

definition is_active :: "ClusterConfig \<Rightarrow> string \<Rightarrow> bool" where
  "is_active config n \<longleftrightarrow> (\<exists>node. Nodes config n = Some node \<and> node_Status node = StatusActive)"

definition topology_live :: "ClusterConfig \<Rightarrow> bool" where
  "topology_live config \<longleftrightarrow> (\<forall>i shard. Shards config i = Some shard \<longrightarrow>
     (PrimaryID shard = [] \<or> is_active config (PrimaryID shard)) \<and>
     (\<forall>r \<in> set (ReplicaIDs shard). is_active config r))"

lemma rebalance_shard_wf: "shard_wf shard \<Longrightarrow> shard_wf (rebalance_shard dead shard)"
  by (auto simp: shard_wf_def rebalance_shard_def split: list.splits)

lemma rebalance_shard_drops_dead:
  "shard_wf shard \<Longrightarrow> dead \<noteq> [] \<Longrightarrow>
     PrimaryID (rebalance_shard dead shard) \<noteq> dead \<and> dead \<notin> set (ReplicaIDs (rebalance_shard dead shard))"
  by (auto simp: shard_wf_def rebalance_shard_def split: list.splits)

lemma rebalance_shard_members:
  "PrimaryID (rebalance_shard dead shard) \<in> {[], PrimaryID shard} \<union> set (ReplicaIDs shard)"
  "set (ReplicaIDs (rebalance_shard dead shard)) \<subseteq> set (ReplicaIDs shard)"
  by (auto simp: rebalance_shard_def split: list.splits)

lemma rebalance_is_active:
  assumes "range_order is (Shards config)"
  shows "is_active (metadata_Rebalance is config dead) n \<longleftrightarrow> is_active config n \<and> n \<noteq> dead"
  by (auto simp: is_active_def metadata_Rebalance_simps(3) [OF assms] mark_dead_def status_defs
      split: option.splits if_splits)

lemma metadata_Rebalance_wf:
  assumes "range_order is (Shards config)" and "topology_wf config"
  shows "topology_wf (metadata_Rebalance is config dead)"
  using assms(2) by (auto simp: topology_wf_def metadata_Rebalance_simps [OF assms(1)] rebalance_shard_wf)

lemma metadata_Rebalance_live:
  assumes ord: "range_order is (Shards config)" and wf: "topology_wf config"
    and live: "topology_live config" and dead: "dead \<noteq> []"
  shows "topology_live (metadata_Rebalance is config dead)"
  unfolding topology_live_def
proof (intro allI impI)
  fix i shard'
  assume "Shards (metadata_Rebalance is config dead) i = Some shard'"
  then obtain shard where s: "Shards config i = Some shard" and s': "shard' = rebalance_shard dead shard"
    by (auto simp: metadata_Rebalance_simps [OF ord])
  have w: "shard_wf shard" using wf s by (auto simp: topology_wf_def)
  note d = rebalance_shard_drops_dead [OF w dead] and m = rebalance_shard_members [of dead shard]
  have l: "PrimaryID shard = [] \<or> is_active config (PrimaryID shard)"
    "\<forall>r \<in> set (ReplicaIDs shard). is_active config r"
    using live s by (auto simp: topology_live_def)
  show "(PrimaryID shard' = [] \<or> is_active (metadata_Rebalance is config dead) (PrimaryID shard')) \<and>
      (\<forall>r \<in> set (ReplicaIDs shard'). is_active (metadata_Rebalance is config dead) r)"
    using l m d by (auto simp: s' rebalance_is_active [OF ord])
qed

section \<open>Properties\<close>

text \<open>C27: Failover. After \<open>Rebalance\<close> of a live, well-formed topology the dead node is marked
  \<open>DEAD\<close> and is neither primary nor replica of any shard, every remaining primary and replica is
  an active node, the topology is well-formed, and the epoch has grown by one.\<close>

theorem rebalance_failover:
  assumes "range_order is (Shards config)" and "topology_wf config" and "topology_live config"
    and "dead \<noteq> []" and "Nodes config dead = Some node"
  shows "Epoch (metadata_Rebalance is config dead) = Epoch config + 1 \<and>
    (\<exists>node'. Nodes (metadata_Rebalance is config dead) dead = Some node' \<and> node_Status node' = StatusDead) \<and>
    topology_wf (metadata_Rebalance is config dead) \<and>
    topology_live (metadata_Rebalance is config dead) \<and>
    (\<forall>i shard. Shards (metadata_Rebalance is config dead) i = Some shard \<longrightarrow>
       PrimaryID shard \<noteq> dead \<and> dead \<notin> set (ReplicaIDs shard))"
proof -
  have "Nodes (metadata_Rebalance is config dead) dead =
      Some (node\<lparr>node_Status := StatusDead, LastHeartbeat := zero_time\<rparr>)"
    using assms(5) by (simp add: metadata_Rebalance_simps(3) [OF assms(1)] mark_dead_def)
  moreover have "\<forall>i shard. Shards (metadata_Rebalance is config dead) i = Some shard \<longrightarrow>
      PrimaryID shard \<noteq> dead \<and> dead \<notin> set (ReplicaIDs shard)"
    using assms(2) rebalance_shard_drops_dead [OF _ assms(4)]
    by (auto simp: metadata_Rebalance_simps(4) [OF assms(1)] topology_wf_def)
  ultimately show ?thesis
    using metadata_Rebalance_simps(1) [OF assms(1)] metadata_Rebalance_wf [OF assms(1,2)]
      metadata_Rebalance_live [OF assms(1-4)] by simp
qed

definition example_topology :: ClusterConfig where
  "example_topology =
     \<lparr>Epoch = 1, TotalShards = 1,
      Nodes = [''n1'' \<mapsto> \<lparr>node_ID = ''n1'', Address = ''a1'', node_Status = StatusActive, LastHeartbeat = 0\<rparr>,
               ''n2'' \<mapsto> \<lparr>node_ID = ''n2'', Address = ''a2'', node_Status = StatusActive, LastHeartbeat = 0\<rparr>],
      Shards = [0 \<mapsto> \<lparr>shard_ID = 0, PrimaryID = ''n1'', ReplicaIDs = [''n2''], shard_Status = ShardStatusLocked\<rparr>]\<rparr>"

lemma example_topology_ok:
  "range_order [0] (Shards example_topology)" "topology_wf example_topology" "topology_live example_topology"
  by (auto simp: example_topology_def range_order_def topology_wf_def topology_live_def shard_wf_def
      is_active_def split: if_splits)

theorem rebalance_failover_witness:
  "\<exists>shard. Shards (metadata_Rebalance [0] example_topology ''n1'') 0 = Some shard \<and>
     PrimaryID shard = ''n2'' \<and> topology_live (metadata_Rebalance [0] example_topology ''n1'')"
proof -
  have n: "Nodes example_topology ''n1'' = Some \<lparr>node_ID = ''n1'', Address = ''a1'',
      node_Status = StatusActive, LastHeartbeat = 0\<rparr>"
    by (simp add: example_topology_def)
  have "topology_live (metadata_Rebalance [0] example_topology ''n1'')"
    using rebalance_failover [OF example_topology_ok _ n] by simp
  moreover have "Shards (metadata_Rebalance [0] example_topology ''n1'') 0 =
      Some \<lparr>shard_ID = 0, PrimaryID = ''n2'', ReplicaIDs = [], shard_Status = []\<rparr>"
    by (simp add: metadata_Rebalance_def deepCopyConfig_def rebalance_shard_def example_topology_def)
  ultimately show ?thesis by simp
qed

text \<open>\<open>Rebalance\<close> forgets the status of every shard, also of shards the dead node had nothing
  to do with: afterwards each is at the zero value, so a shard that a migration holds \<open>LOCKED\<close>
  is no longer locked, and no other field of an unaffected shard changes.\<close>

theorem rebalance_clears_shard_status:
  assumes "range_order is (Shards config)" and "Shards config i = Some shard"
  shows "\<exists>shard'. Shards (metadata_Rebalance is config dead) i = Some shard' \<and> shard_Status shard' = [] \<and>
    (PrimaryID shard \<noteq> dead \<and> dead \<notin> set (ReplicaIDs shard) \<longrightarrow> shard' = shard\<lparr>shard_Status := []\<rparr>)"
proof -
  have "filter (\<lambda>r. r \<noteq> dead) (ReplicaIDs shard) = ReplicaIDs shard" if "dead \<notin> set (ReplicaIDs shard)"
    using that by (simp add: filter_id_conv) metis
  then show ?thesis
    using assms(2) by (auto simp: metadata_Rebalance_simps [OF assms(1)] rebalance_shard_def split: list.splits)
qed

theorem rebalance_clears_shard_status_witness:
  "\<exists>shard'. Shards (metadata_Rebalance [0] example_topology ''n3'') 0 = Some shard' \<and>
     shard_Status shard' = [] \<and> shard_Status (the (Shards example_topology 0)) = ShardStatusLocked"
proof -
  have s: "Shards example_topology 0 =
      Some \<lparr>shard_ID = 0, PrimaryID = ''n1'', ReplicaIDs = [''n2''], shard_Status = ShardStatusLocked\<rparr>"
    by (simp add: example_topology_def)
  show ?thesis
    using rebalance_clears_shard_status [OF example_topology_ok(1) s, of "''n3''"] s by auto
qed

end
