(* ===== verification/Raft_Types.thy ===== *)
theory Raft_Types
  imports Prelude
begin

text \<open>
  The data of \<open>pkg/raft\<close>: messages and log entries, the wire format of \<open>raft.proto\<close> and the
  conversions to and from it, the application interface, and the state of a Raft node.

  The payload of a message (\<open>Data\<close>) is opaque to Raft: the type variable \<^typ>\<open>'d\<close>. The state of
  the application is \<^typ>\<open>'a\<close>.

  Channels are modelled by what is in their buffer. The timer and signal channels have
  capacity 1 and are only written without blocking, so a flag says whether the token is there.
  The save queue is the number of its tokens. A response channel has capacity 1.
\<close>

section \<open>Roles and messages\<close>

datatype Role = Follower | Candidate | Leader

record VoteRequestData =
  vd_candidateId :: int
  vd_candidateTerm :: int
  vd_candidateLogLength :: int
  vd_candidateLogTerm :: int

record VoteResponse =
  v_nodeId :: int
  v_currentTerm :: int
  v_granted :: bool

record BroadcastResponse =
  br_Success :: bool
  br_Value :: int
  br_Error :: "string option"

type_synonym MessageType = string

definition GetMsg :: MessageType where "GetMsg = ''GET''"
definition PutMsg :: MessageType where "PutMsg = ''PUT''"
definition DeleteMsg :: MessageType where "DeleteMsg = ''DELETE''"
definition CommandMsg :: MessageType where "CommandMsg = ''COMMAND''"

lemmas msg_type_defs = GetMsg_def PutMsg_def DeleteMsg_def CommandMsg_def

record 'd Message =
  MsgType :: MessageType
  Key :: int
  Value :: "int option"
  Data :: 'd
  ResponseChan :: "nat option"
  IdempotencyToken :: string
  ClientID :: string

record 'd LogEntry =
  Term :: int
  Msg :: "'d Message"

section \<open>The wire format\<close>

text \<open>
  Integer fields are \<open>int32\<close>: a sender narrows with \<^const>\<open>int32\<close>. A nested message is a pointer,
  absent when the sender left the field out. The enum is open: any \<open>int32\<close> can arrive.
\<close>

record 'd pb_Message =
  pb_Type :: int
  pb_Key :: int
  pb_Value :: "int option"
  pb_CommandPayload :: 'd
  pb_IdempotencyToken :: string
  pb_ClientId :: string

record 'd pb_LogEntry =
  pb_Term :: int
  pb_Msg :: "'d pb_Message option"

record VoteRequestArgs =
  CandidateId :: int
  CandidateTerm :: int
  CandidateLogLength :: int
  CandidateLogTerm :: int

record pb_VoteResponse =
  vr_NodeId :: int
  vr_CurrentTerm :: int
  vr_Granted :: bool

record 'd LogRequestArgs =
  LeaderId :: int
  lr_Term :: int
  PrefixLen :: int
  PrefixTerm :: int
  CommitLength :: int
  Suffix :: "'d pb_LogEntry list"

record LogResponse =
  lr_NodeId :: int
  lr_CurrentTerm :: int
  Ack :: int
  lr_Success :: bool

record InstallSnapshotRequest =
  is_LeaderTerm :: int
  is_LeaderId :: int
  LastIncludedIndex :: int
  LastIncludedTerm :: int
  Offset :: int
  is_Data :: "byte list"
  Done :: bool

record ForwardResponse =
  fw_Success :: bool
  fw_Value :: int

text \<open>Enum names: \<open>Message_Type_name\<close>, and the decimal number for an unknown value.\<close>

definition Message_Type_name :: "int \<rightharpoonup> string" where
  "Message_Type_name = [0 \<mapsto> ''GET'', 1 \<mapsto> ''PUT'', 2 \<mapsto> ''DELETE'', 3 \<mapsto> ''COMMAND'']"

definition Message_Type_String :: "int \<Rightarrow> string" where
  "Message_Type_String x = (case Message_Type_name x of Some s \<Rightarrow> s | None \<Rightarrow> itoa x)"

text \<open>\<open>toProtoMsgType\<close> panics on a type it does not know.\<close>

definition toProtoMsgType :: "MessageType \<Rightarrow> int option" where
  "toProtoMsgType m =
     (if m = GetMsg then Some 0
      else if m = PutMsg then Some 1
      else if m = DeleteMsg then Some 2
      else if m = CommandMsg then Some 3
      else None)"

lemma toProtoMsgType_String: "toProtoMsgType m = Some t \<Longrightarrow> Message_Type_String t = m"
  by (auto simp: toProtoMsgType_def Message_Type_String_def Message_Type_name_def msg_type_defs
      split: if_splits)

definition to_pb_message :: "'d Message \<Rightarrow> 'd pb_Message option" where
  "to_pb_message m = do {
     t \<leftarrow> toProtoMsgType (MsgType m);
     Some \<lparr>pb_Type = t, pb_Key = int32 (Key m), pb_Value = map_option int32 (Value m),
           pb_CommandPayload = Data m, pb_IdempotencyToken = IdempotencyToken m, pb_ClientId = ClientID m\<rparr>
   }"

definition from_pb_message :: "'d pb_Message \<Rightarrow> 'd Message" where
  "from_pb_message m =
     \<lparr>MsgType = Message_Type_String (pb_Type m), Key = pb_Key m, Value = pb_Value m,
      Data = pb_CommandPayload m, ResponseChan = None, IdempotencyToken = pb_IdempotencyToken m,
      ClientID = pb_ClientId m\<rparr>"

definition to_pb_entry :: "'d LogEntry \<Rightarrow> 'd pb_LogEntry option" where
  "to_pb_entry e = do {
     m \<leftarrow> to_pb_message (Msg e);
     Some \<lparr>pb_Term = int32 (Term e), pb_Msg = Some m\<rparr>
   }"

definition from_pb_entry :: "'d pb_LogEntry \<Rightarrow> 'd LogEntry option" where
  "from_pb_entry e = do {
     m \<leftarrow> pb_Msg e;
     Some \<lparr>Term = pb_Term e, Msg = from_pb_message m\<rparr>
   }"

text \<open>
  What survives the wire: known type, numbers in \<open>int32\<close>; the response channel stays behind.
\<close>

definition wire_ok :: "'d LogEntry \<Rightarrow> bool" where
  "wire_ok e \<longleftrightarrow> MsgType (Msg e) \<in> {GetMsg, PutMsg, DeleteMsg, CommandMsg} \<and> in_int32 (Term e) \<and>
     in_int32 (Key (Msg e)) \<and> (\<forall>v. Value (Msg e) = Some v \<longrightarrow> in_int32 v)"

definition strip_chan :: "'d LogEntry \<Rightarrow> 'd LogEntry" where
  "strip_chan e = e\<lparr>Msg := (Msg e)\<lparr>ResponseChan := None\<rparr>\<rparr>"

lemma strip_chan_simps [simp]:
  "Term (strip_chan e) = Term e" "strip_chan (strip_chan e) = strip_chan e"
  by (simp_all add: strip_chan_def)

lemma to_pb_entry_wire_ok: "wire_ok e \<Longrightarrow> \<exists>p. to_pb_entry e = Some p"
  by (auto simp: wire_ok_def to_pb_entry_def to_pb_message_def toProtoMsgType_def msg_type_defs)

lemma pb_entry_roundtrip:
  assumes "wire_ok e" and "to_pb_entry e = Some p"
  shows "from_pb_entry p = Some (strip_chan e)"
proof -
  from assms(2) obtain t where t: "toProtoMsgType (MsgType (Msg e)) = Some t"
    and p: "p = \<lparr>pb_Term = int32 (Term e), pb_Msg = Some \<lparr>pb_Type = t, pb_Key = int32 (Key (Msg e)),
      pb_Value = map_option int32 (Value (Msg e)), pb_CommandPayload = Data (Msg e),
      pb_IdempotencyToken = IdempotencyToken (Msg e), pb_ClientId = ClientID (Msg e)\<rparr>\<rparr>"
    by (auto simp: to_pb_entry_def to_pb_message_def split: bind_splits)
  have v: "map_option int32 (Value (Msg e)) = Value (Msg e)"
    using assms(1) by (cases "Value (Msg e)") (auto simp: wire_ok_def)
  show ?thesis
    using assms(1) toProtoMsgType_String [OF t]
    by (simp add: p v wire_ok_def from_pb_entry_def from_pb_message_def strip_chan_def)
qed

text \<open>Whole lists of entries, as the replicator sends and the follower reads them.\<close>

fun mapM :: "('x \<Rightarrow> 'y option) \<Rightarrow> 'x list \<Rightarrow> 'y list option" where
  "mapM f [] = Some []"
| "mapM f (x # xs) = do { y \<leftarrow> f x; ys \<leftarrow> mapM f xs; Some (y # ys) }"

lemma mapM_length: "mapM f xs = Some ys \<Longrightarrow> length ys = length xs"
  by (induction xs arbitrary: ys) (auto split: bind_splits)

lemma mapM_wire:
  "\<forall>e \<in> set es. wire_ok e \<Longrightarrow> \<exists>ps. mapM to_pb_entry es = Some ps \<and> mapM from_pb_entry ps = Some (map strip_chan es)"
proof (induction es)
  case Nil
  show ?case by simp
next
  case (Cons e es)
  from Cons.prems obtain p where p: "to_pb_entry e = Some p" "from_pb_entry p = Some (strip_chan e)"
    using to_pb_entry_wire_ok [of e] pb_entry_roundtrip [of e] by auto
  from Cons obtain ps where "mapM to_pb_entry es = Some ps" "mapM from_pb_entry ps = Some (map strip_chan es)"
    by auto
  with p show ?case by simp
qed

section \<open>The application interface\<close>

record ('d, 'a) Application =
  AppendMessage :: "'a \<Rightarrow> 'd Message \<Rightarrow> 'a \<times> bool \<times> int"
  GetSnapshot :: "'a \<Rightarrow> string + byte list"
  RestoreFromSnapshot :: "'a \<Rightarrow> byte list \<Rightarrow> 'a \<times> string option \<times> int"
  GetValue :: "'a \<Rightarrow> int \<Rightarrow> int"

section \<open>The node\<close>

record Replicator =
  followerId :: int
  signalCh :: bool
  stopped :: bool
  consecutiveFailures :: int
  maxConsecutiveFailures :: int

record Snapshot =
  lastIndex :: int
  lastTerm :: int
  snapshotThreshold :: int
  installingSnapshot :: bool

text \<open>
  The data saver with the files it owns: the log file is the sequence of streams that its
  encoders wrote, the metadata file one record, the snapshot file bytes.
\<close>

record 'd DataSaver =
  previousSavedIndex :: int
  saveQueue :: nat
  pendingSaves :: int
  lastSaveErr :: "string option"
  logsFile :: "'d LogEntry list list option"
  metadataFile :: "(int \<times> int \<times> int) option"
  snapshotFile :: "byte list option"

record ('d, 'a) Raft =
  raft_id :: int
  totalNodes :: int
  currentTerm :: int
  votedFor :: int
  raft_log :: "'d LogEntry list"
  commitedLength :: int
  currentRole :: Role
  currentLeaderId :: int
  votesReceived :: "int set"
  sentLengths :: "int list"
  ackedLengths :: "int list"
  application :: 'a
  logSaver :: "'d DataSaver"
  snapshotter :: Snapshot
  replicators :: "Replicator option list option"
  resetTimerCh :: bool
  chans :: "nat \<rightharpoonup> BroadcastResponse"

abbreviation snap_index :: "('d, 'a) Raft \<Rightarrow> int" where
  "snap_index r \<equiv> lastIndex (snapshotter r)"

text \<open>The length of the log counted from the start of time: \<open>len(r.log) + r.snapshotter.lastIndex\<close>.\<close>

abbreviation abs_len :: "('d, 'a) Raft \<Rightarrow> int" where
  "abs_len r \<equiv> go_len (raft_log r) + snap_index r"

end
