(* ===== verification/Raft_Node.thy ===== *)
theory Raft_Node
  imports Raft_Types
begin

text \<open>
  A Raft node outside log replication: construction, the helpers of \<open>utils.go\<close>, elections
  (\<open>election.go\<close>, \<open>VoteRequest\<close> of \<open>grpc.go\<close>, \<open>receiveVote\<close> of \<open>raft.go\<close>), heartbeats, the
  quorum check, and the entry points for clients (\<open>Broadcast\<close>, \<open>Forward\<close>, \<open>ForwardGet\<close>).

  A handler that holds the node's mutex is one function from the node's state to the new
  state and the reply. \<^term>\<open>None\<close> is a panic. Logging is left out, and so is the
  time stamp \<open>lastHeartbeatSuccess\<close>, which nothing reads. A task started with \<open>go\<close> that only
  enqueues a save takes effect at once.
\<close>

named_theorems raft_defs \<open>definitions of the node's handlers\<close>

section \<open>Small operations\<close>

definition ResetTimer :: "('d, 'a) Raft \<Rightarrow> ('d, 'a) Raft" where
  [raft_defs]: "ResetTimer r = r\<lparr>resetTimerCh := True\<rparr>"

text \<open>The save queue holds 1024 requests; a request that finds it full is dropped.\<close>

definition SaveValues :: "'d DataSaver \<Rightarrow> 'd DataSaver \<times> bool" where
  "SaveValues rds =
     (if saveQueue rds < 1024
      then (rds\<lparr>pendingSaves := pendingSaves rds + 1, saveQueue := saveQueue rds + 1\<rparr>, True)
      else (rds, False))"

definition request_save :: "('d, 'a) Raft \<Rightarrow> ('d, 'a) Raft" where
  "request_save r = r\<lparr>logSaver := fst (SaveValues (logSaver r))\<rparr>"

definition getLastLogTerm :: "('d, 'a) Raft \<Rightarrow> int" where
  "getLastLogTerm r =
     (if raft_log r \<noteq> [] then Term (last (raft_log r))
      else if snap_index r > 0 then lastTerm (snapshotter r)
      else 0)"

definition getLeaderData :: "('d, 'a) Raft \<Rightarrow> bool \<times> int" where
  "getLeaderData r = (currentRole r = Leader, currentLeaderId r)"

definition IsLeader :: "('d, 'a) Raft \<Rightarrow> bool" where
  "IsLeader r \<longleftrightarrow> currentRole r = Leader"

text \<open>
  \<open>getPeer\<close> over the connection manager, whose answer is the argument \<open>peers\<close>: whether there
  is a client for a node.
\<close>

definition getPeer :: "(int \<Rightarrow> bool) \<Rightarrow> int \<Rightarrow> bool" where
  "getPeer peers i \<longleftrightarrow> i \<noteq> -1 \<and> peers i"

text \<open>\<open>int(math.Ceil(float64(totalNodes+1) / 2))\<close>: the ceiling, as the negated floor of the negation.\<close>

definition majority :: "int \<Rightarrow> int" where
  "majority n = - ((- (n + 1)) div 2)"

lemma majority_eq: "majority n = n div 2 + 1"
  unfolding majority_def by presburger

section \<open>Construction\<close>

definition newSnapshotter :: "int \<Rightarrow> Snapshot" where
  "newSnapshotter threshold =
     \<lparr>lastIndex = 0, lastTerm = 0, snapshotThreshold = threshold, installingSnapshot = False\<rparr>"

definition NewReplicator :: "int \<Rightarrow> Replicator" where
  "NewReplicator i =
     \<lparr>followerId = i, signalCh = False, stopped = False, consecutiveFailures = 0,
      maxConsecutiveFailures = 5\<rparr>"

definition signal :: "Replicator \<Rightarrow> Replicator" where
  "signal rep = rep\<lparr>signalCh := True\<rparr>"

definition NewRaftDataSaver :: "'d LogEntry list list option \<Rightarrow> (int \<times> int \<times> int) option \<Rightarrow>
    byte list option \<Rightarrow> 'd DataSaver" where
  "NewRaftDataSaver logs meta snap =
     \<lparr>previousSavedIndex = 0, saveQueue = 0, pendingSaves = 0, lastSaveErr = None,
      logsFile = logs, metadataFile = meta, snapshotFile = snap\<rparr>"

text \<open>The literal with which \<open>NewRaft\<close> starts, before it looks at the disk.\<close>

definition initial_raft :: "'a \<Rightarrow> int \<Rightarrow> int \<Rightarrow> int \<Rightarrow> 'd DataSaver \<Rightarrow> ('d, 'a) Raft" where
  "initial_raft app raftId n threshold saver =
     \<lparr>raft_id = raftId, totalNodes = n, currentTerm = 0, votedFor = -1, raft_log = [],
      commitedLength = 0, currentRole = Follower, currentLeaderId = -1, votesReceived = {},
      sentLengths = replicate (nat n) 0, ackedLengths = replicate (nat n) 0,
      application = app, logSaver = saver, snapshotter = newSnapshotter threshold,
      replicators = None, resetTimerCh = False, chans = Map.empty\<rparr>"

section \<open>Role changes\<close>

definition becomeFollowerUnlocked :: "int \<Rightarrow> ('d, 'a) Raft \<Rightarrow> ('d, 'a) Raft" where
  [raft_defs]: "becomeFollowerUnlocked term r = ResetTimer
     (r\<lparr>currentRole := Follower, currentTerm := term, votedFor := -1, currentLeaderId := -1,
        replicators := None\<rparr>)"

fun leader_loop :: "int list \<Rightarrow> ('d, 'a) Raft \<Rightarrow> ('d, 'a) Raft option" where
  "leader_loop [] r = Some r"
| "leader_loop (f # fs) r =
     (if f = raft_id r then leader_loop fs r
      else do {
        sent \<leftarrow> go_store (sentLengths r) f (abs_len r + 1);
        acked \<leftarrow> go_store (ackedLengths r) f 0;
        reps \<leftarrow> replicators r;
        reps' \<leftarrow> go_store reps f (Some (NewReplicator f));
        leader_loop fs (r\<lparr>sentLengths := sent, ackedLengths := acked, replicators := Some reps'\<rparr>)
      })"

definition becomeLeader :: "('d, 'a) Raft \<Rightarrow> ('d, 'a) Raft option" where
  "becomeLeader r = leader_loop [0..totalNodes r - 1]
     (r\<lparr>currentRole := Leader, currentLeaderId := raft_id r,
        replicators := Some (replicate (nat (totalNodes r)) None)\<rparr>)"

text \<open>Counting the replicators that have failed fewer times in a row than allowed.\<close>

fun count_healthy :: "int \<Rightarrow> int \<Rightarrow> Replicator option list \<Rightarrow> int" where
  "count_healthy self i [] = 0"
| "count_healthy self i (rep # reps) =
     (case rep of
        None \<Rightarrow> 0
      | Some p \<Rightarrow> if i = self then 0
                 else if consecutiveFailures p \<ge> maxConsecutiveFailures p then 0 else 1)
     + count_healthy self (i + 1) reps"

definition checkQuorumHealth :: "('d, 'a) Raft \<Rightarrow> ('d, 'a) Raft" where
  [raft_defs]: "checkQuorumHealth r =
     (if currentRole r \<noteq> Leader then r
      else
        let healthyFollowers = count_healthy (raft_id r) 0 (case replicators r of None \<Rightarrow> [] | Some reps \<Rightarrow> reps);
            requiredHealthyFollowers = majority (totalNodes r) - 1
        in if healthyFollowers < requiredHealthyFollowers then becomeFollowerUnlocked (currentTerm r) r else r)"

section \<open>Elections\<close>

text \<open>
  \<open>startElection\<close> returns the vote data and the nodes it asks; \<open>sendVoteRequest\<close> narrows the
  data for the wire, for the peers that are available.
\<close>

definition startElection :: "('d, 'a) Raft \<Rightarrow> ('d, 'a) Raft \<times> VoteRequestData \<times> int list" where
  [raft_defs]: "startElection r =
     (let r = ResetTimer r;
          r = r\<lparr>currentRole := Candidate, currentTerm := currentTerm r + 1, votedFor := raft_id r,
                votesReceived := {raft_id r}, currentLeaderId := -1\<rparr>;
          logTerm = getLastLogTerm r;
          voteData = \<lparr>vd_candidateId = raft_id r, vd_candidateTerm = currentTerm r,
                      vd_candidateLogLength = abs_len r, vd_candidateLogTerm = logTerm\<rparr>
      in (r, voteData, filter (\<lambda>i. i \<noteq> raft_id r) [0..totalNodes r - 1]))"

definition sendVoteRequest :: "(int \<Rightarrow> bool) \<Rightarrow> (int \<Rightarrow> bool) \<Rightarrow> VoteRequestData \<Rightarrow> int \<Rightarrow> VoteRequestArgs option" where
  "sendVoteRequest available peers voteData nodeId =
     (if \<not> available nodeId then None
      else if \<not> getPeer peers nodeId then None
      else Some \<lparr>CandidateId = int32 (vd_candidateId voteData),
                 CandidateTerm = int32 (vd_candidateTerm voteData),
                 CandidateLogLength = int32 (vd_candidateLogLength voteData),
                 CandidateLogTerm = int32 (vd_candidateLogTerm voteData)\<rparr>)"

text \<open>When the election timer fires: an election unless the node leads or installs a snapshot.\<close>

definition election_timeout :: "('d, 'a) Raft \<Rightarrow> ('d, 'a) Raft \<times> (VoteRequestData \<times> int list) option" where
  "election_timeout r =
     (if currentRole r \<noteq> Leader \<and> \<not> installingSnapshot (snapshotter r)
      then (case startElection r of (r', voteData, targets) \<Rightarrow> (r', Some (voteData, targets)))
      else (r, None))"

definition vote_log_ok :: "('d, 'a) Raft \<Rightarrow> int \<Rightarrow> int \<Rightarrow> bool" where
  "vote_log_ok r candidateLogTerm candidateLogLength \<longleftrightarrow>
     candidateLogTerm > getLastLogTerm r \<or>
     candidateLogTerm = getLastLogTerm r \<and> candidateLogLength \<ge> abs_len r"

definition VoteRequest :: "('d, 'a) Raft \<Rightarrow> VoteRequestArgs \<Rightarrow> ('d, 'a) Raft \<times> pb_VoteResponse" where
  "VoteRequest r0 args =
     (let fromLeader = (currentLeaderId r0 = CandidateId args);
          r1 = (if fromLeader
               then r0\<lparr>currentRole := Follower, votedFor := -1, currentLeaderId := -1\<rparr> else r0);
          newer = (CandidateTerm args > currentTerm r1);
          r2 = (if newer
               then ResetTimer (r1\<lparr>currentTerm := CandidateTerm args, currentRole := Follower, votedFor := -1\<rparr>)
               else r1);
          logOk = vote_log_ok r2 (CandidateLogTerm args) (CandidateLogLength args)
      in if CandidateTerm args = currentTerm r2 \<and> logOk \<and>
            (votedFor r2 = -1 \<or> votedFor r2 = CandidateId args)
         then (request_save (ResetTimer (r2\<lparr>votedFor := CandidateId args, currentRole := Follower,
                                              currentLeaderId := -1\<rparr>)),
               \<lparr>vr_NodeId = int32 (raft_id r2), vr_CurrentTerm = int32 (currentTerm r2), vr_Granted = True\<rparr>)
         else (if fromLeader \<or> newer then request_save r2 else r2,
               \<lparr>vr_NodeId = int32 (raft_id r2), vr_CurrentTerm = int32 (currentTerm r2), vr_Granted = False\<rparr>))"

definition receiveVote :: "('d, 'a) Raft \<Rightarrow> VoteResponse \<Rightarrow> ('d, 'a) Raft option" where
  "receiveVote r vote =
     (if currentTerm r < v_currentTerm vote
      then Some (ResetTimer (r\<lparr>currentTerm := v_currentTerm vote, currentRole := Follower\<rparr>))
      else if v_granted vote \<and> currentTerm r = v_currentTerm vote \<and> currentRole r = Candidate
      then
        let r' = r\<lparr>votesReceived := insert (v_nodeId vote) (votesReceived r)\<rparr>
        in if int (card (votesReceived r')) \<ge> majority (totalNodes r') then becomeLeader r' else Some r'
      else Some r)"

section \<open>Heartbeats\<close>

definition receiveHeartbeat :: "('d, 'a) Raft \<Rightarrow> ('d, 'a) Raft" where
  "receiveHeartbeat r = ResetTimer r"

text \<open>The nodes that \<open>sendHeartbeat\<close> sends a heartbeat to.\<close>

definition heartbeat_targets :: "(int \<Rightarrow> bool) \<Rightarrow> ('d, 'a) Raft \<Rightarrow> int list" where
  "heartbeat_targets peers r =
     filter (\<lambda>i. i \<noteq> raft_id r \<and> getPeer peers i) [0..totalNodes r - 1]"

section \<open>Client entry points\<close>

datatype broadcast_action = Appended | NoLeaderKnown | ForwardedTo int

text \<open>Signalling the replicators of all other nodes.\<close>

fun signal_all :: "int \<Rightarrow> int \<Rightarrow> Replicator option list \<Rightarrow> Replicator option list" where
  "signal_all self i [] = []"
| "signal_all self i (rep # reps) =
     (if i = self then rep else map_option signal rep) # signal_all self (i + 1) reps"

definition respond :: "nat option \<Rightarrow> BroadcastResponse \<Rightarrow> ('d, 'a) Raft \<Rightarrow> ('d, 'a) Raft" where
  "respond ch resp r =
     (case ch of
        None \<Rightarrow> r
      | Some c \<Rightarrow> (case chans r c of
                    None \<Rightarrow> r\<lparr>chans := (chans r)(c \<mapsto> resp)\<rparr>
                  | Some _ \<Rightarrow> r))"

text \<open>
  \<open>Broadcast\<close> looks at the role first, under the read lock, and then appends under the write
  lock: two steps, between which other handlers may run.
\<close>

definition broadcast_append :: "('d, 'a) Raft \<Rightarrow> 'd Message \<Rightarrow> ('d, 'a) Raft option" where
  "broadcast_append r message = do {
     let r = r\<lparr>raft_log := raft_log r @ [\<lparr>Term = currentTerm r, Msg = message\<rparr>]\<rparr>;
     acked \<leftarrow> go_store (ackedLengths r) (raft_id r) (abs_len r);
     let r = request_save (r\<lparr>ackedLengths := acked\<rparr>);
     Some (r\<lparr>replicators := map_option (signal_all (raft_id r) 0) (replicators r)\<rparr>)
   }"

definition Broadcast :: "(int \<Rightarrow> bool) \<Rightarrow> ('d, 'a) Raft \<Rightarrow> 'd Message \<Rightarrow> (('d, 'a) Raft \<times> broadcast_action) option" where
  "Broadcast peers r message =
     (case getLeaderData r of (isLeader, leaderID) \<Rightarrow>
        if \<not> isLeader then
          (if \<not> getPeer peers leaderID
           then Some (respond (ResponseChan message)
                  \<lparr>br_Success = False, br_Value = 0, br_Error = Some ''no leader known''\<rparr> r, NoLeaderKnown)
           else Some (r, ForwardedTo leaderID))
        else map_option (\<lambda>r. (r, Appended)) (broadcast_append r message))"

text \<open>
  \<open>forwardToLeader\<close> tries twice. \<open>rpc n msg\<close> is the outcome of attempt \<open>n\<close>, \<^term>\<open>None\<close> when the
  call fails.
\<close>

definition forwardToLeader :: "'d Message \<Rightarrow> (nat \<Rightarrow> 'd pb_Message \<Rightarrow> ForwardResponse option) \<Rightarrow>
    (bool \<times> int \<times> bool) option" where
  "forwardToLeader message rpc = do {
     msg \<leftarrow> to_pb_message message;
     Some (case rpc 0 msg of
             Some resp \<Rightarrow> (fw_Success resp, fw_Value resp, True)
           | None \<Rightarrow> (case rpc 1 msg of
                        Some resp \<Rightarrow> (fw_Success resp, fw_Value resp, True)
                      | None \<Rightarrow> (False, 0, False)))
   }"

text \<open>
  \<open>BroadcastSync\<close> attaches a new channel \<open>c\<close> and broadcasts; when it stops waiting, it returns
  what is in the channel, or the timeout error.
\<close>

definition BroadcastSync_start :: "(int \<Rightarrow> bool) \<Rightarrow> nat \<Rightarrow> ('d, 'a) Raft \<Rightarrow> 'd Message \<Rightarrow>
    (('d, 'a) Raft \<times> broadcast_action) option" where
  "BroadcastSync_start peers c r message = Broadcast peers r (message\<lparr>ResponseChan := Some c\<rparr>)"

definition BroadcastSync_finish :: "nat \<Rightarrow> ('d, 'a) Raft \<Rightarrow> bool \<times> int \<times> string option" where
  "BroadcastSync_finish c r =
     (case chans r c of
        Some resp \<Rightarrow> (br_Success resp, br_Value resp, br_Error resp)
      | None \<Rightarrow> (False, 0, Some ''timeout waiting for response''))"

datatype 'd forward_action = ForwardError string | ForwardPeer int | ForwardLocal "'d Message"

text \<open>\<open>hop\<close> says whether the call was already forwarded once.\<close>

definition Forward :: "(int \<Rightarrow> bool) \<Rightarrow> bool \<Rightarrow> ('d, 'a) Raft \<Rightarrow> 'd pb_Message \<Rightarrow>
    ('d, 'a) Raft \<times> 'd forward_action" where
  "Forward peers hop r msg =
     (case getLeaderData r of (isLeader, leaderID) \<Rightarrow>
        if \<not> isLeader then
          (if leaderID < 0 then (r, ForwardError ''no leader known'')
           else if leaderID = raft_id r then
             (if currentRole r \<noteq> Leader \<and> currentLeaderId r = raft_id r then r\<lparr>currentLeaderId := -1\<rparr> else r,
              ForwardError ''no leader known'')
           else if hop then (r, ForwardError ''redirect loop detected'')
           else if \<not> getPeer peers leaderID then (r, ForwardError ''no peer for node'')
           else (r, ForwardPeer leaderID))
        else (r, ForwardLocal (from_pb_message msg)))"

datatype forward_get_action = GetError string | GetPeer int | GetLocal int

definition ForwardGet :: "('d, 'a) Application \<Rightarrow> (int \<Rightarrow> bool) \<Rightarrow> bool \<Rightarrow> ('d, 'a) Raft \<Rightarrow> int \<Rightarrow> forward_get_action" where
  "ForwardGet ops peers hop r key =
     (case getLeaderData r of (isLeader, leaderID) \<Rightarrow>
        if \<not> isLeader then
          (if leaderID < 0 then GetError ''no leader known''
           else if hop then GetError ''redirect loop detected''
           else if \<not> getPeer peers leaderID then GetError ''no peer for leader''
           else GetPeer leaderID)
        else GetLocal (int32 (GetValue ops (application r) key)))"

end
