(* ===== verification/Raft_Log.thy ===== *)
theory Raft_Log
  imports Raft_Node
begin

text \<open>
  Log replication: the follower's side (\<open>LogRequest\<close>, \<open>appendEntries\<close>), the leader's side
  (\<open>prepareLogRequestArgs\<close>, the reply in \<open>replicate\<close>, \<open>commitLogEntries\<close>), delivery to the
  application, and the log compaction that \<open>appendEntries\<close> ends with (\<open>decideRunSnapshot\<close>).

  An entry's position in the whole log is its index in \<open>raft_log\<close> plus the number of entries the
  snapshot covers (\<open>snap_index\<close>).
\<close>

section \<open>Delivery\<close>

definition deliverToApplication :: "('d, 'a) Application \<Rightarrow> ('d, 'a) Raft \<Rightarrow> 'd Message \<Rightarrow> ('d, 'a) Raft" where
  "deliverToApplication ops r message =
     (case AppendMessage ops (application r) message of (app, success, val) \<Rightarrow>
        respond (ResponseChan message) \<lparr>br_Success = success, br_Value = val, br_Error = None\<rparr>
          (r\<lparr>application := app\<rparr>))"

text \<open>Delivering \<open>n\<close> entries from position \<open>i\<close> on.\<close>

fun deliver_from :: "('d, 'a) Application \<Rightarrow> nat \<Rightarrow> int \<Rightarrow> ('d, 'a) Raft \<Rightarrow> ('d, 'a) Raft option" where
  "deliver_from ops 0 i r = Some r"
| "deliver_from ops (Suc n) i r = do {
     e \<leftarrow> go_index (raft_log r) (i - snap_index r);
     deliver_from ops n (i + 1) (deliverToApplication ops r (Msg e))
   }"

section \<open>The snapshot file\<close>

definition write_at :: "byte list \<Rightarrow> nat \<Rightarrow> byte list \<Rightarrow> byte list" where
  "write_at file off data =
     take off (file @ replicate (off - length file) 0) @ data @ drop (off + length data) file"

definition WriteSnapshotData :: "byte list \<Rightarrow> int \<Rightarrow> 'd DataSaver \<Rightarrow> 'd DataSaver \<times> (string + int)" where
  "WriteSnapshotData data offset rds =
     (if offset = 0 then (rds\<lparr>snapshotFile := Some (write_at [] 0 data)\<rparr>, Inr (go_len data))
      else (case snapshotFile rds of
              None \<Rightarrow> (rds, Inl ''Opening snapshot file failed'')
            | Some file \<Rightarrow>
                if offset < 0 then (rds, Inl ''Writing snapshot failed'')
                else (rds\<lparr>snapshotFile := Some (write_at file (nat offset) data)\<rparr>, Inr (go_len data))))"

definition decideRunSnapshot :: "('d, 'a) Application \<Rightarrow> ('d, 'a) Raft \<Rightarrow> (('d, 'a) Raft \<times> string option) option" where
  "decideRunSnapshot ops r =
     (if go_len (raft_log r) < snapshotThreshold (snapshotter r) then Some (r, None)
      else
        let comittedCount = commitedLength r - snap_index r
        in if comittedCount \<le> 0 then Some (r, None)
           else
             let relIdx = comittedCount - 1;
                 last_term = (if relIdx \<ge> 0 \<and> relIdx < go_len (raft_log r)
                              then Term (raft_log r ! nat relIdx) else lastTerm (snapshotter r))
             in (case GetSnapshot ops (application r) of
                   Inl err \<Rightarrow> Some (r, Some err)
                 | Inr snpsht \<Rightarrow>
                     (case WriteSnapshotData snpsht 0 (logSaver r) of
                        (rds, Inl err) \<Rightarrow> Some (r\<lparr>logSaver := rds\<rparr>, Some err)
                      | (rds, Inr _) \<Rightarrow> do {
                          rest \<leftarrow> go_slice_from (raft_log r) comittedCount;
                          Some (r\<lparr>logSaver := rds, raft_log := rest,
                                  snapshotter := (snapshotter r)\<lparr>lastIndex := commitedLength r,
                                                                 lastTerm := last_term\<rparr>\<rparr>, None)
                        })))"

section \<open>The follower\<close>

text \<open>
  The log part of \<open>appendEntries\<close>: the conflict check looks at the first entry of the suffix
  only, and the length used for appending is the one from before the cut.
\<close>

definition cut_conflict :: "int \<Rightarrow> int \<Rightarrow> 'd LogEntry list \<Rightarrow> 'd LogEntry list \<Rightarrow> 'd LogEntry list option" where
  "cut_conflict li prefixLen suffix lg =
     (let absoluteLogLength = go_len lg + li
      in if go_len suffix > 0 \<and> absoluteLogLength > prefixLen then
           let relativeCheckIndex = prefixLen - li
           in if relativeCheckIndex \<ge> 0 \<and> relativeCheckIndex < go_len lg then do {
                mine \<leftarrow> go_index lg relativeCheckIndex;
                theirs \<leftarrow> go_index suffix 0;
                if Term mine \<noteq> Term theirs then go_slice_to lg relativeCheckIndex else Some lg
              }
              else Some lg
         else Some lg)"

definition append_log :: "int \<Rightarrow> int \<Rightarrow> 'd LogEntry list \<Rightarrow> 'd LogEntry list \<Rightarrow> 'd LogEntry list option" where
  "append_log li prefixLen suffix lg =
     (let absoluteLogLength = go_len lg + li
      in do {
           lg' \<leftarrow> cut_conflict li prefixLen suffix lg;
           if prefixLen + go_len suffix > absoluteLogLength then
             let startAppendingIndex = absoluteLogLength - prefixLen;
                 startAppendingIndex = (if startAppendingIndex < 0 then 0 else startAppendingIndex)
             in if startAppendingIndex < go_len suffix
                then map_option (\<lambda>rest. lg' @ rest) (go_slice_from suffix startAppendingIndex)
                else Some lg'
           else Some lg'
         })"

definition follower_commit :: "('d, 'a) Application \<Rightarrow> int \<Rightarrow> ('d, 'a) Raft \<Rightarrow> ('d, 'a) Raft option" where
  "follower_commit ops leaderCommit r =
     (if leaderCommit > commitedLength r then
        let maxCommit = abs_len r;
            leaderCommit = (if leaderCommit > maxCommit then maxCommit else leaderCommit)
        in do {
             r' \<leftarrow> deliver_from ops (nat (leaderCommit - commitedLength r)) (commitedLength r) r;
             Some (r'\<lparr>commitedLength := leaderCommit\<rparr>)
           }
      else Some r)"

definition appendEntries :: "('d, 'a) Application \<Rightarrow> ('d, 'a) Raft \<Rightarrow> int \<Rightarrow> int \<Rightarrow> 'd LogEntry list \<Rightarrow>
    ('d, 'a) Raft option" where
  "appendEntries ops r prefixLen leaderCommit suffix = do {
     lg \<leftarrow> append_log (snap_index r) prefixLen suffix (raft_log r);
     r \<leftarrow> follower_commit ops leaderCommit (r\<lparr>raft_log := lg\<rparr>);
     (r, _) \<leftarrow> decideRunSnapshot ops r;
     Some r
   }"

definition convertLogRequestArgs :: "'d LogRequestArgs \<Rightarrow> (int \<times> int \<times> int \<times> int \<times> int \<times> 'd LogEntry list) option" where
  "convertLogRequestArgs args = do {
     suffix \<leftarrow> mapM from_pb_entry (Suffix args);
     Some (LeaderId args, lr_Term args, PrefixLen args, PrefixTerm args, CommitLength args, suffix)
   }"

definition prefix_ok :: "('d, 'a) Raft \<Rightarrow> int \<Rightarrow> int \<Rightarrow> bool" where
  "prefix_ok r prevIndex prevTerm =
     (if prevIndex = 0 then prevTerm = 0
      else if prevIndex > abs_len r then False
      else if prevIndex = snap_index r then lastTerm (snapshotter r) = prevTerm
      else let rel = prevIndex - snap_index r - 1
           in if rel \<ge> 0 \<and> rel < go_len (raft_log r) then Term (raft_log r ! nat rel) = prevTerm else False)"

text \<open>The first locked section of \<open>LogRequest\<close>: terms, role, and whether the prefix matches.\<close>

definition accept_leader :: "('d, 'a) Raft \<Rightarrow> int \<Rightarrow> int \<Rightarrow> ('d, 'a) Raft" where
  "accept_leader r leaderId term =
     (let r = (if currentTerm r < term then ResetTimer (r\<lparr>currentTerm := term, votedFor := -1\<rparr>) else r)
      in if currentTerm r = term
         then r\<lparr>currentRole := Follower,
                currentLeaderId := (if raft_id r \<noteq> leaderId then leaderId else -1)\<rparr>
         else r)"

definition LogRequest :: "('d, 'a) Application \<Rightarrow> ('d, 'a) Raft \<Rightarrow> 'd LogRequestArgs \<Rightarrow>
    (('d, 'a) Raft \<times> LogResponse) option" where
  "LogRequest ops r args = do {
     (leaderId, term, prevIndex, prevTerm, commitLength, suffix) \<leftarrow> convertLogRequestArgs args;
     let r = accept_leader r leaderId term;
     if currentTerm r = term \<and> prefix_ok r prevIndex prevTerm then do {
       r \<leftarrow> appendEntries ops (ResetTimer r) prevIndex commitLength suffix;
       let r = request_save r;
       Some (r, \<lparr>lr_NodeId = int32 (raft_id r), lr_CurrentTerm = int32 (currentTerm r),
                 Ack = int32 (prevIndex + go_len suffix), lr_Success = True\<rparr>)
     }
     else Some (request_save r,
                \<lparr>lr_NodeId = int32 (raft_id r), lr_CurrentTerm = int32 (currentTerm r),
                 Ack = 0, lr_Success = False\<rparr>)
   }"

section \<open>The leader\<close>

text \<open>The next position to send to a follower; 0 means not yet known.\<close>

definition next_index :: "('d, 'a) Raft \<Rightarrow> int \<Rightarrow> int option" where
  "next_index r f = do {
     n \<leftarrow> go_index (sentLengths r) f;
     Some (if n = 0 then snap_index r + go_len (raft_log r) + 1 else n)
   }"

definition bare_args :: "('d, 'a) Raft \<Rightarrow> 'd LogRequestArgs" where
  "bare_args r = \<lparr>LeaderId = int32 (raft_id r), lr_Term = int32 (currentTerm r), PrefixLen = 0,
     PrefixTerm = 0, CommitLength = 0, Suffix = []\<rparr>"

text \<open>The second component says whether a snapshot transfer was started on the side.\<close>

definition prepareLogRequestArgs :: "('d, 'a) Raft \<Rightarrow> int \<Rightarrow> ('d LogRequestArgs \<times> bool) option" where
  "prepareLogRequestArgs r f = do {
     nextIndex \<leftarrow> next_index r f;
     if nextIndex \<le> snap_index r then Some (bare_args r, True)
     else
       let prevIndex = nextIndex - 1;
           rel = prevIndex - snap_index r - 1
       in if prevIndex \<noteq> 0 \<and> prevIndex \<noteq> snap_index r \<and> (rel < 0 \<or> rel \<ge> go_len (raft_log r))
          then Some (bare_args r, False)
          else do {
            let prevTerm = (if prevIndex = 0 then 0
                            else if prevIndex = snap_index r then lastTerm (snapshotter r)
                            else Term (raft_log r ! nat rel));
            let start = nextIndex - snap_index r - 1;
            let start = (if start < 0 then 0 else start);
            let start = (if start > go_len (raft_log r) then go_len (raft_log r) else start);
            suffix \<leftarrow> go_slice_from (raft_log r) start;
            pbSuffix \<leftarrow> mapM to_pb_entry suffix;
            Some (\<lparr>LeaderId = int32 (raft_id r), lr_Term = int32 (currentTerm r), PrefixLen = int32 prevIndex,
                   PrefixTerm = int32 prevTerm, CommitLength = int32 (commitedLength r), Suffix = pbSuffix\<rparr>, False)
          }
   }"

text \<open>
  What one round of a replicator does before it waits for an answer: \<open>PeerFailed\<close> counts a failure,
  \<open>SendSnapshot\<close> hands over to the snapshot transfer, \<open>SendLog\<close> sends the request.
\<close>

datatype 'd replicate_plan = PeerFailed | NotLeader | SendSnapshot | SendLog "'d LogRequestArgs" bool

definition replicate_start :: "(int \<Rightarrow> bool) \<Rightarrow> (int \<Rightarrow> bool) \<Rightarrow> int \<Rightarrow> ('d, 'a) Raft \<Rightarrow> 'd replicate_plan option" where
  "replicate_start available peers f r =
     (if \<not> available f then Some PeerFailed
      else do {
        nextIndex \<leftarrow> next_index r f;
        if currentRole r \<noteq> Leader then Some NotLeader
        else if nextIndex \<le> snap_index r then Some SendSnapshot
        else if \<not> getPeer peers f then Some PeerFailed
        else do {
          (args, snapshotToo) \<leftarrow> prepareLogRequestArgs r f;
          Some (SendLog args snapshotToo)
        }
      })"

fun count_acks :: "int list \<Rightarrow> int \<Rightarrow> int \<Rightarrow> int list \<Rightarrow> int option" where
  "count_acks acked self len [] = Some 1"
| "count_acks acked self len (j # js) =
     (if j = self then count_acks acked self len js
      else do {
        a \<leftarrow> go_index acked j;
        n \<leftarrow> count_acks acked self len js;
        Some (if a > len then n + 1 else n)
      })"

text \<open>The loop of \<open>commitLogEntries\<close>: the new committed length and the messages to apply.\<close>

function commit_loop :: "int \<Rightarrow> int \<Rightarrow> int list \<Rightarrow> int \<Rightarrow> 'd LogEntry list \<Rightarrow> int \<Rightarrow> 'd Message list \<Rightarrow>
    (int \<times> 'd Message list) option" where
  "commit_loop self n acked li lg committed msgs =
     (if committed < li + go_len lg then
        (case count_acks acked self committed [0..n - 1] of
           None \<Rightarrow> None
         | Some acks \<Rightarrow>
             if acks \<ge> majority n then
               (case go_index lg (committed - li) of
                  None \<Rightarrow> None
                | Some e \<Rightarrow> commit_loop self n acked li lg (committed + 1) (msgs @ [Msg e]))
             else Some (committed, msgs))
      else Some (committed, msgs))"
  by pat_completeness auto
termination
  by (relation "measure (\<lambda>(self, n, acked, li, lg, committed, msgs). nat (li + go_len lg - committed))") auto

declare commit_loop.simps [simp del]

text \<open>
  \<open>commitLogEntries\<close> advances the committed length with the mutex held and then releases the
  mutex to deliver the messages: \<open>commit_locked\<close> is the locked part, and \<open>commitLogEntries\<close> the whole
  operation when no other handler runs in between.
\<close>

definition commit_locked :: "('d, 'a) Raft \<Rightarrow> (('d, 'a) Raft \<times> 'd Message list) option" where
  "commit_locked r = do {
     (committed, messagesToApply) \<leftarrow> commit_loop (raft_id r) (totalNodes r) (ackedLengths r) (snap_index r)
       (raft_log r) (commitedLength r) [];
     Some (r\<lparr>commitedLength := committed\<rparr>, messagesToApply)
   }"

definition commitLogEntries :: "('d, 'a) Application \<Rightarrow> ('d, 'a) Raft \<Rightarrow> ('d, 'a) Raft option" where
  "commitLogEntries ops r = do {
     (r, messagesToApply) \<leftarrow> commit_locked r;
     Some (foldl (deliverToApplication ops) r messagesToApply)
   }"

text \<open>
  The replicator's failure counter, in the node's table of replicators.
\<close>

definition on_replicator :: "(Replicator \<Rightarrow> Replicator) \<Rightarrow> int \<Rightarrow> ('d, 'a) Raft \<Rightarrow> ('d, 'a) Raft" where
  "on_replicator g f r =
     r\<lparr>replicators := map_option (\<lambda>reps. if 0 \<le> f \<and> f < go_len reps
                                        then reps[nat f := map_option g (reps ! nat f)] else reps)
                       (replicators r)\<rparr>"

definition replicate_failed :: "int \<Rightarrow> ('d, 'a) Raft \<Rightarrow> ('d, 'a) Raft" where
  "replicate_failed f r = checkQuorumHealth
     (on_replicator (\<lambda>p. p\<lparr>consecutiveFailures := consecutiveFailures p + 1\<rparr>) f r)"

definition replicate_response :: "('d, 'a) Application \<Rightarrow> int \<Rightarrow> LogResponse \<Rightarrow> ('d, 'a) Raft \<Rightarrow> ('d, 'a) Raft option" where
  "replicate_response ops f resp r =
     (let r = on_replicator (\<lambda>p. p\<lparr>consecutiveFailures := 0\<rparr>) f r
      in if lr_CurrentTerm resp > int32 (currentTerm r) then
           Some (becomeFollowerUnlocked (lr_CurrentTerm resp) r)
         else if currentRole r = Leader \<and> lr_CurrentTerm resp = currentTerm r then
           (if lr_Success resp then do {
              sent \<leftarrow> go_store (sentLengths r) f (Ack resp + 1);
              acked \<leftarrow> go_store (ackedLengths r) f (Ack resp);
              commitLogEntries ops (r\<lparr>sentLengths := sent, ackedLengths := acked\<rparr>)
            }
            else do {
              s \<leftarrow> go_index (sentLengths r) f;
              if s > snap_index r + 1
              then map_option (\<lambda>sent. r\<lparr>sentLengths := sent\<rparr>) (go_store (sentLengths r) f (s - 1))
              else Some r
            })
         else Some r)"

text \<open>\<open>logResponse\<close>, an older form of the same reply handling that nothing calls any more.\<close>

definition logResponse :: "('d, 'a) Application \<Rightarrow> ('d, 'a) Raft \<Rightarrow> int \<Rightarrow> int \<Rightarrow> int \<Rightarrow> bool \<Rightarrow> ('d, 'a) Raft option" where
  "logResponse ops r f term ack success =
     (let r = (if currentTerm r < term
               then ResetTimer (r\<lparr>currentTerm := term, currentRole := Follower, votedFor := -1\<rparr>) else r)
      in if currentTerm r = term \<and> currentRole r = Leader then do {
           a \<leftarrow> go_index (ackedLengths r) f;
           s \<leftarrow> go_index (sentLengths r) f;
           if success \<and> ack \<ge> a then do {
             acked \<leftarrow> go_store (ackedLengths r) f ack;
             sent \<leftarrow> go_store (sentLengths r) f (ack + 1);
             commitLogEntries ops (r\<lparr>ackedLengths := acked, sentLengths := sent\<rparr>)
           }
           else if s > snap_index r + 1 then
             map_option (\<lambda>sent. on_replicator signal f (r\<lparr>sentLengths := sent\<rparr>))
               (go_store (sentLengths r) f (s - 1))
           else Some r
         }
         else Some r)"

end
