(* ===== verification/Raft_Replication.thy ===== *)
theory Raft_Replication
  imports Raft_Log
begin

text \<open>
  What replication guarantees. Frame lemmas first: delivery touches the application and the
  response channels only. Then the log after \<open>appendEntries\<close> against the rule of the Raft paper,
  the commit rules of leader and follower, and the replicated state machine: the application is
  the replay of the committed prefix of the log.
\<close>

section \<open>Frames\<close>

lemma respond_frame [simp]:
  "raft_id (respond ch resp r) = raft_id r" "totalNodes (respond ch resp r) = totalNodes r"
  "currentTerm (respond ch resp r) = currentTerm r" "votedFor (respond ch resp r) = votedFor r"
  "raft_log (respond ch resp r) = raft_log r" "commitedLength (respond ch resp r) = commitedLength r"
  "currentRole (respond ch resp r) = currentRole r" "currentLeaderId (respond ch resp r) = currentLeaderId r"
  "votesReceived (respond ch resp r) = votesReceived r" "sentLengths (respond ch resp r) = sentLengths r"
  "ackedLengths (respond ch resp r) = ackedLengths r" "application (respond ch resp r) = application r"
  "logSaver (respond ch resp r) = logSaver r" "snapshotter (respond ch resp r) = snapshotter r"
  "replicators (respond ch resp r) = replicators r" "resetTimerCh (respond ch resp r) = resetTimerCh r"
  by (simp_all add: respond_def split: option.splits)

lemma deliver_frame [simp]:
  "raft_id (deliverToApplication ops r m) = raft_id r" "totalNodes (deliverToApplication ops r m) = totalNodes r"
  "currentTerm (deliverToApplication ops r m) = currentTerm r" "votedFor (deliverToApplication ops r m) = votedFor r"
  "raft_log (deliverToApplication ops r m) = raft_log r"
  "commitedLength (deliverToApplication ops r m) = commitedLength r"
  "currentRole (deliverToApplication ops r m) = currentRole r"
  "currentLeaderId (deliverToApplication ops r m) = currentLeaderId r"
  "votesReceived (deliverToApplication ops r m) = votesReceived r"
  "sentLengths (deliverToApplication ops r m) = sentLengths r"
  "ackedLengths (deliverToApplication ops r m) = ackedLengths r"
  "logSaver (deliverToApplication ops r m) = logSaver r" "snapshotter (deliverToApplication ops r m) = snapshotter r"
  "replicators (deliverToApplication ops r m) = replicators r"
  by (simp_all add: deliverToApplication_def split: prod.splits)

definition app_step :: "('d, 'a) Application \<Rightarrow> 'a \<Rightarrow> 'd Message \<Rightarrow> 'a" where
  "app_step ops a m = fst (AppendMessage ops a m)"

definition replay :: "('d, 'a) Application \<Rightarrow> 'a \<Rightarrow> 'd LogEntry list \<Rightarrow> 'a" where
  "replay ops a es = foldl (app_step ops) a (map Msg es)"

lemma replay_simps [simp]:
  "replay ops a [] = a" "replay ops a (es @ fs) = replay ops (replay ops a es) fs"
  "replay ops a (e # es) = replay ops (app_step ops a (Msg e)) es"
  by (simp_all add: replay_def)

lemma deliver_application [simp]:
  "application (deliverToApplication ops r m) = app_step ops (application r) m"
  by (simp add: deliverToApplication_def app_step_def split: prod.splits)

abbreviation deliver_all :: "('d, 'a) Application \<Rightarrow> ('d, 'a) Raft \<Rightarrow> 'd Message list \<Rightarrow> ('d, 'a) Raft" where
  "deliver_all ops r ms \<equiv> foldl (deliverToApplication ops) r ms"

lemma deliver_all_frame [simp]:
  "raft_id (deliver_all ops r ms) = raft_id r" "totalNodes (deliver_all ops r ms) = totalNodes r"
  "currentTerm (deliver_all ops r ms) = currentTerm r" "votedFor (deliver_all ops r ms) = votedFor r"
  "raft_log (deliver_all ops r ms) = raft_log r"
  "commitedLength (deliver_all ops r ms) = commitedLength r"
  "currentRole (deliver_all ops r ms) = currentRole r"
  "currentLeaderId (deliver_all ops r ms) = currentLeaderId r"
  "votesReceived (deliver_all ops r ms) = votesReceived r"
  "sentLengths (deliver_all ops r ms) = sentLengths r" "ackedLengths (deliver_all ops r ms) = ackedLengths r"
  "logSaver (deliver_all ops r ms) = logSaver r" "snapshotter (deliver_all ops r ms) = snapshotter r"
  "replicators (deliver_all ops r ms) = replicators r"
  by (induction ms arbitrary: r) simp_all

lemma deliver_all_application:
  "application (deliver_all ops r (map Msg es)) = replay ops (application r) es"
  by (induction es arbitrary: r) simp_all

lemma take_Suc_drop: "k < length xs \<Longrightarrow> take (Suc n) (drop k xs) = xs ! k # take n (drop (Suc k) xs)"
  by (simp add: Cons_nth_drop_Suc [symmetric])

lemma deliver_from_eq:
  assumes "0 \<le> i - snap_index r" and "i - snap_index r + int n \<le> go_len (raft_log r)"
  shows "deliver_from ops n i r =
    Some (deliver_all ops r (map Msg (take n (drop (nat (i - snap_index r)) (raft_log r)))))"
  using assms
proof (induction n arbitrary: i r)
  case 0
  then show ?case by simp
next
  case (Suc n)
  let ?k = "nat (i - snap_index r)"
  let ?r = "deliverToApplication ops r (Msg (raft_log r ! ?k))"
  have k: "nat (i + 1 - snap_index r) = Suc ?k" and lt: "?k < length (raft_log r)"
    using Suc.prems by (auto simp: go_len_def)
  have e: "go_index (raft_log r) (i - snap_index r) = Some (raft_log r ! ?k)"
    using Suc.prems by (simp add: go_simps)
  have "deliver_from ops n (i + 1) ?r =
      Some (deliver_all ops ?r (map Msg (take n (drop (nat (i + 1 - snap_index ?r)) (raft_log ?r)))))"
    using Suc.prems by (intro Suc.IH) auto
  then show ?case by (simp add: e k take_Suc_drop [OF lt])
qed

section \<open>Compaction\<close>

text \<open>
  Taking a snapshot drops a committed prefix of the log and nothing else: positions, the whole
  log and the application stay. It cannot panic when the committed length is within the log.
\<close>

definition compact_to :: "nat \<Rightarrow> 'd DataSaver \<Rightarrow> int \<Rightarrow> ('d, 'a) Raft \<Rightarrow> ('d, 'a) Raft" where
  "compact_to k rds t r = r\<lparr>logSaver := rds, raft_log := drop k (raft_log r),
     snapshotter := (snapshotter r)\<lparr>lastIndex := snap_index r + int k, lastTerm := t\<rparr>\<rparr>"

lemma compact_to_simps [simp]:
  "raft_id (compact_to k rds t r) = raft_id r" "totalNodes (compact_to k rds t r) = totalNodes r"
  "currentTerm (compact_to k rds t r) = currentTerm r" "votedFor (compact_to k rds t r) = votedFor r"
  "raft_log (compact_to k rds t r) = drop k (raft_log r)"
  "commitedLength (compact_to k rds t r) = commitedLength r"
  "currentRole (compact_to k rds t r) = currentRole r" "currentLeaderId (compact_to k rds t r) = currentLeaderId r"
  "votesReceived (compact_to k rds t r) = votesReceived r" "sentLengths (compact_to k rds t r) = sentLengths r"
  "ackedLengths (compact_to k rds t r) = ackedLengths r" "application (compact_to k rds t r) = application r"
  "snap_index (compact_to k rds t r) = snap_index r + int k"
  "replicators (compact_to k rds t r) = replicators r" "chans (compact_to k rds t r) = chans r"
  by (simp_all add: compact_to_def)

lemma decideRunSnapshot_eq:
  assumes "commitedLength r \<le> abs_len r"
  shows "\<exists>k rds t err. decideRunSnapshot ops r = Some (compact_to k rds t r, err) \<and>
    int k \<le> max 0 (commitedLength r - snap_index r) \<and>
    t = (if k = 0 then lastTerm (snapshotter r) else Term (raft_log r ! (k - 1)))"
proof (cases "go_len (raft_log r) < snapshotThreshold (snapshotter r) \<or> commitedLength r - snap_index r \<le> 0")
  case True
  then have "decideRunSnapshot ops r = Some (compact_to 0 (logSaver r) (lastTerm (snapshotter r)) r, None)"
    by (auto simp: decideRunSnapshot_def compact_to_def)
  then show ?thesis by force
next
  case False
  show ?thesis
  proof (cases "GetSnapshot ops (application r)")
    case (Inl err)
    with False have "decideRunSnapshot ops r =
        Some (compact_to 0 (logSaver r) (lastTerm (snapshotter r)) r, Some err)"
      by (simp add: decideRunSnapshot_def Let_def compact_to_def)
    then show ?thesis by force
  next
    case (Inr data)
    define k where "k = nat (commitedLength r - snap_index r)"
    have k: "commitedLength r - snap_index r = int k" "commitedLength r = snap_index r + int k"
      using False by (simp_all add: k_def)
    have s: "go_slice_from (raft_log r) (int k) = Some (drop k (raft_log r))"
      using assms k by (simp add: go_slice_from_def)
    have "decideRunSnapshot ops r = Some (compact_to k ((logSaver r)\<lparr>snapshotFile := Some (write_at [] 0 data)\<rparr>)
        (if int k - 1 \<ge> 0 \<and> int k - 1 < go_len (raft_log r) then Term (raft_log r ! nat (int k - 1))
         else lastTerm (snapshotter r)) r, None)"
      unfolding decideRunSnapshot_def Let_def k(1) compact_to_def
      using False k(1) by (simp add: Inr WriteSnapshotData_def s flip: k(2))
    moreover have kb: "int k - 1 < go_len (raft_log r)" "nat (int k - 1) = k - 1" "k > 0"
      using assms k False by (auto simp: go_len_def)
    ultimately have "decideRunSnapshot ops r = Some (compact_to k ((logSaver r)\<lparr>snapshotFile := Some (write_at [] 0 data)\<rparr>)
        (Term (raft_log r ! (k - 1))) r, None)" by simp
    then show ?thesis using k(1) kb(3) by (intro exI conjI) (assumption, simp_all)
  qed
qed
section \<open>The follower's log\<close>

definition first_conflict :: "int \<Rightarrow> int \<Rightarrow> 'd LogEntry list \<Rightarrow> 'd LogEntry list \<Rightarrow> bool" where
  "first_conflict li p suf lg \<longleftrightarrow> suf \<noteq> [] \<and> li \<le> p \<and> p - li < go_len lg \<and>
     Term (lg ! nat (p - li)) \<noteq> Term (hd suf)"

lemma cut_conflict_eq:
  "cut_conflict li p suf lg = Some (if first_conflict li p suf lg then take (nat (p - li)) lg else lg)"
proof (cases "suf \<noteq> [] \<and> li \<le> p \<and> p - li < go_len lg")
  case True
  then have "go_index lg (p - li) = Some (lg ! nat (p - li))" "go_index suf 0 = Some (hd suf)"
    "go_slice_to lg (p - li) = Some (take (nat (p - li)) lg)" "go_len suf > 0"
    by (auto simp: go_index_def go_slice_to_def go_len_def hd_conv_nth)
  with True show ?thesis by (simp add: cut_conflict_def first_conflict_def)
next
  case False
  then show ?thesis by (auto simp: cut_conflict_def first_conflict_def Let_def go_len_def)
qed

lemma append_log_eq:
  assumes "p \<le> go_len lg + li"
  shows "append_log li p suf lg = Some ((if first_conflict li p suf lg then take (nat (p - li)) lg else lg) @
    drop (nat (go_len lg + li - p)) suf)"
proof -
  have "p + go_len suf > go_len lg + li \<Longrightarrow>
      go_slice_from suf (go_len lg + li - p) = Some (drop (nat (go_len lg + li - p)) suf)"
    using assms by (simp add: go_slice_from_Some)
  moreover have "\<not> p + go_len suf > go_len lg + li \<Longrightarrow> drop (nat (go_len lg + li - p)) suf = []"
    by (simp add: go_len_def)
  ultimately show ?thesis
    unfolding append_log_def cut_conflict_eq Let_def
    by (cases "p + go_len suf > go_len lg + li") (use assms in auto)
qed

text \<open>The rule of the Raft paper: keep entries that agree, replace from the first that does not.\<close>

fun raft_merge :: "'d LogEntry list \<Rightarrow> 'd LogEntry list \<Rightarrow> 'd LogEntry list" where
  "raft_merge old [] = old"
| "raft_merge [] new = new"
| "raft_merge (e # old) (f # new) = (if Term e = Term f then e # raft_merge old new else f # new)"

lemma raft_merge_agree:
  "\<forall>i < min (length old) (length new). Term (old ! i) = Term (new ! i) \<Longrightarrow>
   raft_merge old new = old @ drop (length old) new"
proof (induction old new rule: raft_merge.induct)
  case (3 e old f new)
  have "Term e = Term f" using 3(2) by (auto dest: spec [of _ 0])
  moreover have "\<forall>i < min (length old) (length new). Term (old ! i) = Term (new ! i)"
  proof (intro allI impI)
    fix i assume "i < min (length old) (length new)"
    then show "Term (old ! i) = Term (new ! i)" using 3(2) by (auto dest: spec [of _ "Suc i"])
  qed
  ultimately show ?case using 3(1) by simp
qed simp_all

text \<open>C19: When the follower already has the prefix the leader names, and its entries behind that
  prefix have the terms of the leader's entries as far as both go, \<open>appendEntries\<close> leaves the log
  that the rule of the Raft paper prescribes: what agrees is kept, what is missing is added, and
  nothing is read out of range.\<close>
theorem append_log_follows_raft:
  assumes "li \<le> p" and "p \<le> go_len lg + li"
    and "\<forall>i < min (length (drop (nat (p - li)) lg)) (length suf). Term (lg ! (nat (p - li) + i)) = Term (suf ! i)"
  shows "append_log li p suf lg = Some (take (nat (p - li)) lg @ raft_merge (drop (nat (p - li)) lg) suf)"
proof -
  let ?k = "nat (p - li)"
  have m: "raft_merge (drop ?k lg) suf = drop ?k lg @ drop (length lg - ?k) suf"
    using raft_merge_agree [of "drop ?k lg" suf] assms(2,3) by (simp add: nth_drop go_len_def)
  have "\<not> first_conflict li p suf lg"
    using spec [OF assms(3), of 0] by (cases suf) (auto simp: first_conflict_def go_len_def)
  moreover have "nat (go_len lg + li - p) = length lg - ?k" using assms(1,2) by (simp add: go_len_def)
  ultimately show ?thesis
    using m by (auto simp: append_log_eq [OF assms(2)])
qed

theorem append_log_follows_raft_witness:
  "\<forall>m::unit Message. append_log 1 2 [\<lparr>Term = 2, Msg = m\<rparr>, \<lparr>Term = 3, Msg = m\<rparr>] [\<lparr>Term = 1, Msg = m\<rparr>, \<lparr>Term = 2, Msg = m\<rparr>] =
     Some [\<lparr>Term = 1, Msg = m\<rparr>, \<lparr>Term = 2, Msg = m\<rparr>, \<lparr>Term = 3, Msg = m\<rparr>]"
proof
  fix m :: "unit Message"
  show "append_log 1 2 [\<lparr>Term = 2, Msg = m\<rparr>, \<lparr>Term = 3, Msg = m\<rparr>] [\<lparr>Term = 1, Msg = m\<rparr>, \<lparr>Term = 2, Msg = m\<rparr>] =
     Some [\<lparr>Term = 1, Msg = m\<rparr>, \<lparr>Term = 2, Msg = m\<rparr>, \<lparr>Term = 3, Msg = m\<rparr>]"
    using append_log_follows_raft [of 1 2 "[\<lparr>Term = 1, Msg = m\<rparr>, \<lparr>Term = 2, Msg = m\<rparr>]"
        "[\<lparr>Term = 2, Msg = m\<rparr>, \<lparr>Term = 3, Msg = m\<rparr>]"] by simp
qed

section \<open>The leader's commit rule\<close>

definition acks :: "int \<Rightarrow> int \<Rightarrow> int list \<Rightarrow> int \<Rightarrow> int" where
  "acks self n acked c = 1 + go_len (filter (\<lambda>j. j \<noteq> self \<and> acked ! nat j > c) [0..n - 1])"

lemma count_acks_eq:
  "\<forall>j \<in> set js. 0 \<le> j \<and> j < go_len acked \<Longrightarrow>
   count_acks acked self c js = Some (1 + go_len (filter (\<lambda>j. j \<noteq> self \<and> acked ! nat j > c) js))"
  by (induction js) (auto simp: go_index_def)

lemma count_acks_all: "n \<le> go_len acked \<Longrightarrow> count_acks acked self c [0..n - 1] = Some (acks self n acked c)"
  by (auto simp: acks_def intro!: count_acks_eq)

lemma filter_length_mono: "(\<And>x. P x \<Longrightarrow> Q x) \<Longrightarrow> length (filter P xs) \<le> length (filter Q xs)"
  by (induction xs) (auto intro: le_SucI)

lemma acks_antimono: "c \<le> d \<Longrightarrow> acks self n acked d \<le> acks self n acked c"
  by (auto simp: acks_def go_len_def intro!: filter_length_mono)

lemma commit_loop_spec:
  assumes "n \<le> go_len acked" and "li \<le> c"
  shows "\<exists>m. commit_loop self n acked li lg c msgs =
      Some (c + int m, msgs @ map Msg (take m (drop (nat (c - li)) lg))) \<and>
    (m > 0 \<longrightarrow> c + int m \<le> li + go_len lg) \<and>
    (\<forall>i. c \<le> i \<and> i < c + int m \<longrightarrow> acks self n acked i \<ge> majority n) \<and>
    (c + int m < li + go_len lg \<longrightarrow> acks self n acked (c + int m) < majority n)"
  using assms
proof (induction self n acked li lg c msgs rule: commit_loop.induct)
  case (1 self n acked li lg c msgs)
  have cnt: "count_acks acked self c [0..n - 1] = Some (acks self n acked c)"
    using 1(2) by (rule count_acks_all)
  show ?case
  proof (cases "c < li + go_len lg \<and> acks self n acked c \<ge> majority n")
    case False
    then have "commit_loop self n acked li lg c msgs = Some (c, msgs)"
      by (subst commit_loop.simps) (simp add: cnt)
    with False show ?thesis by (intro exI [of _ 0]) auto
  next
    case True
    let ?k = "nat (c - li)"
    have k: "?k < length lg" "nat (c + 1 - li) = Suc ?k" using True 1(3) by (auto simp: go_len_def)
    have gi: "go_index lg (c - li) = Some (lg ! ?k)" using True 1(3) by (simp add: go_index_def)
    from 1(1) [OF _ cnt _ gi] True 1(2,3) obtain m where
      m: "commit_loop self n acked li lg (c + 1) (msgs @ [Msg (lg ! ?k)]) =
        Some (c + 1 + int m, (msgs @ [Msg (lg ! ?k)]) @ map Msg (take m (drop (nat (c + 1 - li)) lg)))"
      "m > 0 \<longrightarrow> c + 1 + int m \<le> li + go_len lg"
      "\<forall>i. c + 1 \<le> i \<and> i < c + 1 + int m \<longrightarrow> acks self n acked i \<ge> majority n"
      "c + 1 + int m < li + go_len lg \<longrightarrow> acks self n acked (c + 1 + int m) < majority n" by auto
    have "commit_loop self n acked li lg c msgs =
        Some (c + int (Suc m), msgs @ map Msg (take (Suc m) (drop ?k lg)))"
      using True m(1) by (subst commit_loop.simps) (simp add: cnt gi k Cons_nth_drop_Suc [symmetric])
    moreover have "\<forall>i. c \<le> i \<and> i < c + int (Suc m) \<longrightarrow> acks self n acked i \<ge> majority n"
    proof (intro allI impI)
      fix i assume "c \<le> i \<and> i < c + int (Suc m)"
      then show "acks self n acked i \<ge> majority n" using True m(3) by (cases "i = c") auto
    qed
    ultimately show ?thesis using True m(2,4) by (intro exI [of _ "Suc m"]) (auto simp: algebra_simps)
  qed
qed
lemma acks_card:
  assumes "0 \<le> self" "self < n"
  shows "acks self n acked c = int (card (insert self {j \<in> {0..<n}. acked ! nat j > c}))"
proof -
  have "{j \<in> {0..<n}. j \<noteq> self \<and> acked ! nat j > c} = set (filter (\<lambda>j. j \<noteq> self \<and> acked ! nat j > c) [0..n - 1])"
    by auto
  then have "int (card {j \<in> {0..<n}. j \<noteq> self \<and> acked ! nat j > c}) =
      go_len (filter (\<lambda>j. j \<noteq> self \<and> acked ! nat j > c) [0..n - 1])"
    by (simp only: go_len_def distinct_card [OF distinct_filter [OF distinct_upto]])
  moreover have "insert self {j \<in> {0..<n}. acked ! nat j > c} =
      insert self {j \<in> {0..<n}. j \<noteq> self \<and> acked ! nat j > c}" by auto
  moreover have "card (insert self {j \<in> {0..<n}. j \<noteq> self \<and> acked ! nat j > c}) =
      Suc (card {j \<in> {0..<n}. j \<noteq> self \<and> acked ! nat j > c})"
    by (rule card_insert_disjoint) (auto intro: finite_subset [of _ "{0..<n}"])
  ultimately show ?thesis by (simp add: acks_def)
qed

text \<open>
  The nodes that hold the entry at position \<open>c\<close>, as far as the leader knows: itself, and those that
  acknowledged a longer log.
\<close>

definition replicated_on :: "('d, 'a) Raft \<Rightarrow> int \<Rightarrow> int set" where
  "replicated_on r c = insert (raft_id r) {j \<in> {0..<totalNodes r}. ackedLengths r ! nat j > c}"

definition member :: "('d, 'a) Raft \<Rightarrow> bool" where
  "member r \<longleftrightarrow> 0 \<le> raft_id r \<and> raft_id r < totalNodes r \<and> go_len (ackedLengths r) = totalNodes r \<and>
     go_len (sentLengths r) = totalNodes r"

lemma acks_majority:
  "member r \<Longrightarrow> acks (raft_id r) (totalNodes r) (ackedLengths r) c \<ge> majority (totalNodes r) \<longleftrightarrow>
     2 * int (card (replicated_on r c)) > totalNodes r"
  by (simp add: acks_card member_def replicated_on_def majority_eq del: card_insert_disjoint) presburger

lemma commitLogEntries_eq:
  assumes "member r" and "snap_index r \<le> commitedLength r" and "commitedLength r \<le> abs_len r"
  shows "\<exists>m. commitLogEntries ops r = Some (deliver_all ops (r\<lparr>commitedLength := commitedLength r + int m\<rparr>)
      (map Msg (take m (drop (nat (commitedLength r - snap_index r)) (raft_log r))))) \<and>
    commitedLength r + int m \<le> abs_len r \<and>
    (\<forall>i. commitedLength r \<le> i \<and> i < abs_len r \<longrightarrow>
      (i < commitedLength r + int m \<longleftrightarrow> 2 * int (card (replicated_on r i)) > totalNodes r))"
proof -
  let ?acks = "acks (raft_id r) (totalNodes r) (ackedLengths r)"
  have "totalNodes r \<le> go_len (ackedLengths r)" using assms(1) by (simp add: member_def)
  from commit_loop_spec [OF this assms(2), of "raft_id r" "raft_log r" "[]"] obtain m where
    m: "commit_loop (raft_id r) (totalNodes r) (ackedLengths r) (snap_index r) (raft_log r) (commitedLength r) [] =
      Some (commitedLength r + int m, map Msg (take m (drop (nat (commitedLength r - snap_index r)) (raft_log r))))"
    "m > 0 \<longrightarrow> commitedLength r + int m \<le> abs_len r"
    "\<forall>i. commitedLength r \<le> i \<and> i < commitedLength r + int m \<longrightarrow> ?acks i \<ge> majority (totalNodes r)"
    "commitedLength r + int m < abs_len r \<longrightarrow> ?acks (commitedLength r + int m) < majority (totalNodes r)"
    by (auto simp: add.commute)
  have le: "commitedLength r + int m \<le> abs_len r" using m(2) assms(3) by (cases m) auto
  have "\<forall>i. commitedLength r \<le> i \<and> i < abs_len r \<longrightarrow>
      (i < commitedLength r + int m \<longleftrightarrow> ?acks i \<ge> majority (totalNodes r))"
  proof (intro allI impI iffI)
    fix i assume i: "commitedLength r \<le> i \<and> i < abs_len r" and "?acks i \<ge> majority (totalNodes r)"
    then show "i < commitedLength r + int m"
      using m(4) acks_antimono [of "commitedLength r + int m" i "raft_id r" "totalNodes r" "ackedLengths r"]
      by (cases "i < commitedLength r + int m") auto
  qed (use m(3) in blast)
  with le m(1) show ?thesis
    by (intro exI [of _ m]) (simp add: commitLogEntries_def commit_locked_def acks_majority [OF assms(1)])
qed

section \<open>The replicated state machine\<close>

text \<open>
  The contract of a node: there is a log \<open>full\<close> from the first entry on, of which the node holds the
  part behind its snapshot, and the application is in the state that the committed part leads to
  from the initial state \<open>a\<close>.
\<close>

definition rsm :: "('d, 'a) Application \<Rightarrow> 'a \<Rightarrow> 'd LogEntry list \<Rightarrow> ('d, 'a) Raft \<Rightarrow> bool" where
  "rsm ops a full r \<longleftrightarrow> 0 \<le> snap_index r \<and> snap_index r \<le> commitedLength r \<and>
     commitedLength r \<le> go_len full \<and> raft_log r = drop (nat (snap_index r)) full \<and>
     application r = replay ops a (take (nat (commitedLength r)) full)"

lemma rsm_abs_len: "rsm ops a full r \<Longrightarrow> abs_len r = go_len full"
  by (auto simp: rsm_def)

text \<open>The snapshot remembers the term of the last entry it covers.\<close>

definition prev_term :: "'d LogEntry list \<Rightarrow> int \<Rightarrow> int" where
  "prev_term G p = (if p = 0 then 0 else Term (G ! nat (p - 1)))"

definition snap_term_ok :: "'d LogEntry list \<Rightarrow> ('d, 'a) Raft \<Rightarrow> bool" where
  "snap_term_ok G r \<longleftrightarrow> (snap_index r > 0 \<longrightarrow> lastTerm (snapshotter r) = prev_term G (snap_index r))"

lemma prev_term_0 [simp]: "prev_term G 0 = 0"
  by (simp add: prev_term_def)

lemma snap_term_compact:
  assumes "rsm ops a full r" and "snap_term_ok full r" and "int k \<le> max 0 (commitedLength r - snap_index r)"
    and "t = (if k = 0 then lastTerm (snapshotter r) else Term (raft_log r ! (k - 1)))"
  shows "snap_term_ok full (compact_to k rds t r)"
proof (cases "k = 0")
  case True
  then show ?thesis using assms(2,4) by (simp add: snap_term_ok_def compact_to_def)
next
  case False
  then have "nat (snap_index r) + (k - 1) = nat (snap_index r + int k - 1)" "k - 1 < length full - nat (snap_index r)"
    using assms(1,3) by (auto simp: rsm_def go_len_def)
  then have "raft_log r ! (k - 1) = full ! nat (snap_index r + int k - 1)" using assms(1) by (simp add: rsm_def)
  with False assms(1,4) show ?thesis by (simp add: snap_term_ok_def compact_to_def prev_term_def rsm_def)
qed

lemma snap_term_prefix:
  assumes "rsm ops a full r" and "snap_term_ok full r" and "snapshotter r' = snapshotter r"
    and "take (nat (commitedLength r)) full' = take (nat (commitedLength r)) full"
  shows "snap_term_ok full' r'"
proof -
  have "full' ! nat (snap_index r - 1) = full ! nat (snap_index r - 1)" if "snap_index r > 0"
  proof -
    have "nat (snap_index r - 1) < nat (commitedLength r)" using that assms(1) by (simp add: rsm_def)
    then show ?thesis using arg_cong [OF assms(4), of "\<lambda>xs. xs ! nat (snap_index r - 1)"] by simp
  qed
  then show ?thesis using assms(2,3) by (simp add: snap_term_ok_def prev_term_def)
qed

lemma rsm_compact:
  "rsm ops a full r \<Longrightarrow> int k \<le> max 0 (commitedLength r - snap_index r) \<Longrightarrow> rsm ops a full (compact_to k rds t r)"
  by (auto simp: rsm_def nat_add_distrib add.commute)

lemma rsm_deliver:
  assumes "rsm ops a full r" and "commitedLength r + int m \<le> go_len full"
  shows "rsm ops a full (deliver_all ops (r\<lparr>commitedLength := commitedLength r + int m\<rparr>)
      (map Msg (take m (drop (nat (commitedLength r - snap_index r)) (raft_log r)))))"
proof -
  let ?c = "nat (commitedLength r)"
  have "drop (nat (commitedLength r - snap_index r)) (raft_log r) = drop ?c full"
    using assms(1) by (simp add: rsm_def nat_diff_distrib nat_mono)
  moreover have "nat (commitedLength r + int m) = ?c + m"
    using assms(1) by (simp add: rsm_def nat_add_distrib)
  ultimately show ?thesis
    using assms by (auto simp: rsm_def deliver_all_application take_add)
qed


lemma deliver_all_commit_update:
  "(deliver_all ops r ms)\<lparr>commitedLength := c\<rparr> = deliver_all ops (r\<lparr>commitedLength := c\<rparr>) ms"
proof -
  have "(deliverToApplication ops r m)\<lparr>commitedLength := c\<rparr> = deliverToApplication ops (r\<lparr>commitedLength := c\<rparr>) m"
    for m and r :: "('a, 'b) Raft"
    by (simp add: deliverToApplication_def respond_def split: prod.split option.split)
  then show ?thesis by (induction ms arbitrary: r) simp_all
qed

lemma follower_commit_eq:
  assumes "snap_index r \<le> commitedLength r" and "commitedLength r \<le> abs_len r"
  shows "\<exists>m. follower_commit ops lc r = Some (deliver_all ops (r\<lparr>commitedLength := commitedLength r + int m\<rparr>)
      (map Msg (take m (drop (nat (commitedLength r - snap_index r)) (raft_log r))))) \<and>
    commitedLength r + int m = max (commitedLength r) (min lc (abs_len r))"
proof (cases "lc > commitedLength r")
  case True
  define m where "m = nat (min lc (abs_len r) - commitedLength r)"
  have m: "commitedLength r + int m = min lc (abs_len r)" using True assms(2) by (simp add: m_def)
  have "deliver_from ops m (commitedLength r) r =
      Some (deliver_all ops r (map Msg (take m (drop (nat (commitedLength r - snap_index r)) (raft_log r)))))"
    using m assms by (intro deliver_from_eq) auto
  moreover have "(if lc > abs_len r then abs_len r else lc) = commitedLength r + int m" using m by auto
  ultimately have "follower_commit ops lc r = Some (deliver_all ops (r\<lparr>commitedLength := commitedLength r + int m\<rparr>)
      (map Msg (take m (drop (nat (commitedLength r - snap_index r)) (raft_log r)))))"
    using True by (simp add: follower_commit_def deliver_all_commit_update Let_def)
  with m True assms(2) show ?thesis by (intro exI [of _ m]) auto
next
  case False
  then have "follower_commit ops lc r = Some r" by (simp add: follower_commit_def)
  with False show ?thesis by (intro exI [of _ 0]) auto
qed

text \<open>
  What the leader sends may only replace entries behind the committed ones: this is what the
  election and the commit rule are meant to guarantee, and what a follower does not check.
\<close>

definition keeps_committed :: "('d, 'a) Raft \<Rightarrow> int \<Rightarrow> 'd LogEntry list \<Rightarrow> bool" where
  "keeps_committed r p suf \<longleftrightarrow> commitedLength r \<le> p \<or> \<not> first_conflict (snap_index r) p suf (raft_log r)"

definition full_append :: "int \<Rightarrow> int \<Rightarrow> 'd LogEntry list \<Rightarrow> 'd LogEntry list \<Rightarrow> 'd LogEntry list" where
  "full_append li p suf full =
     (if li \<le> p \<and> first_conflict 0 p suf full then take (nat p) full else full) @ drop (nat (go_len full - p)) suf"

lemma rsm_append_log:
  assumes "rsm ops a full r" and "p \<le> abs_len r" and "keeps_committed r p suf"
  obtains lg where "append_log (snap_index r) p suf (raft_log r) = Some lg"
    and "rsm ops a (full_append (snap_index r) p suf full) (r\<lparr>raft_log := lg\<rparr>)"
    and "take (nat (commitedLength r)) (full_append (snap_index r) p suf full) = take (nat (commitedLength r)) full"
proof -
  let ?li = "nat (snap_index r)" and ?c = "nat (commitedLength r)"
  let ?full = "full_append (snap_index r) p suf full"
  have r: "0 \<le> snap_index r" "snap_index r \<le> commitedLength r" "commitedLength r \<le> go_len full"
    "raft_log r = drop ?li full" using assms(1) by (simp_all add: rsm_def)
  have cut: "first_conflict (snap_index r) p suf (raft_log r) \<longleftrightarrow> snap_index r \<le> p \<and> first_conflict 0 p suf full"
    using r by (auto simp: first_conflict_def go_len_def nat_diff_distrib)
  have c: "commitedLength r \<le> p" if "snap_index r \<le> p" "first_conflict 0 p suf full"
    using assms(3) that cut by (auto simp: keeps_committed_def)
  have tk: "snap_index r \<le> p \<Longrightarrow> take (nat (p - snap_index r)) (drop ?li full) = drop ?li (take (nat p) full)"
    using r(1) by (simp add: take_drop nat_diff_distrib nat_mono)
  have len: "?li \<le> length full" "snap_index r \<le> p \<Longrightarrow> first_conflict 0 p suf full \<Longrightarrow> ?li \<le> length (take (nat p) full)"
    using r(1-3) by (auto simp: go_len_def first_conflict_def)
  have "append_log (snap_index r) p suf (raft_log r) = Some (drop ?li ?full)"
    unfolding append_log_eq [OF assms(2)] rsm_abs_len [OF assms(1)] full_append_def cut
    using tk len by (simp add: r(4))
  moreover have t: "take ?c ?full = take ?c full"
    using c r(1-3) by (auto simp: full_append_def go_len_def min_def first_conflict_def)
  moreover have "rsm ops a ?full (r\<lparr>raft_log := drop ?li ?full\<rparr>)"
    using assms(1) t c by (auto simp: rsm_def full_append_def go_len_def first_conflict_def)
  ultimately show thesis using that by blast
qed


text \<open>What log handling leaves alone: identity, term, vote, role and the leader's tables.\<close>

definition core :: "('d, 'a) Raft \<Rightarrow> int \<times> int \<times> int \<times> int \<times> Role \<times> int \<times> int set \<times> int list \<times> int list" where
  "core r = (raft_id r, totalNodes r, currentTerm r, votedFor r, currentRole r, currentLeaderId r, votesReceived r,
     sentLengths r, ackedLengths r)"

lemma core_simps [simp]:
  "core (r\<lparr>raft_log := lg\<rparr>) = core r" "core (r\<lparr>commitedLength := c\<rparr>) = core r"
  "core (r\<lparr>resetTimerCh := b\<rparr>) = core r" "core (r\<lparr>logSaver := rds\<rparr>) = core r"
  "core (deliver_all ops r ms) = core r" "core (compact_to k rds t r) = core r"
  "core (request_save r) = core r" "core (ResetTimer r) = core r"
  by (simp_all add: core_def request_save_def ResetTimer_def)

lemma request_save_frame [simp]:
  "raft_id (request_save r) = raft_id r" "totalNodes (request_save r) = totalNodes r"
  "currentTerm (request_save r) = currentTerm r" "votedFor (request_save r) = votedFor r"
  "raft_log (request_save r) = raft_log r" "commitedLength (request_save r) = commitedLength r"
  "currentRole (request_save r) = currentRole r" "currentLeaderId (request_save r) = currentLeaderId r"
  "votesReceived (request_save r) = votesReceived r" "sentLengths (request_save r) = sentLengths r"
  "ackedLengths (request_save r) = ackedLengths r" "application (request_save r) = application r"
  "snapshotter (request_save r) = snapshotter r" "replicators (request_save r) = replicators r"
  "chans (request_save r) = chans r"
  by (simp_all add: request_save_def)

lemma ResetTimer_frame [simp]:
  "raft_id (ResetTimer r) = raft_id r" "totalNodes (ResetTimer r) = totalNodes r"
  "currentTerm (ResetTimer r) = currentTerm r" "votedFor (ResetTimer r) = votedFor r"
  "raft_log (ResetTimer r) = raft_log r" "commitedLength (ResetTimer r) = commitedLength r"
  "currentRole (ResetTimer r) = currentRole r" "currentLeaderId (ResetTimer r) = currentLeaderId r"
  "votesReceived (ResetTimer r) = votesReceived r" "sentLengths (ResetTimer r) = sentLengths r"
  "ackedLengths (ResetTimer r) = ackedLengths r" "application (ResetTimer r) = application r"
  "snapshotter (ResetTimer r) = snapshotter r" "replicators (ResetTimer r) = replicators r"
  "chans (ResetTimer r) = chans r" "logSaver (ResetTimer r) = logSaver r"
  by (simp_all add: ResetTimer_def)

lemma rsm_cong:
  assumes "raft_log r' = raft_log r" "commitedLength r' = commitedLength r" "application r' = application r"
    "snap_index r' = snap_index r"
  shows "rsm ops a full r' \<longleftrightarrow> rsm ops a full r"
  by (simp add: rsm_def assms)

lemma appendEntries_rsm:
  assumes "rsm ops a full r" and "p \<le> abs_len r" and "keeps_committed r p suf"
  shows "\<exists>r'. appendEntries ops r p lc suf = Some r' \<and> core r' = core r \<and>
    rsm ops a (full_append (snap_index r) p suf full) r' \<and>
    commitedLength r' = max (commitedLength r) (min lc (go_len (full_append (snap_index r) p suf full))) \<and>
    (snap_term_ok full r \<longrightarrow> snap_term_ok (full_append (snap_index r) p suf full) r')"
proof -
  let ?full = "full_append (snap_index r) p suf full"
  obtain lg where lg: "append_log (snap_index r) p suf (raft_log r) = Some lg" "rsm ops a ?full (r\<lparr>raft_log := lg\<rparr>)"
    "take (nat (commitedLength r)) ?full = take (nat (commitedLength r)) full"
    using rsm_append_log [OF assms] .
  let ?r1 = "r\<lparr>raft_log := lg\<rparr>"
  have l1: "abs_len ?r1 = go_len ?full" using rsm_abs_len [OF lg(2)] .
  obtain r2 where r2: "follower_commit ops lc ?r1 = Some r2" "rsm ops a ?full r2" "core r2 = core r"
    "snapshotter r2 = snapshotter r" "commitedLength r2 = max (commitedLength r) (min lc (go_len ?full))"
  proof -
    have c: "snap_index ?r1 \<le> commitedLength ?r1" "commitedLength ?r1 \<le> abs_len ?r1"
      using lg(2) l1 by (simp_all add: rsm_def)
    obtain m where m: "follower_commit ops lc ?r1 = Some (deliver_all ops (?r1\<lparr>commitedLength := commitedLength ?r1 + int m\<rparr>)
        (map Msg (take m (drop (nat (commitedLength ?r1 - snap_index ?r1)) (raft_log ?r1)))))"
      "commitedLength ?r1 + int m = max (commitedLength ?r1) (min lc (go_len ?full))"
      using follower_commit_eq [OF c, of ops lc] unfolding l1 by blast
    have "commitedLength ?r1 + int m \<le> go_len ?full" using m(2) c(2) l1 by simp
    from that [OF m(1) rsm_deliver [OF lg(2) this]] m(2) show thesis by simp
  qed
  have "commitedLength r2 \<le> abs_len r2" using r2(2) rsm_abs_len [OF r2(2)] by (simp add: rsm_def)
  from decideRunSnapshot_eq [OF this, of ops] obtain k rds t err where
    k: "decideRunSnapshot ops r2 = Some (compact_to k rds t r2, err)" "int k \<le> max 0 (commitedLength r2 - snap_index r2)"
      "t = (if k = 0 then lastTerm (snapshotter r2) else Term (raft_log r2 ! (k - 1)))"
    by blast
  have "appendEntries ops r p lc suf = Some (compact_to k rds t r2)"
    by (simp add: appendEntries_def lg(1) r2(1) k(1))
  moreover have "snap_term_ok full r \<longrightarrow> snap_term_ok ?full (compact_to k rds t r2)"
    using snap_term_prefix [OF assms(1) _ r2(4) lg(3)] snap_term_compact [OF r2(2) _ k(2,3)] by blast
  ultimately show ?thesis using rsm_compact [OF r2(2) k(2)] r2(3,5) by simp
qed

lemma prefix_ok_bounds: "prefix_ok r p t \<Longrightarrow> 0 \<le> snap_index r \<Longrightarrow> 0 \<le> p \<and> p \<le> abs_len r"
  by (auto simp: prefix_ok_def Let_def split: if_splits)

lemma accept_leader_frame [simp]:
  "raft_id (accept_leader r l t) = raft_id r" "totalNodes (accept_leader r l t) = totalNodes r"
  "raft_log (accept_leader r l t) = raft_log r" "commitedLength (accept_leader r l t) = commitedLength r"
  "application (accept_leader r l t) = application r" "snapshotter (accept_leader r l t) = snapshotter r"
  "votesReceived (accept_leader r l t) = votesReceived r" "sentLengths (accept_leader r l t) = sentLengths r"
  "ackedLengths (accept_leader r l t) = ackedLengths r"
  "currentTerm (accept_leader r l t) = max (currentTerm r) t"
  by (simp_all add: accept_leader_def Let_def)

lemma prefix_ok_accept [simp]: "prefix_ok (accept_leader r l t) = prefix_ok r"
  by (rule ext)+ (simp add: prefix_ok_def)


text \<open>
  A request whose entries all arrive with a message is read without a panic. It is accepted when it
  is for the current term and fits; then log and application follow the whole log.
\<close>

lemma LogRequest_reject:
  assumes "mapM from_pb_entry (Suffix args) = Some suf"
    and "lr_Term args < currentTerm r \<or> \<not> prefix_ok r (PrefixLen args) (PrefixTerm args)"
  shows "LogRequest ops r args = Some (request_save (accept_leader r (LeaderId args) (lr_Term args)),
    \<lparr>lr_NodeId = int32 (raft_id r), lr_CurrentTerm = int32 (max (currentTerm r) (lr_Term args)), Ack = 0, lr_Success = False\<rparr>)"
  using assms by (auto simp: LogRequest_def convertLogRequestArgs_def)

lemma LogRequest_accept:
  assumes "rsm ops a full r" and "mapM from_pb_entry (Suffix args) = Some suf"
    and "currentTerm r \<le> lr_Term args" and "prefix_ok r (PrefixLen args) (PrefixTerm args)"
    and "keeps_committed r (PrefixLen args) suf"
  shows "\<exists>r'. LogRequest ops r args = Some (r', \<lparr>lr_NodeId = int32 (raft_id r), lr_CurrentTerm = int32 (lr_Term args),
        Ack = int32 (PrefixLen args + go_len suf), lr_Success = True\<rparr>) \<and>
    rsm ops a (full_append (snap_index r) (PrefixLen args) suf full) r' \<and>
    core r' = core (accept_leader r (LeaderId args) (lr_Term args)) \<and>
    commitedLength r' = max (commitedLength r) (min (CommitLength args) (go_len (full_append (snap_index r) (PrefixLen args) suf full))) \<and>
    take (nat (commitedLength r)) (full_append (snap_index r) (PrefixLen args) suf full) = take (nat (commitedLength r)) full"
proof -
  let ?r = "accept_leader r (LeaderId args) (lr_Term args)" and ?p = "PrefixLen args"
  have rsm: "rsm ops a full (ResetTimer ?r)" using assms(1) by (simp add: rsm_def)
  have p: "?p \<le> abs_len (ResetTimer ?r)"
    using prefix_ok_bounds [OF assms(4)] assms(1) by (simp add: rsm_def)
  have kc: "keeps_committed (ResetTimer ?r) ?p suf" using assms(5) by (simp add: keeps_committed_def)
  from appendEntries_rsm [OF rsm p kc, of "CommitLength args"] obtain r' where
    r': "appendEntries ops (ResetTimer ?r) ?p (CommitLength args) suf = Some r'" "core r' = core ?r"
      "rsm ops a (full_append (snap_index r) ?p suf full) r'"
      "commitedLength r' = max (commitedLength r) (min (CommitLength args) (go_len (full_append (snap_index r) ?p suf full)))"
    by auto
  have "raft_id r' = raft_id r" "currentTerm r' = lr_Term args" using r'(2) assms(3) by (simp_all add: core_def)
  then have "LogRequest ops r args = Some (request_save r', \<lparr>lr_NodeId = int32 (raft_id r), lr_CurrentTerm = int32 (lr_Term args),
        Ack = int32 (?p + go_len suf), lr_Success = True\<rparr>)"
    using assms(3,4) by (simp add: LogRequest_def convertLogRequestArgs_def assms(2) Let_def r'(1) max_def)
  moreover have "rsm ops a (full_append (snap_index r) ?p suf full) (request_save r')"
    using r'(3) by (simp add: rsm_def)
  moreover have "take (nat (commitedLength r)) (full_append (snap_index r) ?p suf full) = take (nat (commitedLength r)) full"
    using rsm_append_log [OF rsm p kc] by auto
  ultimately show ?thesis using r'(2,4) by (intro exI [of _ "request_save r'"]) simp
qed

lemma LogRequest_rsm:
  assumes "rsm ops a full r" and "mapM from_pb_entry (Suffix args) = Some suf"
    and "currentTerm r \<le> lr_Term args \<Longrightarrow> prefix_ok r (PrefixLen args) (PrefixTerm args) \<Longrightarrow> keeps_committed r (PrefixLen args) suf"
  shows "\<exists>r' resp full'. LogRequest ops r args = Some (r', resp) \<and> rsm ops a full' r' \<and>
    core r' = core (accept_leader r (LeaderId args) (lr_Term args)) \<and>
    commitedLength r \<le> commitedLength r' \<and>
    take (nat (commitedLength r)) full' = take (nat (commitedLength r)) full"
proof (cases "currentTerm r \<le> lr_Term args \<and> prefix_ok r (PrefixLen args) (PrefixTerm args)")
  case True
  from LogRequest_accept [OF assms(1,2) _ _ assms(3)] True show ?thesis by fastforce
next
  case False
  let ?r = "request_save (accept_leader r (LeaderId args) (lr_Term args))"
  have "rsm ops a full ?r" using assms(1) by (simp add: rsm_def)
  with LogRequest_reject [OF assms(2), of r] False show ?thesis by force
qed

lemma on_replicator_frame [simp]:
  "raft_id (on_replicator g f r) = raft_id r" "totalNodes (on_replicator g f r) = totalNodes r"
  "currentTerm (on_replicator g f r) = currentTerm r" "votedFor (on_replicator g f r) = votedFor r"
  "raft_log (on_replicator g f r) = raft_log r" "commitedLength (on_replicator g f r) = commitedLength r"
  "currentRole (on_replicator g f r) = currentRole r" "currentLeaderId (on_replicator g f r) = currentLeaderId r"
  "votesReceived (on_replicator g f r) = votesReceived r" "sentLengths (on_replicator g f r) = sentLengths r"
  "ackedLengths (on_replicator g f r) = ackedLengths r" "application (on_replicator g f r) = application r"
  "logSaver (on_replicator g f r) = logSaver r" "snapshotter (on_replicator g f r) = snapshotter r"
  "chans (on_replicator g f r) = chans r"
  by (simp_all add: on_replicator_def)

lemma becomeFollowerUnlocked_frame [simp]:
  "raft_id (becomeFollowerUnlocked t r) = raft_id r" "totalNodes (becomeFollowerUnlocked t r) = totalNodes r"
  "currentTerm (becomeFollowerUnlocked t r) = t" "votedFor (becomeFollowerUnlocked t r) = -1"
  "raft_log (becomeFollowerUnlocked t r) = raft_log r" "commitedLength (becomeFollowerUnlocked t r) = commitedLength r"
  "currentRole (becomeFollowerUnlocked t r) = Follower" "currentLeaderId (becomeFollowerUnlocked t r) = -1"
  "votesReceived (becomeFollowerUnlocked t r) = votesReceived r" "sentLengths (becomeFollowerUnlocked t r) = sentLengths r"
  "ackedLengths (becomeFollowerUnlocked t r) = ackedLengths r" "application (becomeFollowerUnlocked t r) = application r"
  "snapshotter (becomeFollowerUnlocked t r) = snapshotter r"
  by (simp_all add: becomeFollowerUnlocked_def)

text \<open>The part of the state the contract is about.\<close>

definition data :: "('d, 'a) Raft \<Rightarrow> 'd LogEntry list \<times> int \<times> 'a \<times> Snapshot" where
  "data r = (raft_log r, commitedLength r, application r, snapshotter r)"

lemma rsm_data: "data r' = data r \<Longrightarrow> rsm ops a full r' \<longleftrightarrow> rsm ops a full r"
  by (simp add: rsm_def data_def)

definition tables :: "('d, 'a) Raft \<Rightarrow> int \<times> int \<times> int \<times> int" where
  "tables r = (raft_id r, totalNodes r, go_len (sentLengths r), go_len (ackedLengths r))"

lemma member_tables: "tables r' = tables r \<Longrightarrow> member r' \<longleftrightarrow> member r"
  by (simp add: member_def tables_def)

lemma commitLogEntries_rsm:
  assumes "rsm ops a full r" and "member r"
  shows "\<exists>r'. commitLogEntries ops r = Some r' \<and> rsm ops a full r' \<and> core r' = core r \<and>
    commitedLength r \<le> commitedLength r'"
proof -
  have c: "snap_index r \<le> commitedLength r" "commitedLength r \<le> abs_len r"
    using assms(1) rsm_abs_len [OF assms(1)] by (simp_all add: rsm_def)
  from commitLogEntries_eq [OF assms(2) c, of ops] obtain m where
    m: "commitLogEntries ops r = Some (deliver_all ops (r\<lparr>commitedLength := commitedLength r + int m\<rparr>)
        (map Msg (take m (drop (nat (commitedLength r - snap_index r)) (raft_log r)))))"
      "commitedLength r + int m \<le> go_len full"
    unfolding rsm_abs_len [OF assms(1)] by blast
  from m(1) rsm_deliver [OF assms(1) m(2)] show ?thesis by simp
qed

lemma replicate_response_rsm:
  assumes "rsm ops a full r" and "member r" and "0 \<le> f" and "f < totalNodes r"
  shows "\<exists>r'. replicate_response ops f resp r = Some r' \<and> rsm ops a full r' \<and> member r' \<and>
    commitedLength r \<le> commitedLength r'"
proof -
  let ?r = "on_replicator (\<lambda>p. p\<lparr>consecutiveFailures := 0\<rparr>) f r"
  have f: "f < go_len (sentLengths r)" "f < go_len (ackedLengths r)" using assms(2,4) by (simp_all add: member_def)
  have frame: "rsm ops a full r'" "member r'" "commitedLength r \<le> commitedLength r'"
    if "data r' = data r" "tables r' = tables r" for r' :: "('a, 'b) Raft"
    using that rsm_data [OF that(1)] member_tables [OF that(2)] assms(1,2) by (simp_all add: data_def)
  consider (newer) "lr_CurrentTerm resp > int32 (currentTerm r)"
    | (ack) "\<not> lr_CurrentTerm resp > int32 (currentTerm r)" "currentRole r = Leader" "lr_CurrentTerm resp = currentTerm r" "lr_Success resp"
    | (nack) "\<not> lr_CurrentTerm resp > int32 (currentTerm r)" "currentRole r = Leader" "lr_CurrentTerm resp = currentTerm r" "\<not> lr_Success resp"
    | (old) "\<not> lr_CurrentTerm resp > int32 (currentTerm r)" "\<not> (currentRole r = Leader \<and> lr_CurrentTerm resp = currentTerm r)"
    by blast
  then show ?thesis
  proof cases
    case newer
    then have "replicate_response ops f resp r = Some (becomeFollowerUnlocked (lr_CurrentTerm resp) ?r)"
      by (simp add: replicate_response_def)
    moreover note frame [of "becomeFollowerUnlocked (lr_CurrentTerm resp) ?r"]
    ultimately show ?thesis by (simp add: data_def tables_def)
  next
    case ack
    let ?r' = "?r\<lparr>sentLengths := (sentLengths r)[nat f := Ack resp + 1], ackedLengths := (ackedLengths r)[nat f := Ack resp]\<rparr>"
    have "replicate_response ops f resp r = commitLogEntries ops ?r'"
      using ack assms(3) f by (simp add: replicate_response_def go_store_Some)
    moreover have "rsm ops a full ?r'" "member ?r'" using frame [of ?r'] by (simp_all add: data_def tables_def)
    moreover from commitLogEntries_rsm [OF this] obtain r' where "commitLogEntries ops ?r' = Some r'"
      "rsm ops a full r'" "core r' = core ?r'" "commitedLength ?r' \<le> commitedLength r'" by blast
    ultimately show ?thesis by (auto simp: core_def member_def)
  next
    case nack
    let ?s = "sentLengths r ! nat f"
    let ?r' = "?r\<lparr>sentLengths := (sentLengths r)[nat f := ?s - 1]\<rparr>"
    have "replicate_response ops f resp r = Some (if ?s > snap_index r + 1 then ?r' else ?r)"
      using nack assms(3) f by (simp add: replicate_response_def go_store_Some go_index_Some)
    moreover note frame [of ?r'] frame [of ?r]
    ultimately show ?thesis by (simp add: data_def tables_def)
  next
    case old
    then have "replicate_response ops f resp r = Some ?r" by (auto simp: replicate_response_def Let_def)
    moreover note frame [of ?r]
    ultimately show ?thesis by (simp add: data_def tables_def)
  qed
qed

lemma broadcast_append_rsm:
  assumes "rsm ops a full r" and "member r"
  shows "\<exists>r'. broadcast_append r message = Some r' \<and> member r' \<and> commitedLength r' = commitedLength r \<and>
    rsm ops a (full @ [\<lparr>Term = currentTerm r, Msg = message\<rparr>]) r'"
  using assms by (auto simp: broadcast_append_def Let_def go_store_def member_def rsm_def go_len_def)

section \<open>Taking office\<close>

definition vote_state :: "('d, 'a) Raft \<Rightarrow> int \<times> int \<times> Role \<times> int \<times> int set" where
  "vote_state r = (currentTerm r, votedFor r, currentRole r, currentLeaderId r, votesReceived r)"

lemma leader_loop_ok:
  assumes "member r" "replicators r = Some reps" "go_len reps = totalNodes r" "\<forall>f \<in> set fs. 0 \<le> f \<and> f < totalNodes r"
  shows "\<exists>r'. leader_loop fs r = Some r' \<and> data r' = data r \<and> tables r' = tables r \<and> vote_state r' = vote_state r \<and>
    (\<forall>f. 0 \<le> f \<longrightarrow> sentLengths r' ! nat f = (if f \<in> set fs - {raft_id r} then abs_len r + 1 else sentLengths r ! nat f)) \<and>
    (\<forall>f. 0 \<le> f \<longrightarrow> ackedLengths r' ! nat f = (if f \<in> set fs - {raft_id r} then 0 else ackedLengths r ! nat f))"
  using assms
proof (induction fs arbitrary: r reps)
  case Nil
  then show ?case by simp
next
  case (Cons f fs)
  show ?case
  proof (cases "f = raft_id r")
    case True
    then have "leader_loop (f # fs) r = leader_loop fs r" by simp
    with True Cons.IH [OF Cons.prems(1-3)] Cons.prems(4) show ?thesis by simp
  next
    case False
    let ?r = "r\<lparr>sentLengths := (sentLengths r)[nat f := abs_len r + 1], ackedLengths := (ackedLengths r)[nat f := 0],
      replicators := Some (reps[nat f := Some (NewReplicator f)])\<rparr>"
    have f: "0 \<le> f" "f < totalNodes r" using Cons.prems(4) by simp_all
    then have st: "leader_loop (f # fs) r = leader_loop fs ?r"
      using False Cons.prems by (simp add: member_def go_store_Some)
    have "member ?r" using Cons.prems(1) by (simp add: member_def)
    from Cons.IH [OF this, of "reps[nat f := Some (NewReplicator f)]"] Cons.prems(3,4) obtain r' where
      r': "leader_loop fs ?r = Some r'" "data r' = data ?r" "tables r' = tables ?r" "vote_state r' = vote_state ?r"
      "\<forall>g. 0 \<le> g \<longrightarrow> sentLengths r' ! nat g = (if g \<in> set fs - {raft_id ?r} then abs_len ?r + 1 else sentLengths ?r ! nat g)"
      "\<forall>g. 0 \<le> g \<longrightarrow> ackedLengths r' ! nat g = (if g \<in> set fs - {raft_id ?r} then 0 else ackedLengths ?r ! nat g)"
      by auto
    have "nat f < length (sentLengths r)" "nat f < length (ackedLengths r)"
      using f Cons.prems(1) by (auto simp: member_def go_len_def)
    then have "sentLengths ?r ! nat g = (if g = f then abs_len r + 1 else sentLengths r ! nat g)"
      "ackedLengths ?r ! nat g = (if g = f then 0 else ackedLengths r ! nat g)" if "0 \<le> g" for g
      using that f by (auto simp: nth_list_update)
    with r' st False show ?thesis by (simp add: data_def tables_def vote_state_def)
  qed
qed

lemma becomeLeader_ok:
  assumes "member r"
  shows "\<exists>r'. becomeLeader r = Some r' \<and> data r' = data r \<and> tables r' = tables r \<and>
    vote_state r' = (currentTerm r, votedFor r, Leader, raft_id r, votesReceived r) \<and>
    (\<forall>f. 0 \<le> f \<and> f < totalNodes r \<and> f \<noteq> raft_id r \<longrightarrow>
       sentLengths r' ! nat f = abs_len r + 1 \<and> ackedLengths r' ! nat f = 0)"
proof -
  let ?r = "r\<lparr>currentRole := Leader, currentLeaderId := raft_id r,
        replicators := Some (replicate (nat (totalNodes r)) None)\<rparr>"
  have "member ?r" using assms by (simp add: member_def)
  from leader_loop_ok [OF this, of "replicate (nat (totalNodes r)) None" "[0..totalNodes r - 1]"] assms
  show ?thesis
    by (auto simp: becomeLeader_def go_len_def member_def data_def tables_def vote_state_def)
qed
end
