(* ===== verification/Test_App.thy ===== *)
theory Test_App
  imports Raft_Types
begin

text \<open>
  The reference application of \<open>pkg/raft/tests_setup.go\<close>: a map of integers with a binary
  snapshot. It is an instance of the application interface on which the theorems about the
  replicated log can be run. Its \<open>GetSnapshot\<close> writes the map in the order of a \<open>range\<close> loop:
  the argument \<open>ord\<close> is the order the run-time picks.
\<close>

section \<open>Little-endian numbers\<close>

fun le_bytes :: "nat \<Rightarrow> int \<Rightarrow> byte list" where
  "le_bytes 0 i = []"
| "le_bytes (Suc n) i = word_of_int i # le_bytes n (i div 256)"

fun le_val :: "byte list \<Rightarrow> int" where
  "le_val [] = 0"
| "le_val (b # bs) = uint b + 256 * le_val bs"

lemma length_le_bytes [simp]: "length (le_bytes n i) = n"
  by (induction n arbitrary: i) simp_all

lemma le_val_bytes: "le_val (le_bytes n i) = i mod 256 ^ n"
proof (induction n arbitrary: i)
  case (Suc n)
  have "uint (word_of_int i :: byte) = i mod 256" by (simp add: uint_word_of_int)
  with Suc show ?case by (simp add: zmod_zmult2_eq add.commute)
qed simp

text \<open>A signed number of \<open>n\<close> bytes.\<close>

definition le_int :: "nat \<Rightarrow> byte list \<Rightarrow> int" where
  "le_int n bs = signed_take_bit (8 * n - 1) (le_val bs)"

lemma le_int_bytes:
  assumes "0 < n" "- (2 ^ (8 * n - 1)) \<le> i" "i < 2 ^ (8 * n - 1)"
  shows "le_int n (le_bytes n i) = i"
proof -
  have "le_int n (le_bytes n i) = signed_take_bit (8 * n - 1) (take_bit (8 * n) i)"
    by (simp add: le_int_def le_val_bytes take_bit_eq_mod power_mult)
  also have "\<dots> = signed_take_bit (8 * n - 1) i"
    using assms(1) by (simp add: signed_take_bit_take_bit) arith
  also have "\<dots> = i" using assms by (simp add: signed_take_bit_int_eq_self)
  finally show ?thesis .
qed

text \<open>\<open>binary.Read\<close> of a number of \<open>n\<close> bytes; \<^term>\<open>None\<close> when the reader runs out.\<close>

definition read_le :: "nat \<Rightarrow> byte list \<Rightarrow> (int \<times> byte list) option" where
  "read_le n bs = (if length bs < n then None else Some (le_int n (take n bs), drop n bs))"

lemma read_le_int64 [simp]: "in_int64 i \<Longrightarrow> read_le 8 (le_bytes 8 i @ bs) = Some (i, bs)"
  using le_int_bytes [of 8 i] by (simp add: read_le_def in_int64_def)

lemma read_le_int32 [simp]: "in_int32 i \<Longrightarrow> read_le 4 (le_bytes 4 i @ bs) = Some (i, bs)"
  using le_int_bytes [of 4 i] by (simp add: read_le_def in_int32_def)

section \<open>The application\<close>

type_synonym testApp = "int \<rightharpoonup> int"

definition newTestApp :: testApp where
  "newTestApp = Map.empty"

definition testApp_GetValue :: "testApp \<Rightarrow> int \<Rightarrow> int" where
  "testApp_GetValue a key = (case a key of None \<Rightarrow> 0 | Some v \<Rightarrow> v)"

definition testApp_AppendMessage :: "testApp \<Rightarrow> 'd Message \<Rightarrow> testApp \<times> bool \<times> int" where
  "testApp_AppendMessage a msg =
     (if MsgType msg = PutMsg then
        (case Value msg of
           None \<Rightarrow> (a, False, 0)
         | Some v \<Rightarrow> (a(Key msg \<mapsto> v), True, 0))
      else if MsgType msg = GetMsg then (a, True, testApp_GetValue a (Key msg))
      else if MsgType msg = DeleteMsg then (a(Key msg := None), True, 0)
      else (a, False, 0))"

fun snapshot_loop :: "testApp \<Rightarrow> int list \<Rightarrow> byte list" where
  "snapshot_loop a [] = []"
| "snapshot_loop a (k # ks) = le_bytes 8 k @ le_bytes 8 (testApp_GetValue a k) @ snapshot_loop a ks"

definition testApp_GetSnapshot :: "(testApp \<Rightarrow> int list) \<Rightarrow> testApp \<Rightarrow> string + byte list" where
  "testApp_GetSnapshot ord a = Inr (le_bytes 4 (int32 (go_len (ord a))) @ snapshot_loop a (ord a))"

fun restore_loop :: "nat \<Rightarrow> byte list \<Rightarrow> testApp \<Rightarrow> int \<Rightarrow> string + (testApp \<times> int)" where
  "restore_loop 0 bs newMap saveKeyValue = Inr (newMap, saveKeyValue)"
| "restore_loop (Suc n) bs newMap saveKeyValue =
     (case read_le 8 bs of
        None \<Rightarrow> Inl ''unexpected EOF''
      | Some (k64, bs) \<Rightarrow>
          (case read_le 8 bs of
             None \<Rightarrow> Inl ''unexpected EOF''
           | Some (v64, bs) \<Rightarrow> restore_loop n bs (newMap(k64 \<mapsto> v64)) k64))"

definition testApp_RestoreFromSnapshot :: "testApp \<Rightarrow> byte list \<Rightarrow> testApp \<times> string option \<times> int" where
  "testApp_RestoreFromSnapshot a bs =
     (case read_le 4 bs of
        None \<Rightarrow> (a, Some ''unexpected EOF'', 0)
      | Some (mapLen, bs) \<Rightarrow>
          (case restore_loop (nat mapLen) bs Map.empty 0 of
             Inl err \<Rightarrow> (a, Some err, 0)
           | Inr (newMap, key) \<Rightarrow> (newMap, None, key)))"

definition testApp_ops :: "(testApp \<Rightarrow> int list) \<Rightarrow> ('d, testApp) Application" where
  "testApp_ops ord = \<lparr>AppendMessage = testApp_AppendMessage, GetSnapshot = testApp_GetSnapshot ord,
     RestoreFromSnapshot = testApp_RestoreFromSnapshot, GetValue = testApp_GetValue\<rparr>"

section \<open>Snapshots restore the state\<close>

definition storable :: "testApp \<Rightarrow> bool" where
  "storable a \<longleftrightarrow> (\<forall>k v. a k = Some v \<longrightarrow> in_int64 k \<and> in_int64 v)"

lemma restore_snapshot_loop:
  assumes "storable a" and "set ks \<subseteq> dom a"
  shows "\<exists>key. restore_loop (length ks) (snapshot_loop a ks @ rest) m k0 = Inr (m ++ (a |` set ks), key)"
  using assms(2)
proof (induction ks arbitrary: m k0)
  case (Cons k ks)
  then obtain v where v: "a k = Some v" by auto
  then have w: "testApp_GetValue a k = v" "in_int64 k" "in_int64 v"
    using assms(1) by (auto simp: testApp_GetValue_def storable_def)
  have "m(k \<mapsto> v) ++ (a |` set ks) = m ++ (a |` set (k # ks))"
    by (rule ext) (auto simp: map_add_def restrict_map_def v split: option.splits)
  moreover obtain key where "restore_loop (length ks) (snapshot_loop a ks @ rest) (m(k \<mapsto> v)) k =
      Inr (m(k \<mapsto> v) ++ (a |` set ks), key)"
    using Cons.IH Cons.prems by (metis insert_subset list.simps(15))
  ultimately show ?case by (simp add: w)
qed (simp add: map_add_def)

text \<open>For every map whose keys and values fit 64 bits and that has fewer than 2^31 entries,
  restoring the bytes of \<open>GetSnapshot\<close> gives exactly that map back, in whatever order the snapshot
  lists the entries, and whatever the application held before.\<close>
theorem testApp_snapshot_roundtrip:
  assumes "storable b" and "range_order (ord b) b" and "length (ord b) < 2 ^ 31"
    and "GetSnapshot (testApp_ops ord :: ('d, testApp) Application) b = Inr bytes"
  shows "\<exists>key. RestoreFromSnapshot (testApp_ops ord :: ('d, testApp) Application) a bytes = (b, None, key)"
proof -
  have "in_int32 (go_len (ord b))" using assms(3) by (simp add: in_int32_def go_len_def)
  moreover have "b |` set (ord b) = b" using assms(2) by (auto simp: range_order_def restrict_map_def fun_eq_iff)
  moreover obtain key where "restore_loop (length (ord b)) (snapshot_loop b (ord b) @ []) Map.empty 0 =
      Inr (Map.empty ++ (b |` set (ord b)), key)"
    using restore_snapshot_loop [OF assms(1), of "ord b"] assms(2) by (metis range_order_def subset_refl)
  ultimately show ?thesis
    using assms(4) by (auto simp: testApp_ops_def testApp_GetSnapshot_def testApp_RestoreFromSnapshot_def go_len_def)
qed

definition small_order :: "testApp \<Rightarrow> int list" where
  "small_order a = filter (\<lambda>k. a k \<noteq> None) [0..3]"

theorem testApp_snapshot_roundtrip_witness:
  "\<exists>key. RestoreFromSnapshot (testApp_ops small_order :: (unit, testApp) Application) [3 \<mapsto> 9]
     (le_bytes 4 2 @ le_bytes 8 1 @ le_bytes 8 10 @ le_bytes 8 2 @ le_bytes 8 20) = ([1 \<mapsto> 10, 2 \<mapsto> 20], None, key)"
proof (rule testApp_snapshot_roundtrip [where ord = small_order and b = "[1 \<mapsto> 10, 2 \<mapsto> 20]"])
  have ord: "small_order [1 \<mapsto> 10, 2 \<mapsto> 20] = [1, 2]" by (simp add: small_order_def upto.simps)
  show "storable [1 \<mapsto> 10, 2 \<mapsto> 20]" by (auto simp: storable_def in_int64_def split: if_splits)
  show "range_order (small_order [1 \<mapsto> 10, 2 \<mapsto> 20]) [1 \<mapsto> 10, 2 \<mapsto> 20]" by (auto simp: ord range_order_def)
  show "length (small_order [1 \<mapsto> 10, 2 \<mapsto> 20]) < 2 ^ 31" by (simp add: ord)
  show "GetSnapshot (testApp_ops small_order :: (unit, testApp) Application) [1 \<mapsto> 10, 2 \<mapsto> 20] =
      Inr (le_bytes 4 2 @ le_bytes 8 1 @ le_bytes 8 10 @ le_bytes 8 2 @ le_bytes 8 20)"
    by (simp add: testApp_ops_def testApp_GetSnapshot_def ord testApp_GetValue_def in_int32_def)
qed

end
