(* ===== verification/Raft_Rounds.thy ===== *)
theory Raft_Rounds
  imports Raft_Replication Test_App
begin

text \<open>
  Rounds of replication: what a leader's commit, a request to a follower in step, and its
  acknowledgement achieve together, and where a conflicting request goes wrong.
\<close>

section \<open>Commit and requests\<close>

text \<open>C9: \<open>commitLogEntries\<close> of a leader commits exactly the entries that a majority of the cluster
  holds: a position behind the committed ones becomes committed if and only if more than half of the
  nodes, the leader included, acknowledged it. It does not panic, changes no entry, and
  applies exactly the newly committed entries to the application, in the order of the log.\<close>
theorem commitLogEntries_commits_majority:
  assumes "member r" and "snap_index r \<le> commitedLength r" and "commitedLength r \<le> abs_len r"
  shows "\<exists>r'. commitLogEntries ops r = Some r' \<and> raft_log r' = raft_log r \<and>
    commitedLength r \<le> commitedLength r' \<and> commitedLength r' \<le> abs_len r \<and>
    (\<forall>i. commitedLength r \<le> i \<and> i < abs_len r \<longrightarrow>
      (i < commitedLength r' \<longleftrightarrow> 2 * int (card (replicated_on r i)) > totalNodes r)) \<and>
    application r' = replay ops (application r)
      (take (nat (commitedLength r' - commitedLength r)) (drop (nat (commitedLength r - snap_index r)) (raft_log r)))"
proof -
  from commitLogEntries_eq [OF assms, of ops] obtain m where
    m: "commitLogEntries ops r = Some (deliver_all ops (r\<lparr>commitedLength := commitedLength r + int m\<rparr>)
        (map Msg (take m (drop (nat (commitedLength r - snap_index r)) (raft_log r)))))"
      "commitedLength r + int m \<le> abs_len r"
      "\<forall>i. commitedLength r \<le> i \<and> i < abs_len r \<longrightarrow>
        (i < commitedLength r + int m \<longleftrightarrow> 2 * int (card (replicated_on r i)) > totalNodes r)" by blast
  then show ?thesis by (simp add: deliver_all_application)
qed

text \<open>C35: When the first new entry of a request conflicts with an uncommitted entry of the follower, the
  follower cuts its log but appends with the length from before the cut: it loses entries of the
  request and still acknowledges all of them. Its reply claims more entries than its log holds,
  so the leader may count the node for entries it does not have.\<close>
theorem LogRequest_overacknowledges:
  assumes "rsm ops a full r" and "mapM from_pb_entry (Suffix args) = Some suf"
    and "currentTerm r \<le> lr_Term args" and "prefix_ok r (PrefixLen args) (PrefixTerm args)"
    and "first_conflict (snap_index r) (PrefixLen args) suf (raft_log r)"
    and "commitedLength r \<le> PrefixLen args" and "in_int32 (PrefixLen args + go_len suf)"
  shows "\<exists>r' resp. LogRequest ops r args = Some (r', resp) \<and> lr_Success resp \<and> Ack resp > abs_len r'"
proof -
  let ?p = "PrefixLen args" and ?full = "full_append (snap_index r) (PrefixLen args) suf full"
  have "keeps_committed r ?p suf" using assms(6) by (simp add: keeps_committed_def)
  from LogRequest_accept [OF assms(1-4) this] obtain r' where
    r': "LogRequest ops r args = Some (r', \<lparr>lr_NodeId = int32 (raft_id r), lr_CurrentTerm = int32 (lr_Term args),
        Ack = int32 (?p + go_len suf), lr_Success = True\<rparr>)" "rsm ops a ?full r'" by blast
  have r: "0 \<le> snap_index r" "snap_index r \<le> commitedLength r" "raft_log r = drop (nat (snap_index r)) full"
    using assms(1) by (simp_all add: rsm_def)
  have c: "suf \<noteq> []" "snap_index r \<le> ?p" "?p < go_len full" "first_conflict 0 ?p suf full"
    using assms(5) r by (auto simp: first_conflict_def go_len_def nat_diff_distrib)
  have "go_len ?full < ?p + go_len suf"
    using c r(1) by (simp add: full_append_def) (auto simp: go_len_def)
  with rsm_abs_len [OF r'(2)] r'(1) assms(7) show ?thesis by simp
qed

text \<open>
  A follower in step with a leader: same snapshot, its log the beginning of the leader's without the
  response channels, and the leader knows how far it is.
\<close>

definition in_step :: "('d, 'a) Raft \<Rightarrow> ('d, 'a) Raft \<Rightarrow> int \<Rightarrow> bool" where
  "in_step L F f \<longleftrightarrow> snap_index F = snap_index L \<and> lastTerm (snapshotter F) = lastTerm (snapshotter L) \<and>
     length (raft_log F) \<le> length (raft_log L) \<and>
     raft_log F = map strip_chan (take (length (raft_log F)) (raft_log L)) \<and>
     0 \<le> f \<and> f < go_len (sentLengths L) \<and> sentLengths L ! nat f = abs_len F + 1"

definition sendable :: "('d, 'a) Raft \<Rightarrow> bool" where
  "sendable L \<longleftrightarrow> in_int32 (raft_id L) \<and> in_int32 (currentTerm L) \<and> in_int32 (abs_len L) \<and>
     in_int32 (lastTerm (snapshotter L)) \<and> 0 \<le> commitedLength L \<and> commitedLength L \<le> abs_len L \<and>
     (\<forall>e \<in> set (raft_log L). wire_ok e)"

lemma in_step_next:
  assumes "in_step L F f"
  shows "\<exists>n. next_index L f = Some n \<and> n > snap_index L"
  using assms by (auto simp: in_step_def next_index_def go_index_def)

lemma prepare_in_step:
  assumes "in_step L F f" and "sendable L" and "0 \<le> snap_index L"
  shows "\<exists>args. prepareLogRequestArgs L f = Some (args, False) \<and> LeaderId args = raft_id L \<and>
    lr_Term args = currentTerm L \<and> PrefixLen args = abs_len F \<and> prefix_ok F (PrefixLen args) (PrefixTerm args) \<and>
    CommitLength args = commitedLength L \<and>
    mapM from_pb_entry (Suffix args) = Some (map strip_chan (drop (length (raft_log F)) (raft_log L)))"
proof -
  let ?k = "length (raft_log F)" and ?li = "snap_index L"
  have F: "snap_index F = ?li" "lastTerm (snapshotter F) = lastTerm (snapshotter L)" "?k \<le> length (raft_log L)"
    and log: "raft_log F = map strip_chan (take ?k (raft_log L))"
    using assms(1) by (simp_all add: in_step_def)
  have n: "next_index L f = Some (?li + int ?k + 1)"
    using assms(1,3) F(1) by (simp add: next_index_def go_index_def in_step_def go_len_def)
  define pt where "pt = (if ?li + int ?k = 0 then 0 else if ?k = 0 then lastTerm (snapshotter L) else Term (raft_log L ! (?k - 1)))"
  obtain ps where ps: "mapM to_pb_entry (drop ?k (raft_log L)) = Some ps"
    "mapM from_pb_entry ps = Some (map strip_chan (drop ?k (raft_log L)))"
    using mapM_wire [of "drop ?k (raft_log L)"] assms(2) by (auto simp: sendable_def dest: in_set_dropD)
  have "in_int32 (Term (raft_log L ! (?k - 1)))" if "?k \<noteq> 0"
  proof -
    have "raft_log L ! (?k - 1) \<in> set (raft_log L)" using that F(3) by (intro nth_mem) linarith
    then show ?thesis using assms(2) by (auto simp: sendable_def wire_ok_def)
  qed
  then have bounds: "in_int32 (?li + int ?k)" "in_int32 pt" "in_int32 (commitedLength L)"
    using assms(2,3) F(3) by (auto simp: sendable_def in_int32_def go_len_def pt_def)
  have t: "Term (raft_log F ! (?k - 1)) = Term (raft_log L ! (?k - 1))" if "?k \<noteq> 0"
  proof -
    have "?k - 1 < ?k" "?k - 1 < length (raft_log L)" using that F(3) by linarith+
    then show ?thesis by (subst log) simp
  qed
  have nk: "nat (int ?k - 1) = ?k - Suc 0" by arith
  have "prepareLogRequestArgs L f = Some (\<lparr>LeaderId = raft_id L, lr_Term = currentTerm L, PrefixLen = ?li + int ?k,
      PrefixTerm = pt, CommitLength = commitedLength L, Suffix = ps\<rparr>, False)"
    using assms(2,3) F(3) bounds ps(1)
    by (auto simp: prepareLogRequestArgs_def n sendable_def Let_def go_slice_from_def go_len_def pt_def nk)
  moreover have "prefix_ok F (?li + int ?k) pt"
    using F assms(3) t by (auto simp: prefix_ok_def pt_def go_len_def nk)
  ultimately show ?thesis using ps(2) F(1) by (simp add: go_len_def add.commute)
qed

text \<open>One round of replication from a leader to a reachable follower in step, whose term is not later: the
  replicator sends the request that \<open>prepareLogRequestArgs\<close> builds, the request is accepted, the follower acknowledges the leader's whole log and
  then has it, with nothing lost or reordered, it follows the leader's committed length, and
  its application has applied exactly the committed part.\<close>
theorem replication_round:
  assumes "in_step L F f" and "sendable L" and "rsm ops a full F" and "currentTerm F \<le> currentTerm L"
    and "currentRole L = Leader" and "available f" and "getPeer peers f"
  shows "\<exists>args F'. replicate_start available peers f L = Some (SendLog args False) \<and>
    LogRequest ops F args = Some (F', \<lparr>lr_NodeId = int32 (raft_id F), lr_CurrentTerm = currentTerm L,
      Ack = abs_len L, lr_Success = True\<rparr>) \<and>
    rsm ops a (full @ map strip_chan (drop (length (raft_log F)) (raft_log L))) F' \<and>
    commitedLength F' = max (commitedLength F) (commitedLength L) \<and> currentTerm F' = currentTerm L"
proof -
  let ?k = "length (raft_log F)"
  let ?suf = "map strip_chan (drop ?k (raft_log L))"
  have "0 \<le> snap_index L" using assms(1,3) by (simp add: rsm_def in_step_def)
  from prepare_in_step [OF assms(1,2) this] obtain args where
    args: "prepareLogRequestArgs L f = Some (args, False)" "LeaderId args = raft_id L" "lr_Term args = currentTerm L"
      "PrefixLen args = abs_len F" "prefix_ok F (PrefixLen args) (PrefixTerm args)" "CommitLength args = commitedLength L"
      "mapM from_pb_entry (Suffix args) = Some ?suf" by blast
  have nc: "\<not> first_conflict li (abs_len F) ?suf lg" if "go_len lg + li = abs_len F" for li and lg :: "'a LogEntry list"
    using that by (auto simp: first_conflict_def)
  have fa: "full_append (snap_index F) (abs_len F) ?suf full = full @ ?suf"
    using rsm_abs_len [OF assms(3)] nc [of full 0] by (simp add: full_append_def)
  have len: "abs_len F + go_len ?suf = abs_len L" "go_len (full @ ?suf) = abs_len L"
    using assms(1) rsm_abs_len [OF assms(3)] by (auto simp: in_step_def go_len_def)
  have "keeps_committed F (PrefixLen args) ?suf"
    using nc [of "raft_log F" "snap_index F"] args(4) by (simp add: keeps_committed_def)
  moreover have "currentTerm F \<le> lr_Term args" using args(3) assms(4) by simp
  ultimately obtain F' where
    F': "LogRequest ops F args = Some (F', \<lparr>lr_NodeId = int32 (raft_id F), lr_CurrentTerm = int32 (currentTerm L),
        Ack = int32 (abs_len L), lr_Success = True\<rparr>)" "rsm ops a (full @ ?suf) F'"
      "core F' = core (accept_leader F (LeaderId args) (lr_Term args))"
      "commitedLength F' = max (commitedLength F) (min (commitedLength L) (abs_len L))"
    using LogRequest_accept [OF assms(3) args(7) _ args(5)] unfolding fa args(3,4,6) len by blast
  have "currentTerm F' = currentTerm L" using F'(3) args(3) assms(4) by (simp add: core_def)
  moreover have "replicate_start available peers f L = Some (SendLog args False)"
    using args(1) assms(5-7) in_step_next [OF assms(1)] by (auto simp: replicate_start_def)
  ultimately show ?thesis using F' assms(2) by (simp add: sendable_def)
qed

lemma deliver_all_chans:
  "\<forall>m \<in> set ms. ResponseChan m \<noteq> Some c \<Longrightarrow> chans (deliver_all ops r ms) c = chans r c"
proof (induction ms arbitrary: r)
  case (Cons m ms)
  have "chans (deliverToApplication ops r m) c = chans r c"
    using Cons.prems by (auto simp: deliverToApplication_def respond_def split: prod.split option.split)
  with Cons show ?case by simp
qed simp

lemma deliver_answers:
  assumes "ResponseChan m = Some c" and "chans r c = None"
  shows "BroadcastSync_finish c (deliverToApplication ops r m) =
    (case AppendMessage ops (application r) m of (_, ok, v) \<Rightarrow> (ok, v, None))"
  using assms by (simp add: BroadcastSync_finish_def deliverToApplication_def respond_def split: prod.split)

lemma three_node_ack:
  assumes "member L" and "totalNodes L = 3" and "0 \<le> f" and "f < 3" and "f \<noteq> raft_id L" and "currentRole L = Leader"
    and "in_int32 (currentTerm L)" and "snap_index L \<le> commitedLength L" and "commitedLength L < abs_len L"
    and "lr_CurrentTerm resp = currentTerm L" and "lr_Success resp" and "Ack resp = abs_len L"
  shows "\<exists>r. replicate_response ops f resp L =
      Some (deliver_all ops r (map Msg (drop (nat (commitedLength L - snap_index L)) (raft_log L)))) \<and>
    commitedLength r = abs_len L \<and> application r = application L \<and> chans r = chans L"
proof -
  let ?r = "(on_replicator (\<lambda>p. p\<lparr>consecutiveFailures := 0\<rparr>) f L)
    \<lparr>sentLengths := (sentLengths L)[nat f := abs_len L + 1], ackedLengths := (ackedLengths L)[nat f := abs_len L]\<rparr>"
  have rr: "replicate_response ops f resp L = commitLogEntries ops ?r"
    using assms(1-7,10-12) by (simp add: replicate_response_def go_store_Some member_def)
  have mem: "member ?r" using assms(1) by (simp add: member_def)
  from commitLogEntries_eq [OF mem, of ops] assms(8,9) obtain m where
    m: "commitLogEntries ops ?r = Some (deliver_all ops (?r\<lparr>commitedLength := commitedLength L + int m\<rparr>)
        (map Msg (take m (drop (nat (commitedLength L - snap_index L)) (raft_log L)))))"
      "commitedLength L + int m \<le> abs_len L"
      "\<forall>i. commitedLength L \<le> i \<and> i < abs_len L \<longrightarrow>
        (i < commitedLength L + int m \<longleftrightarrow> 2 * int (card (replicated_on ?r i)) > totalNodes L)" by auto
  have "{raft_id L, f} \<subseteq> replicated_on ?r (abs_len L - 1)"
    using assms(1-5) by (auto simp: replicated_on_def member_def go_len_def)
  moreover have "finite (replicated_on ?r (abs_len L - 1))"
    by (rule finite_subset [of _ "insert (raft_id L) {0..<totalNodes L}"]) (auto simp: replicated_on_def)
  ultimately have "card {raft_id L, f} \<le> card (replicated_on ?r (abs_len L - 1))" by (intro card_mono)
  then have "commitedLength L + int m = abs_len L"
    using m(2) spec [OF m(3), of "abs_len L - 1"] assms(2,5,9) by auto
  then show ?thesis
    using m(1) assms(8) rr by (intro exI [of _ "?r\<lparr>commitedLength := abs_len L\<rparr>"]) (simp add: go_len_def)
qed

text \<open>In a three-node cluster the acknowledgement of one follower for the leader's whole log
  commits it: every entry behind the committed ones is applied, in the order of the log, and
  the client of the last entry finds the application's answer in its channel.\<close>
theorem three_node_commit:
  assumes "member L" and "totalNodes L = 3" and "0 \<le> f" and "f < 3" and "f \<noteq> raft_id L" and "currentRole L = Leader"
    and "in_int32 (currentTerm L)" and "rsm ops a full L" and "commitedLength L < abs_len L"
    and "lr_CurrentTerm resp = currentTerm L" and "lr_Success resp" and "Ack resp = abs_len L"
    and "ResponseChan (Msg (last (raft_log L))) = Some c" and "chans L c = None"
    and "\<forall>e \<in> set (butlast (raft_log L)). ResponseChan (Msg e) \<noteq> Some c"
  shows "\<exists>L'. replicate_response ops f resp L = Some L' \<and> commitedLength L' = abs_len L \<and>
    application L' = replay ops a full \<and>
    BroadcastSync_finish c L' =
      (case AppendMessage ops (replay ops a (butlast full)) (Msg (last full)) of (_, ok, v) \<Rightarrow> (ok, v, None))"
proof -
  define es where "es = drop (nat (commitedLength L - snap_index L)) (raft_log L)"
  have c: "snap_index L \<le> commitedLength L" "application L = replay ops a (take (nat (commitedLength L)) full)"
    "raft_log L = drop (nat (snap_index L)) full" "0 \<le> snap_index L" using assms(8) by (simp_all add: rsm_def)
  from three_node_ack [OF assms(1-7) c(1) assms(9-12), of ops] obtain r where
    r: "replicate_response ops f resp L = Some (deliver_all ops r (map Msg es))" "commitedLength r = abs_len L"
      "application r = application L" "chans r = chans L" unfolding es_def by blast
  have es: "es \<noteq> []" "last es = last (raft_log L)" "set (butlast es) \<subseteq> set (butlast (raft_log L))"
    using assms(9) c(1) set_drop_subset [of "nat (commitedLength L - snap_index L)" "butlast (raft_log L)"]
    by (auto simp: es_def go_len_def butlast_drop)
  have full: "full = take (nat (commitedLength L)) full @ es"
    using c by (simp add: es_def nat_diff_distrib nat_mono)
  have bl: "butlast full = take (nat (commitedLength L)) full @ butlast es"
    using arg_cong [OF full, of butlast] es(1) by (simp add: butlast_append)
  let ?q = "deliver_all ops r (map Msg (butlast es))"
  have "map Msg es = map Msg (butlast es) @ [Msg (last es)]"
    using arg_cong [OF append_butlast_last_id [OF es(1)], of "map Msg"] by simp
  then have "replicate_response ops f resp L = Some (deliverToApplication ops ?q (Msg (last es)))" by (simp add: r(1))
  moreover have q: "chans ?q c = None" "application ?q = replay ops a (butlast full)"
    using assms(14,15) es(3) r(3,4) by (auto simp: deliver_all_chans deliver_all_application c(2) bl subset_iff)
  moreover have "last full = last es" using es(1) by (subst full) simp
  moreover have "full = butlast full @ [last full]" using full es(1) by (metis append_butlast_last_id append_is_Nil_conv)
  ultimately show ?thesis
    using deliver_answers [of "Msg (last es)" c ?q ops] assms(13) es(2) r(2)
    by (auto simp: replay_def app_step_def foldl_append dest!: arg_cong [of full _ "replay ops a"])
qed

section \<open>A cluster of three\<close>

text \<open>A leader with one entry that nobody else has yet, and a follower, on the reference application.\<close>

definition example_ops :: "(unit, testApp) Application" where
  "example_ops = testApp_ops small_order"

definition example_put :: "int \<Rightarrow> int \<Rightarrow> nat option \<Rightarrow> unit Message" where
  "example_put k v ch = \<lparr>MsgType = PutMsg, Key = k, Value = Some v, Data = (), ResponseChan = ch,
     IdempotencyToken = [], ClientID = []\<rparr>"

definition example_node :: "int \<Rightarrow> (unit, testApp) Raft" where
  "example_node i = initial_raft newTestApp i 3 100 (NewRaftDataSaver None None None)"

definition example_leader :: "(unit, testApp) Raft" where
  "example_leader = (example_node 0)\<lparr>currentTerm := 1, votedFor := 0, currentRole := Leader, currentLeaderId := 0,
     raft_log := [\<lparr>Term = 1, Msg = example_put 1 10 (Some 7)\<rparr>], sentLengths := [0, 1, 1], ackedLengths := [1, 0, 0]\<rparr>"

definition example_follower :: "(unit, testApp) Raft" where
  "example_follower = (example_node 1)\<lparr>currentTerm := 1\<rparr>"

lemmas example_defs = example_ops_def testApp_ops_def example_put_def example_node_def example_leader_def
  example_follower_def initial_raft_def newSnapshotter_def NewRaftDataSaver_def newTestApp_def

lemma example_member: "member example_leader"
  by (simp add: member_def example_defs go_len_def)

lemma example_rsm: "rsm example_ops newTestApp (raft_log example_leader) example_leader"
  by (simp add: rsm_def example_defs go_len_def)

theorem commitLogEntries_commits_majority_witness:
  "\<exists>r'. commitLogEntries example_ops (example_leader\<lparr>ackedLengths := [1, 0, 1]\<rparr>) = Some r' \<and>
    (0 < commitedLength r' \<longleftrightarrow> 2 * int (card (replicated_on (example_leader\<lparr>ackedLengths := [1, 0, 1]\<rparr>) 0)) > 3)"
  using commitLogEntries_commits_majority [of "example_leader\<lparr>ackedLengths := [1, 0, 1]\<rparr>" example_ops]
  by (auto simp: member_def example_defs go_len_def)

theorem replication_round_witness:
  "\<exists>args F'. replicate_start (\<lambda>_. True) (\<lambda>_. True) 1 example_leader = Some (SendLog args False) \<and>
    LogRequest example_ops example_follower args = Some (F', \<lparr>lr_NodeId = 1, lr_CurrentTerm = 1, Ack = 1, lr_Success = True\<rparr>)"
proof -
  have "in_step example_leader example_follower 1" by (simp add: in_step_def example_defs go_len_def)
  moreover have "sendable example_leader" by (simp add: sendable_def example_defs in_int32_def wire_ok_def)
  moreover have "rsm example_ops newTestApp [] example_follower" by (simp add: rsm_def example_defs)
  moreover have "currentTerm example_follower \<le> currentTerm example_leader" by (simp add: example_defs)
  ultimately show ?thesis
    using replication_round [of example_leader example_follower 1 example_ops newTestApp "[]" "\<lambda>_. True" "\<lambda>_. True"]
    by (auto simp: example_defs in_int32_def getPeer_def)
qed

theorem three_node_commit_witness:
  "\<exists>L'. replicate_response example_ops 2 \<lparr>lr_NodeId = 2, lr_CurrentTerm = 1, Ack = 1, lr_Success = True\<rparr> example_leader = Some L' \<and>
    application L' = replay example_ops newTestApp (raft_log example_leader) \<and> BroadcastSync_finish 7 L' = (True, 0, None)"
proof -
  have "\<exists>L'. replicate_response example_ops 2 \<lparr>lr_NodeId = 2, lr_CurrentTerm = 1, Ack = 1, lr_Success = True\<rparr> example_leader = Some L' \<and>
    commitedLength L' = abs_len example_leader \<and> application L' = replay example_ops newTestApp (raft_log example_leader) \<and>
    BroadcastSync_finish 7 L' = (case AppendMessage example_ops (replay example_ops newTestApp (butlast (raft_log example_leader)))
      (Msg (last (raft_log example_leader))) of (_, ok, v) \<Rightarrow> (ok, v, None))"
    by (rule three_node_commit [OF example_member _ _ _ _ _ _ example_rsm]) (simp_all add: example_defs in_int32_def go_len_def)
  then show ?thesis by (auto simp: example_defs testApp_AppendMessage_def)
qed

definition example_conflict :: "(unit, testApp) Raft" where
  "example_conflict = (example_node 1)\<lparr>currentTerm := 2, raft_log := [\<lparr>Term = 1, Msg = example_put 1 10 None\<rparr>,
     \<lparr>Term = 1, Msg = example_put 2 20 None\<rparr>]\<rparr>"

definition example_request :: "unit LogRequestArgs" where
  "example_request = \<lparr>LeaderId = 0, lr_Term = 2, PrefixLen = 0, PrefixTerm = 0, CommitLength = 0,
     Suffix = [\<lparr>pb_Term = 2, pb_Msg = Some \<lparr>pb_Type = 1, pb_Key = 3, pb_Value = Some 30, pb_CommandPayload = (),
       pb_IdempotencyToken = [], pb_ClientId = []\<rparr>\<rparr>]\<rparr>"

theorem LogRequest_overacknowledges_witness:
  "\<exists>r' resp. LogRequest example_ops example_conflict example_request = Some (r', resp) \<and> lr_Success resp \<and> Ack resp > abs_len r'"
proof -
  obtain e where e: "mapM from_pb_entry (Suffix example_request) = Some [e]" "Term e = 2"
    by (simp add: example_request_def from_pb_entry_def)
  show ?thesis
    by (rule LogRequest_overacknowledges [OF _ e(1), of _ newTestApp "raft_log example_conflict"])
      (simp_all add: rsm_def example_conflict_def example_request_def example_defs e(2) prefix_ok_def first_conflict_def in_int32_def)
qed

section \<open>Delivery outside the mutex\<close>

definition example_two_puts :: "(unit, testApp) Raft" where
  "example_two_puts = example_leader\<lparr>raft_log := [\<lparr>Term = 1, Msg = example_put 1 10 None\<rparr>,
     \<lparr>Term = 1, Msg = example_put 1 20 None\<rparr>], ackedLengths := [2, 1, 0]\<rparr>"

text \<open>Because \<open>commitLogEntries\<close> releases the mutex before it delivers, two commits can overtake each
  other: the first acknowledgement commits the first of two puts of one key, the second
  acknowledgement commits the second, and when the second delivery runs before the first, the leader's
  application ends in a state that no replay of the log reaches: it keeps the older value.\<close>
theorem commit_delivery_race:
  "\<exists>r1 ms1 r2 ms2. commit_locked example_two_puts = Some (r1, ms1) \<and>
     commit_locked (r1\<lparr>ackedLengths := [2, 1, 2]\<rparr>) = Some (r2, ms2) \<and> commitedLength r2 = 2 \<and>
     application (deliver_all example_ops (deliver_all example_ops r2 ms2) ms1) 1 = Some 10 \<and>
     replay example_ops newTestApp (raft_log r2) 1 = Some 20"
proof -
  let ?m = "\<lambda>v. example_put 1 v None"
  have 1: "commit_locked example_two_puts = Some (example_two_puts\<lparr>commitedLength := 1\<rparr>, [?m 10])"
    by (simp add: commit_locked_def commit_loop.simps upto.simps majority_eq go_index_def example_two_puts_def example_defs)
  have 2: "commit_locked (example_two_puts\<lparr>commitedLength := 1, ackedLengths := [2, 1, 2]\<rparr>) =
      Some (example_two_puts\<lparr>commitedLength := 2, ackedLengths := [2, 1, 2]\<rparr>, [?m 20])"
    by (simp add: commit_locked_def commit_loop.simps upto.simps majority_eq go_index_def example_two_puts_def example_defs)
  have "application (deliver_all example_ops r [?m 20, ?m 10]) 1 = Some 10" for r
    by (simp add: app_step_def testApp_AppendMessage_def example_defs)
  moreover have "replay example_ops newTestApp (raft_log example_two_puts) 1 = Some 20"
    by (simp add: app_step_def testApp_AppendMessage_def example_two_puts_def example_defs)
  ultimately show ?thesis using 1 2 by simp
qed
end
