(* ===== verification/Raft_Snapshot.thy ===== *)
theory Raft_Snapshot
  imports Raft_Rounds
begin

text \<open>
  Snapshot transfer: the leader's \<open>sendInstallSnapshotRPC\<close>, which cuts its snapshot file into
  blocks, and the follower's \<open>InstallSnapshot\<close>, which writes them, cuts its log, and restores the
  application when the last block has come.
\<close>

section \<open>The follower\<close>

definition install_log :: "int \<Rightarrow> int \<Rightarrow> int \<Rightarrow> 'd LogEntry list \<Rightarrow> 'd LogEntry list" where
  "install_log li lastIncludedIndex lastIncludedTerm lg =
     (let currentLastIndex = li + go_len lg
      in if currentLastIndex > lastIncludedIndex then
           let relativeIndex = lastIncludedIndex - li
           in if relativeIndex \<ge> 0 \<and> relativeIndex < go_len lg \<and> Term (lg ! nat relativeIndex) = lastIncludedTerm
              then drop (nat (relativeIndex + 1)) lg
              else []
         else [])"

definition snapshot_leader :: "('d, 'a) Raft \<Rightarrow> InstallSnapshotRequest \<Rightarrow> ('d, 'a) Raft" where
  "snapshot_leader r req =
     (let r = (if is_LeaderTerm req > currentTerm r
               then ResetTimer (r\<lparr>currentTerm := is_LeaderTerm req, currentRole := Follower,
                                  currentLeaderId := is_LeaderId req\<rparr>)
               else r)
      in r\<lparr>currentLeaderId := is_LeaderId req\<rparr>)"

definition restore_snapshot :: "('d, 'a) Application \<Rightarrow> ('d, 'a) Raft \<Rightarrow> InstallSnapshotRequest \<Rightarrow>
    ('d, 'a) Raft \<times> string option" where
  "restore_snapshot ops r req =
     (let r = r\<lparr>raft_log := install_log (snap_index r) (LastIncludedIndex req) (LastIncludedTerm req) (raft_log r)\<rparr>
      in case snapshotFile (logSaver r) of
           None \<Rightarrow> (r, Some ''no such file'')
         | Some snapshot \<Rightarrow>
             (case RestoreFromSnapshot ops (application r) snapshot of
                (app, Some err, _) \<Rightarrow> (r\<lparr>application := app\<rparr>, Some err)
              | (app, None, _) \<Rightarrow>
                  (request_save (ResetTimer
                     (r\<lparr>application := app,
                        snapshotter := (snapshotter r)\<lparr>lastIndex := LastIncludedIndex req,
                                                       lastTerm := LastIncludedTerm req\<rparr>,
                        commitedLength := (if commitedLength r < LastIncludedIndex req
                                           then LastIncludedIndex req else commitedLength r)\<rparr>)),
                   None)))"

text \<open>The reply is the term from before the request, and possibly an error.\<close>

definition InstallSnapshot :: "('d, 'a) Application \<Rightarrow> ('d, 'a) Raft \<Rightarrow> InstallSnapshotRequest \<Rightarrow>
    ('d, 'a) Raft \<times> int \<times> string option" where
  "InstallSnapshot ops r0 req =
     (let r = ResetTimer r0;
          defaultResponse = int32 (currentTerm r)
      in if is_LeaderTerm req < currentTerm r then (r, defaultResponse, None)
         else
           let r = snapshot_leader r req
           in case WriteSnapshotData (is_Data req) (Offset req) (logSaver r) of
                (rds, Inl err) \<Rightarrow> (r\<lparr>logSaver := rds\<rparr>, defaultResponse, Some err)
              | (rds, Inr _) \<Rightarrow>
                  let r = r\<lparr>logSaver := rds\<rparr>
                  in if \<not> Done req then (r, defaultResponse, None)
                     else (case restore_snapshot ops r req of (r, err) \<Rightarrow> (r, defaultResponse, err)))"

section \<open>The leader\<close>

definition chunkSize :: nat where
  "chunkSize = 128 * 1024"

lemma chunkSize_pos [simp]: "0 < chunkSize"
  by (simp add: chunkSize_def)

text \<open>The requests of one transfer: \<open>mk\<close> builds a request from offset, block and the last-block flag.\<close>

function snapshot_requests :: "nat \<Rightarrow> (nat \<Rightarrow> byte list \<Rightarrow> bool \<Rightarrow> InstallSnapshotRequest) \<Rightarrow> nat \<Rightarrow> byte list \<Rightarrow>
    InstallSnapshotRequest list" where
  "snapshot_requests totalSize mk offset file =
     (if file = [] then []
      else
        let chunk = take chunkSize file;
            n = length chunk;
            is_done = (offset + n \<ge> totalSize)
        in mk offset chunk is_done #
           (if is_done then [] else snapshot_requests totalSize mk (offset + n) (drop chunkSize file)))"
  by pat_completeness auto
termination
  by (relation "measure (\<lambda>(t, mk, off, file). length file)") (auto simp: length_greater_0_conv)

declare snapshot_requests.simps [simp del]

definition snapshot_request :: "('d, 'a) Raft \<Rightarrow> nat \<Rightarrow> byte list \<Rightarrow> bool \<Rightarrow> InstallSnapshotRequest" where
  "snapshot_request r offset chunk is_done =
     \<lparr>is_LeaderTerm = int32 (currentTerm r), is_LeaderId = int32 (raft_id r),
      LastIncludedIndex = int32 (snap_index r), LastIncludedTerm = int32 (lastTerm (snapshotter r)),
      Offset = int32 (int offset), is_Data = chunk, Done = is_done\<rparr>"

text \<open>
  The exchange, with the follower's state beside the leader's: \<open>net i\<close> says whether call \<open>i\<close> gets
  through. The last component says whether the transfer ran to its end.
\<close>

fun transfer :: "('d, 'a) Application \<Rightarrow> (nat \<Rightarrow> bool) \<Rightarrow> nat \<Rightarrow> InstallSnapshotRequest list \<Rightarrow>
    ('d, 'a) Raft \<Rightarrow> ('d, 'a) Raft \<Rightarrow> ('d, 'a) Raft \<times> ('d, 'a) Raft \<times> bool" where
  "transfer ops net i [] r s = (r, s, True)"
| "transfer ops net i (req # reqs) r s =
     (if \<not> net i then (r, s, False)
      else (case InstallSnapshot ops s req of
              (s', respTerm, Some err) \<Rightarrow> (r, s', False)
            | (s', respTerm, None) \<Rightarrow>
                if respTerm > currentTerm r
                then (ResetTimer (r\<lparr>currentTerm := respTerm, currentRole := Follower, votedFor := -1\<rparr>), s', False)
                else transfer ops net (i + 1) reqs r s'))"

definition sendInstallSnapshotRPC :: "('d, 'a) Application \<Rightarrow> (int \<Rightarrow> bool) \<Rightarrow> (nat \<Rightarrow> bool) \<Rightarrow> int \<Rightarrow>
    ('d, 'a) Raft \<Rightarrow> ('d, 'a) Raft \<Rightarrow> (('d, 'a) Raft \<times> ('d, 'a) Raft) option" where
  "sendInstallSnapshotRPC ops peers net f r s =
     (case snapshotFile (logSaver r) of
        None \<Rightarrow> Some (r, s)
      | Some file \<Rightarrow>
          let reqs = snapshot_requests (length file) (snapshot_request r) 0 file
          in if reqs \<noteq> [] \<and> \<not> getPeer peers f then None
             else (case transfer ops net 0 reqs r s of
                     (r', s', False) \<Rightarrow> Some (r', s')
                   | (r', s', True) \<Rightarrow> do {
                       sent \<leftarrow> go_store (sentLengths r') f (snap_index r + 1);
                       acked \<leftarrow> go_store (ackedLengths r') f (snap_index r);
                       Some (r'\<lparr>sentLengths := sent, ackedLengths := acked\<rparr>, s')
                     }))"

definition ReadSnapshotData :: "'d DataSaver \<Rightarrow> string + byte list option" where
  "ReadSnapshotData rds = Inr (snapshotFile rds)"

section \<open>A transfer delivers the snapshot\<close>

lemma write_at_take:
  "off \<le> length xs \<Longrightarrow> write_at (take off xs) off (take n (drop off xs)) = take (off + n) xs"
  by (simp add: write_at_def take_add)

lemma WriteSnapshotData_chunk:
  assumes "off = 0 \<or> snapshotFile rds = Some (take off xs)" and "off \<le> length xs"
  shows "WriteSnapshotData (take n (drop off xs)) (int off) rds =
    (rds\<lparr>snapshotFile := Some (take (off + n) xs)\<rparr>, Inr (go_len (take n (drop off xs))))"
proof (cases "off = 0")
  case True
  then show ?thesis using write_at_take [of 0 xs n] by (simp add: WriteSnapshotData_def)
next
  case False
  then show ?thesis using assms by (simp add: WriteSnapshotData_def write_at_take)
qed

lemma snapshot_leader_frame [simp]:
  "raft_id (snapshot_leader r req) = raft_id r" "totalNodes (snapshot_leader r req) = totalNodes r"
  "votedFor (snapshot_leader r req) = votedFor r" "votesReceived (snapshot_leader r req) = votesReceived r"
  "raft_log (snapshot_leader r req) = raft_log r" "commitedLength (snapshot_leader r req) = commitedLength r"
  "application (snapshot_leader r req) = application r" "snapshotter (snapshot_leader r req) = snapshotter r"
  "logSaver (snapshot_leader r req) = logSaver r" "currentLeaderId (snapshot_leader r req) = is_LeaderId req"
  "currentTerm (snapshot_leader r req) = max (currentTerm r) (is_LeaderTerm req)"
  by (simp_all add: snapshot_leader_def Let_def)

text \<open>Where a node stands in a transfer of \<open>xs\<close> after \<open>off\<close> bytes.\<close>

definition receiving :: "byte list \<Rightarrow> nat \<Rightarrow> ('d, 'a) Raft \<Rightarrow> bool" where
  "receiving xs off s \<longleftrightarrow> off = 0 \<or> snapshotFile (logSaver s) = Some (take off xs)"

lemma InstallSnapshot_chunk:
  assumes "receiving xs off s" and "off \<le> length xs" and "in_int32 (int off)"
    and "currentTerm s \<le> int32 (currentTerm r)"
  shows "\<exists>s1. receiving xs (off + n) s1 \<and> snapshotFile (logSaver s1) = Some (take (off + n) xs) \<and> data s1 = data s \<and>
      currentTerm s1 = int32 (currentTerm r) \<and> currentLeaderId s1 = int32 (raft_id r) \<and>
      InstallSnapshot ops s (snapshot_request r off (take n (drop off xs)) is_done) =
        (if \<not> is_done then (s1, int32 (currentTerm s), None)
         else (case restore_snapshot ops s1 (snapshot_request r off (take n (drop off xs)) is_done) of
                 (s2, err) \<Rightarrow> (s2, int32 (currentTerm s), err)))"
proof -
  let ?req = "snapshot_request r off (take n (drop off xs)) is_done"
  let ?s0 = "snapshot_leader (ResetTimer s) ?req"
  let ?s1 = "?s0\<lparr>logSaver := (logSaver ?s0)\<lparr>snapshotFile := Some (take (off + n) xs)\<rparr>\<rparr>"
  have req: "is_Data ?req = take n (drop off xs)" "Offset ?req = int off" "is_LeaderTerm ?req = int32 (currentTerm r)"
    "Done ?req = is_done" "is_LeaderId ?req = int32 (raft_id r)"
    using assms(3) by (simp_all add: snapshot_request_def)
  have ls: "logSaver ?s0 = logSaver s" by (simp add: ResetTimer_def)
  have w: "WriteSnapshotData (is_Data ?req) (Offset ?req) (logSaver ?s0) =
      ((logSaver ?s0)\<lparr>snapshotFile := Some (take (off + n) xs)\<rparr>, Inr (go_len (take n (drop off xs))))"
    using WriteSnapshotData_chunk [of off "logSaver s" xs n] assms(1,2) unfolding req ls by (simp add: receiving_def)
  have "InstallSnapshot ops s ?req =
        (if \<not> is_done then (?s1, int32 (currentTerm s), None)
         else (case restore_snapshot ops ?s1 ?req of (s2, err) \<Rightarrow> (s2, int32 (currentTerm s), err)))"
    using assms(4) unfolding InstallSnapshot_def Let_def w by (simp add: req)
  moreover have "receiving xs (off + n) ?s1" by (simp add: receiving_def)
  ultimately show ?thesis
    using assms(4) by (intro exI [of _ ?s1]) (simp add: data_def req ResetTimer_def)
qed

lemma restore_snapshot_ok:
  assumes "snapshotFile (logSaver s) = Some xs" and "RestoreFromSnapshot ops (application s) xs = (app, None, key)"
  shows "\<exists>s'. restore_snapshot ops s req = (s', None) \<and> application s' = app \<and>
    snapshotter s' = (snapshotter s)\<lparr>lastIndex := LastIncludedIndex req, lastTerm := LastIncludedTerm req\<rparr> \<and>
    commitedLength s' = max (commitedLength s) (LastIncludedIndex req) \<and>
    raft_log s' = install_log (snap_index s) (LastIncludedIndex req) (LastIncludedTerm req) (raft_log s) \<and>
    snapshotFile (logSaver s') = Some xs \<and> currentTerm s' = currentTerm s \<and> currentLeaderId s' = currentLeaderId s"
  using assms by (simp add: restore_snapshot_def Let_def) (simp add: request_save_def SaveValues_def)

text \<open>The node after a transfer from \<open>r\<close>.\<close>

definition installed :: "('d, 'a) Raft \<Rightarrow> byte list \<Rightarrow> 'a \<Rightarrow> ('d, 'a) Raft \<Rightarrow> ('d, 'a) Raft \<Rightarrow> bool" where
  "installed r xs app s s' \<longleftrightarrow> snapshotFile (logSaver s') = Some xs \<and> application s' = app \<and>
     snap_index s' = int32 (snap_index r) \<and> lastTerm (snapshotter s') = int32 (lastTerm (snapshotter r)) \<and>
     commitedLength s' = max (commitedLength s) (int32 (snap_index r)) \<and>
     raft_log s' = install_log (snap_index s) (int32 (snap_index r)) (int32 (lastTerm (snapshotter r))) (raft_log s) \<and>
     currentTerm s' = int32 (currentTerm r) \<and> currentLeaderId s' = int32 (raft_id r)"

lemma transfer_installs:
  assumes "receiving xs off s" and "off < length xs" and "length xs < 2 ^ 31"
    and "0 \<le> currentTerm s" and "currentTerm s \<le> int32 (currentTerm r)" and "int32 (currentTerm r) \<le> currentTerm r"
    and "\<forall>j. net j" and "RestoreFromSnapshot ops (application s) xs = (app, None, key)"
  shows "\<exists>s'. transfer ops net i (snapshot_requests (length xs) (snapshot_request r) off (drop off xs)) r s = (r, s', True) \<and>
    installed r xs app s s'"
  using assms(1,2,4,5,8)
proof (induction "length xs - off" arbitrary: off s i rule: less_induct)
  case less
  define fin where "fin \<longleftrightarrow> length xs \<le> off + chunkSize"
  define req where "req = snapshot_request r off (take chunkSize (drop off xs)) fin"
  define rest where "rest = snapshot_requests (length xs) (snapshot_request r) (off + chunkSize) (drop (off + chunkSize) xs)"
  have reqs: "snapshot_requests (length xs) (snapshot_request r) off (drop off xs) = req # (if fin then [] else rest)"
    unfolding req_def rest_def fin_def using less.prems(2)
    by (subst snapshot_requests.simps) (auto simp: min_def Let_def add.commute)
  have i32: "in_int32 (int off)" using less.prems(2) assms(3) by (simp add: in_int32_def)
  have tm: "int32 (currentTerm s) = currentTerm s"
    using less.prems(3,4) in_int32_int32 [of "currentTerm r"] by (intro int32_id) (simp add: in_int32_def)
  from InstallSnapshot_chunk [OF less.prems(1) _ i32 less.prems(4), of chunkSize ops fin] less.prems(2) obtain s1 where
    s1: "receiving xs (off + chunkSize) s1" "snapshotFile (logSaver s1) = Some (take (off + chunkSize) xs)" "data s1 = data s"
      "currentTerm s1 = int32 (currentTerm r)" "currentLeaderId s1 = int32 (raft_id r)"
      "InstallSnapshot ops s req = (if \<not> fin then (s1, int32 (currentTerm s), None)
         else (case restore_snapshot ops s1 req of (s2, err) \<Rightarrow> (s2, int32 (currentTerm s), err)))"
    unfolding req_def by auto
  have t: "\<not> currentTerm s > currentTerm r" using less.prems(4) assms(6) by simp
  have app1: "RestoreFromSnapshot ops (application s1) xs = (app, None, key)" using less.prems(5) s1(3) by (simp add: data_def)
  show ?case
  proof (cases fin)
    case True
    then have "snapshotFile (logSaver s1) = Some xs" using s1(2) by (simp add: fin_def)
    from restore_snapshot_ok [OF this app1, of req] obtain s' where
      s': "restore_snapshot ops s1 req = (s', None)" "installed r xs app s s'"
      using s1(3-5) by (auto simp: installed_def data_def req_def snapshot_request_def)
    with True s1(6) t tm assms(7) show ?thesis unfolding reqs by simp
  next
    case False
    then have n: "off + chunkSize < length xs" by (simp add: fin_def)
    have "\<exists>s'. transfer ops net (i + 1) rest r s1 = (r, s', True) \<and> installed r xs app s1 s'"
      unfolding rest_def using n s1(1,4) app1 less.prems(2-4) by (intro less.hyps) (auto intro!: diff_less_mono2)
    moreover have "transfer ops net i (req # rest) r s = transfer ops net (i + 1) rest r s1"
      using False s1(6) t tm assms(7) by simp
    moreover have "installed r xs app s s'" if "installed r xs app s1 s'" for s'
      using that s1(3) by (simp add: installed_def data_def)
    ultimately show ?thesis using False unfolding reqs by auto
  qed
qed

definition can_transfer :: "(int \<Rightarrow> bool) \<Rightarrow> int \<Rightarrow> ('d, 'a) Raft \<Rightarrow> byte list \<Rightarrow> ('d, 'a) Raft \<Rightarrow> bool" where
  "can_transfer peers f r xs s \<longleftrightarrow> member r \<and> 0 \<le> f \<and> f < totalNodes r \<and> getPeer peers f \<and>
     snapshotFile (logSaver r) = Some xs \<and> xs \<noteq> [] \<and> length xs < 2 ^ 31 \<and>
     in_int32 (currentTerm r) \<and> in_int32 (raft_id r) \<and> in_int32 (snap_index r) \<and> in_int32 (lastTerm (snapshotter r)) \<and>
     0 \<le> currentTerm s \<and> currentTerm s \<le> currentTerm r"

lemma send_installs:
  assumes "can_transfer peers f r xs s" and "\<forall>j. net j" and "RestoreFromSnapshot ops (application s) xs = (app, None, key)"
  shows "\<exists>s'. sendInstallSnapshotRPC ops peers net f r s = Some (r\<lparr>sentLengths := (sentLengths r)[nat f := snap_index r + 1],
      ackedLengths := (ackedLengths r)[nat f := snap_index r]\<rparr>, s') \<and> installed r xs app s s'"
proof -
  have "\<exists>s'. transfer ops net 0 (snapshot_requests (length xs) (snapshot_request r) 0 (drop 0 xs)) r s = (r, s', True) \<and>
      installed r xs app s s'"
    using assms by (intro transfer_installs) (auto simp: receiving_def can_transfer_def)
  then obtain s' where s': "transfer ops net 0 (snapshot_requests (length xs) (snapshot_request r) 0 xs) r s = (r, s', True)"
    "installed r xs app s s'" by auto
  then have "sendInstallSnapshotRPC ops peers net f r s = Some (r\<lparr>sentLengths := (sentLengths r)[nat f := snap_index r + 1],
      ackedLengths := (ackedLengths r)[nat f := snap_index r]\<rparr>, s')"
    using assms(1) by (simp add: sendInstallSnapshotRPC_def go_store_Some member_def can_transfer_def)
  with s'(2) show ?thesis by blast
qed

text \<open>When every block gets through, the follower is not in a later term, and its application
  accepts the snapshot, \<open>sendInstallSnapshotRPC\<close> ends without a panic: whatever the number of
  blocks, the follower's snapshot file is the leader's byte for byte, its application is the restored
  one, its snapshot position and term are the leader's, and the leader's tables count the
  follower up to that position.\<close>
theorem snapshot_transfer:
  assumes "can_transfer peers f r xs s" and "\<forall>j. net j" and "RestoreFromSnapshot ops (application s) xs = (app, None, key)"
  shows "\<exists>r' s'. sendInstallSnapshotRPC ops peers net f r s = Some (r', s') \<and>
    snapshotFile (logSaver s') = Some xs \<and> application s' = app \<and>
    snap_index s' = snap_index r \<and> lastTerm (snapshotter s') = lastTerm (snapshotter r) \<and>
    commitedLength s' = max (commitedLength s) (snap_index r) \<and>
    currentTerm s' = currentTerm r \<and> currentLeaderId s' = raft_id r \<and>
    sentLengths r' = (sentLengths r)[nat f := snap_index r + 1] \<and> ackedLengths r' = (ackedLengths r)[nat f := snap_index r]"
proof -
  from send_installs [OF assms] obtain s' where
    s': "sendInstallSnapshotRPC ops peers net f r s = Some (r\<lparr>sentLengths := (sentLengths r)[nat f := snap_index r + 1],
      ackedLengths := (ackedLengths r)[nat f := snap_index r]\<rparr>, s')" "installed r xs app s s'" by blast
  show ?thesis
    using s' assms(1) by (intro exI [of _ "r\<lparr>sentLengths := (sentLengths r)[nat f := snap_index r + 1],
      ackedLengths := (ackedLengths r)[nat f := snap_index r]\<rparr>"] exI [of _ s']) (simp add: installed_def can_transfer_def)
qed

definition example_source :: "(unit, testApp) Raft" where
  "example_source = example_leader\<lparr>logSaver := (logSaver example_leader)\<lparr>snapshotFile := Some (le_bytes 4 0)\<rparr>,
     snapshotter := (snapshotter example_leader)\<lparr>lastIndex := 2, lastTerm := 1\<rparr>, commitedLength := 2\<rparr>"

lemma example_snap_index: "snap_index example_source = 2"
  by (simp add: example_source_def)

lemma example_can_transfer: "can_transfer (\<lambda>_. True) 1 example_source (le_bytes 4 0) example_follower"
proof -
  have "le_bytes 4 0 \<noteq> []" using length_le_bytes [of 4 0] by (intro notI) simp
  then show ?thesis
    by (simp add: can_transfer_def member_def getPeer_def example_source_def example_defs go_len_def in_int32_def)
qed

lemma example_restore: "RestoreFromSnapshot example_ops (application example_follower) (le_bytes 4 0) = (Map.empty, None, 0)"
  using read_le_int32 [of 0 "[]"] by (simp add: example_defs testApp_RestoreFromSnapshot_def in_int32_def)

theorem snapshot_transfer_witness:
  "\<exists>r' s'. sendInstallSnapshotRPC example_ops (\<lambda>_. True) (\<lambda>_. True) 1 example_source example_follower = Some (r', s') \<and>
    snapshotFile (logSaver s') = Some (le_bytes 4 0) \<and> snap_index s' = 2"
  using snapshot_transfer [OF example_can_transfer _ example_restore, of "\<lambda>_. True"] unfolding example_snap_index by blast

text \<open>C24: A follower whose log ends before the leader's snapshot catches up by the transfer: if the
  snapshot is the application after the first \<open>lastIndex\<close> entries of the whole log, then
  afterwards the follower's node state stands for exactly these entries, all of them committed and
  applied.\<close>
theorem snapshot_catch_up:
  assumes "can_transfer peers f r xs s" and "\<forall>j. net j"
    and "RestoreFromSnapshot ops (application s) xs = (replay ops a (take (nat (snap_index r)) full), None, key)"
    and "0 \<le> snap_index r" and "snap_index r \<le> go_len full"
    and "abs_len s \<le> snap_index r" and "commitedLength s \<le> abs_len s"
  shows "\<exists>r' s'. sendInstallSnapshotRPC ops peers net f r s = Some (r', s') \<and>
    rsm ops a (take (nat (snap_index r)) full) s' \<and> commitedLength s' = snap_index r"
proof -
  from send_installs [OF assms(1-3)] obtain r' s' where
    s': "sendInstallSnapshotRPC ops peers net f r s = Some (r', s')"
      "installed r xs (replay ops a (take (nat (snap_index r)) full)) s s'" by blast
  moreover have "int32 (snap_index r) = snap_index r" using assms(1) by (simp add: can_transfer_def)
  moreover have "install_log (snap_index s) (snap_index r) t (raft_log s) = []" for t
    using assms(6) by (simp add: install_log_def)
  ultimately show ?thesis
    using assms(4-7) by (intro exI [of _ r'] exI [of _ s']) (simp add: installed_def rsm_def)
qed

theorem snapshot_catch_up_witness:
  "\<exists>r' s'. sendInstallSnapshotRPC example_ops (\<lambda>_. True) (\<lambda>_. True) 1 example_source example_follower = Some (r', s') \<and>
    rsm example_ops newTestApp (take 2 (replicate 2 \<lparr>Term = 1, Msg = (example_put 1 1 None)\<lparr>MsgType := GetMsg\<rparr>\<rparr>)) s'"
proof -
  let ?full = "replicate 2 \<lparr>Term = 1, Msg = (example_put 1 1 None)\<lparr>MsgType := GetMsg\<rparr>\<rparr>"
  have two: "nat (snap_index example_source) = 2" by (simp add: example_snap_index)
  have "replay example_ops newTestApp (take 2 ?full) = Map.empty"
    by (simp add: eval_nat_numeral app_step_def testApp_AppendMessage_def example_defs msg_type_defs)
  then have "RestoreFromSnapshot example_ops (application example_follower) (le_bytes 4 0) =
      (replay example_ops newTestApp (take (nat (snap_index example_source)) ?full), None, 0)"
    by (simp only: two example_restore)
  then have "\<exists>r' s'. sendInstallSnapshotRPC example_ops (\<lambda>_. True) (\<lambda>_. True) 1 example_source example_follower = Some (r', s') \<and>
      rsm example_ops newTestApp (take (nat (snap_index example_source)) ?full) s' \<and> commitedLength s' = snap_index example_source"
    by (intro snapshot_catch_up [OF example_can_transfer]) (simp_all add: example_snap_index example_follower_def example_defs go_len_def)
  then show ?thesis unfolding two by blast
qed

text \<open>C36: A follower whose log reaches beyond the snapshot, with an entry of the snapshot's term at position
  \<open>lastIncludedIndex\<close>, drops that entry too: the snapshot covers the positions before
  \<open>lastIncludedIndex\<close>, but \<open>InstallSnapshot\<close> keeps only the entries after it. The entry at
  \<open>lastIncludedIndex\<close> is lost and every later entry moves down by one position.\<close>
theorem InstallSnapshot_drops_entry:
  assumes "rsm ops a full s" and "currentTerm s \<le> is_LeaderTerm req" and "Offset req = 0" and "Done req"
    and "snap_index s \<le> LastIncludedIndex req" and "LastIncludedIndex req < abs_len s"
    and "Term (full ! nat (LastIncludedIndex req)) = LastIncludedTerm req"
    and "RestoreFromSnapshot ops (application s) (is_Data req) = (app, None, key)"
  shows "\<exists>s' term. InstallSnapshot ops s req = (s', term, None) \<and> snap_index s' = LastIncludedIndex req \<and>
    raft_log s' = drop (nat (LastIncludedIndex req) + 1) full \<and> abs_len s' = abs_len s - 1"
proof -
  let ?i = "LastIncludedIndex req"
  let ?s = "(snapshot_leader (ResetTimer s) req)\<lparr>logSaver := (logSaver s)\<lparr>snapshotFile := Some (is_Data req)\<rparr>\<rparr>"
  have i: "InstallSnapshot ops s req =
      (case restore_snapshot ops ?s req of (s2, err) \<Rightarrow> (s2, int32 (currentTerm s), err))"
    using assms(2-4) by (simp add: InstallSnapshot_def WriteSnapshotData_def write_at_def Let_def)
  from restore_snapshot_ok [of ?s "is_Data req" ops app key req] assms(8) obtain s' where
    s': "restore_snapshot ops ?s req = (s', None)" "snap_index s' = ?i"
      "raft_log s' = install_log (snap_index s) ?i (LastIncludedTerm req) (raft_log s)" by auto
  have r: "0 \<le> snap_index s" "raft_log s = drop (nat (snap_index s)) full" "abs_len s = go_len full"
    using assms(1) rsm_abs_len [OF assms(1)] by (simp_all add: rsm_def)
  have "nat (snap_index s) + nat (?i - snap_index s) = nat ?i"
    "nat (snap_index s) + nat (?i - snap_index s + 1) = nat ?i + 1" using r(1) assms(5) by auto
  then have "install_log (snap_index s) ?i (LastIncludedTerm req) (raft_log s) = drop (nat ?i + 1) full"
    using assms(5-7) r by (simp add: install_log_def Let_def go_len_def add.commute)
  with i s' r assms(5,6) show ?thesis by (simp add: go_len_def)
qed

theorem InstallSnapshot_drops_entry_witness:
  "\<exists>s' term. InstallSnapshot example_ops example_leader \<lparr>is_LeaderTerm = 1, is_LeaderId = 2, LastIncludedIndex = 0,
      LastIncludedTerm = 1, Offset = 0, is_Data = le_bytes 4 0, Done = True\<rparr> = (s', term, None) \<and> raft_log s' = []"
proof -
  let ?req = "\<lparr>is_LeaderTerm = 1, is_LeaderId = 2, LastIncludedIndex = 0, LastIncludedTerm = 1, Offset = 0,
    is_Data = le_bytes 4 0, Done = True\<rparr>"
  have "application example_leader = application example_follower" by (simp add: example_defs)
  then have "RestoreFromSnapshot example_ops (application example_leader) (is_Data ?req) = (Map.empty, None, 0)"
    using example_restore by simp
  then have "\<exists>s' term. InstallSnapshot example_ops example_leader ?req = (s', term, None) \<and> snap_index s' = LastIncludedIndex ?req \<and>
      raft_log s' = drop (nat (LastIncludedIndex ?req) + 1) (raft_log example_leader) \<and> abs_len s' = abs_len example_leader - 1"
    by (rule InstallSnapshot_drops_entry [OF example_rsm, rotated -1]) (simp_all add: example_defs)
  moreover have "drop (nat (LastIncludedIndex ?req) + 1) (raft_log example_leader) = []" by (simp add: example_defs)
  ultimately show ?thesis by metis
qed

end
