(* ===== verification/Raft_Cluster.thy ===== *)
theory Raft_Cluster
  imports Raft_Snapshot
begin

text \<open>
  Elections across the cluster: a transition system over all nodes and the vote messages in
  flight, election safety for it, and the two places where the code leaves the conditions
  under which it holds.
\<close>

section \<open>Handlers outside elections\<close>

lemma deliver_from_core: "deliver_from ops n i r = Some r' \<Longrightarrow> core r' = core r"
proof (induction n arbitrary: i r)
  case (Suc n)
  from Suc.prems obtain m where "deliver_from ops n (i + 1) (deliverToApplication ops r m) = Some r'"
    by (auto split: bind_splits)
  from Suc.IH [OF this] show ?case by (simp add: core_def)
qed simp

lemma decideRunSnapshot_core: "decideRunSnapshot ops r = Some (r', err) \<Longrightarrow> core r' = core r"
  by (auto simp: decideRunSnapshot_def core_def Let_def split: if_splits sum.splits prod.splits bind_splits)

lemma appendEntries_core:
  assumes "appendEntries ops r p lc suf = Some r'"
  shows "core r' = core r"
proof -
  from assms obtain lg r1 err where 1: "follower_commit ops lc (r\<lparr>raft_log := lg\<rparr>) = Some r1"
    "decideRunSnapshot ops r1 = Some (r', err)"
    by (auto simp: appendEntries_def split: bind_splits)
  from 1(1) have "core r1 = core r"
    by (auto simp: follower_commit_def Let_def split: if_splits bind_splits dest!: deliver_from_core)
  with decideRunSnapshot_core [OF 1(2)] show ?thesis by simp
qed

lemma commitLogEntries_core: "commitLogEntries ops r = Some r' \<Longrightarrow> core r' = core r"
  by (auto simp: commitLogEntries_def commit_locked_def split: bind_splits prod.splits)

text \<open>
  What a step may do to a node without touching an election: the term only grows, within a term the
  vote stays, and the node does not gain an office.
\<close>

definition quiet :: "('d, 'a) Raft \<Rightarrow> ('d, 'a) Raft \<Rightarrow> bool" where
  "quiet r r' \<longleftrightarrow> raft_id r' = raft_id r \<and> totalNodes r' = totalNodes r \<and> go_len (sentLengths r') = go_len (sentLengths r) \<and>
     go_len (ackedLengths r') = go_len (ackedLengths r) \<and> currentTerm r \<le> currentTerm r' \<and>
     (currentTerm r' = currentTerm r \<longrightarrow> votedFor r' = votedFor r) \<and>
     (currentRole r' \<noteq> Follower \<longrightarrow> currentRole r' = currentRole r \<and> currentTerm r' = currentTerm r \<and>
        votesReceived r' = votesReceived r)"

lemma quiet_core: "core r' = core r \<Longrightarrow> quiet r r'"
  by (simp add: quiet_def core_def)

text \<open>
  The steps of one node outside elections. \<open>LogRequest\<close> is two steps, since it gives the mutex up
  before it appends. The flag \<open>careful\<close> rules out one event: that a leader which lost its quorum steps down
  within its term and forgets its own vote.
\<close>

inductive node_step :: "bool \<Rightarrow> ('d, 'a) Application \<Rightarrow> ('d, 'a) Raft \<Rightarrow> ('d, 'a) Raft \<Rightarrow> bool"
  for careful ops where
  ns_accept: "node_step careful ops r (accept_leader r leaderId term)"
| ns_append: "appendEntries ops r prefixLen leaderCommit suffix = Some r' \<Longrightarrow> node_step careful ops r r'"
| ns_response: "in_int32 (currentTerm r) \<Longrightarrow> replicate_response ops f resp r = Some r' \<Longrightarrow> node_step careful ops r r'"
| ns_failed: "(careful \<Longrightarrow> currentRole (replicate_failed f r) = currentRole r) \<Longrightarrow>
    node_step careful ops r (replicate_failed f r)"
| ns_broadcast: "Broadcast peers r message = Some (r', act) \<Longrightarrow> node_step careful ops r r'"
| ns_install: "InstallSnapshot ops r req = (r', term, err) \<Longrightarrow> node_step careful ops r r'"
| ns_heartbeat: "node_step careful ops r (receiveHeartbeat r)"
| ns_forward: "Forward peers hop r msg = (r', act') \<Longrightarrow> node_step careful ops r r'"
| ns_save: "node_step careful ops r (r\<lparr>logSaver := rds\<rparr>)"

lemma restore_snapshot_core: "restore_snapshot ops r req = (r', err) \<Longrightarrow> core r' = core r"
  by (auto simp: restore_snapshot_def core_def Let_def split: option.splits prod.splits)

lemma InstallSnapshot_quiet:
  assumes "InstallSnapshot ops r req = (r', term, err)"
  shows "quiet r r'"
proof (cases "is_LeaderTerm req < currentTerm r")
  case True
  with assms show ?thesis by (auto simp: InstallSnapshot_def quiet_def)
next
  case False
  with assms have "core r' = core (snapshot_leader (ResetTimer r) req)"
    by (auto simp: InstallSnapshot_def Let_def split: prod.splits sum.splits if_splits dest!: restore_snapshot_core)
  with False show ?thesis
    by (auto simp: core_def quiet_def snapshot_leader_def Let_def split: if_splits)
qed

lemma go_store_len: "go_store xs i v = Some ys \<Longrightarrow> go_len ys = go_len xs"
  by (auto simp: go_store_def split: if_splits)

lemma replicate_response_quiet:
  assumes "in_int32 (currentTerm r)" and "replicate_response ops f resp r = Some r'"
  shows "quiet r r'"
proof (cases "lr_CurrentTerm resp > int32 (currentTerm r)")
  case True
  with assms(2) have "r' = becomeFollowerUnlocked (lr_CurrentTerm resp) (on_replicator (\<lambda>p. p\<lparr>consecutiveFailures := 0\<rparr>) f r)"
    by (simp add: replicate_response_def)
  with True assms(1) show ?thesis by (simp add: quiet_def)
next
  case False
  have "\<exists>s a. core r' = core (r\<lparr>sentLengths := s, ackedLengths := a\<rparr>) \<and> go_len s = go_len (sentLengths r) \<and>
      go_len a = go_len (ackedLengths r)"
  proof (cases "currentRole r = Leader \<and> lr_CurrentTerm resp = currentTerm r \<and> lr_Success resp")
    case True
    with False assms(2) obtain s a where "go_store (sentLengths r) f (Ack resp + 1) = Some s"
      "go_store (ackedLengths r) f (Ack resp) = Some a"
      "commitLogEntries ops ((on_replicator (\<lambda>p. p\<lparr>consecutiveFailures := 0\<rparr>) f r)\<lparr>sentLengths := s, ackedLengths := a\<rparr>) = Some r'"
      by (auto simp: replicate_response_def split: bind_splits)
    then show ?thesis by (auto simp: core_def dest!: commitLogEntries_core go_store_len)
  next
    case not_ack: False
    let ?r = "on_replicator (\<lambda>p. p\<lparr>consecutiveFailures := 0\<rparr>) f r"
    have "r' = ?r \<or> (\<exists>s v. go_store (sentLengths r) f v = Some s \<and> r' = ?r\<lparr>sentLengths := s\<rparr>)"
      using False not_ack assms(2)
      by (auto simp: replicate_response_def Let_def split: if_splits bind_splits)
    then show ?thesis
    proof
      assume "r' = ?r"
      then show ?thesis by (intro exI [of _ "sentLengths r"] exI [of _ "ackedLengths r"]) (simp add: core_def)
    next
      assume "\<exists>s v. go_store (sentLengths r) f v = Some s \<and> r' = ?r\<lparr>sentLengths := s\<rparr>"
      then obtain s v where "go_store (sentLengths r) f v = Some s" "r' = ?r\<lparr>sentLengths := s\<rparr>" by blast
      then show ?thesis by (intro exI [of _ s] exI [of _ "ackedLengths r"]) (auto simp: core_def dest: go_store_len)
    qed
  qed
  then show ?thesis by (auto simp: quiet_def core_def)
qed

lemma Broadcast_quiet: "Broadcast peers r message = Some (r', act) \<Longrightarrow> quiet r r'"
  by (auto simp: Broadcast_def getLeaderData_def broadcast_append_def Let_def quiet_def dest: go_store_len
      split: if_splits bind_splits)

lemma node_step_quiet:
  assumes "node_step True ops r r'"
  shows "quiet r r'"
  using assms
proof cases
  case (ns_accept l t)
  then show ?thesis by (auto simp: quiet_def accept_leader_def Let_def)
next
  case (ns_failed f)
  then show ?thesis
    by (auto simp: quiet_def replicate_failed_def checkQuorumHealth_def Let_def split: if_splits)
next
  case (ns_forward peers hop msg act)
  then show ?thesis by (auto simp: quiet_def Forward_def getLeaderData_def split: if_splits)
qed (auto intro: quiet_core appendEntries_core replicate_response_quiet Broadcast_quiet InstallSnapshot_quiet
    simp: receiveHeartbeat_def)

section \<open>Quorums\<close>

text \<open>
  What elections need of a quorum: any two have a member in common. Then a voter with one vote per
  ballot cannot let two candidates win.
\<close>

locale quorums =
  fixes quorum :: "'n set \<Rightarrow> bool"
  assumes meet: "quorum A \<Longrightarrow> quorum B \<Longrightarrow> A \<inter> B \<noteq> {}"
begin

lemma one_winner:
  assumes "\<And>v c c'. vote v c \<Longrightarrow> vote v c' \<Longrightarrow> c = c'"
    and "quorum A" "\<And>v. v \<in> A \<Longrightarrow> vote v c" and "quorum B" "\<And>v. v \<in> B \<Longrightarrow> vote v c'"
  shows "c = c'"
  using meet [OF assms(2,4)] assms(1,3,5) by blast

end

definition node_quorum :: "int \<Rightarrow> int set \<Rightarrow> bool" where
  "node_quorum n A \<longleftrightarrow> 0 < n \<and> A \<subseteq> {0..<n} \<and> int (card A) \<ge> majority n"

lemma node_quorum_meet:
  assumes "node_quorum n A" and "node_quorum n B"
  shows "A \<inter> B \<noteq> {}"
proof
  assume "A \<inter> B = {}"
  moreover have fin: "finite A" "finite B" using assms by (auto simp: node_quorum_def intro: finite_subset)
  ultimately have "card A + card B = card (A \<union> B)" by (simp add: card_Un_disjoint)
  also have "\<dots> \<le> card {0..<n}" using assms by (intro card_mono) (auto simp: node_quorum_def)
  finally have "int (card A) + int (card B) \<le> n" using assms(1) by (simp add: node_quorum_def le_nat_iff)
  then show False using assms by (auto simp: node_quorum_def majority_eq)
qed

interpretation node_quorums: quorums "node_quorum n" for n
  by unfold_locales (rule node_quorum_meet)

section \<open>The cluster\<close>

text \<open>
  The nodes and the vote messages sent so far: a request may arrive any number of times and late, or
  never, and so may a reply. \<open>ballots\<close> records every vote ever cast as voter, term and
  candidate; no node reads it.
\<close>

record ('d, 'a) cluster =
  node :: "int \<Rightarrow> ('d, 'a) Raft"
  requests :: "(int \<times> int \<times> VoteRequestArgs) set"
  replies :: "(int \<times> VoteResponse) set"
  ballots :: "(int \<times> int \<times> int) set"

text \<open>\<open>sendVoteRequest\<close> hands the reply to \<open>receiveVote\<close> in this form.\<close>

definition vote_of :: "pb_VoteResponse \<Rightarrow> VoteResponse" where
  "vote_of resp = \<lparr>v_nodeId = vr_NodeId resp, v_currentTerm = vr_CurrentTerm resp, v_granted = vr_Granted resp\<rparr>"

text \<open>
  The timer loop looks at the role first and starts the election later, so any node may start one. The flag
  \<open>careful\<close> rules out that a node forgets its vote within a term: on a request of a current or
  earlier term from the node it takes for the leader, and when a leader steps down for lack of a quorum.
\<close>

inductive cluster_step :: "bool \<Rightarrow> int \<Rightarrow> ('d, 'a) Application \<Rightarrow> ('d, 'a) cluster \<Rightarrow> ('d, 'a) cluster \<Rightarrow> bool"
  for careful n ops where
  cs_election: "0 \<le> i \<Longrightarrow> i < n \<Longrightarrow> startElection (node c i) = (r', voteData, targets) \<Longrightarrow>
    cluster_step careful n ops c
      (c\<lparr>node := (node c)(i := r'),
         ballots := insert (i, currentTerm r', i) (ballots c),
         requests := requests c \<union> {(i, j, args) | j args. j \<in> set targets \<and> sendVoteRequest available peers voteData j = Some args}\<rparr>)"
| cs_request: "(i, j, args) \<in> requests c \<Longrightarrow> VoteRequest (node c j) args = (r', resp) \<Longrightarrow>
    (careful \<Longrightarrow> currentLeaderId (node c j) = CandidateId args \<Longrightarrow> CandidateTerm args > currentTerm (node c j)) \<Longrightarrow>
    cluster_step careful n ops c
      (c\<lparr>node := (node c)(j := r'),
         ballots := (if vr_Granted resp then insert (j, currentTerm r', CandidateId args) (ballots c) else ballots c),
         replies := insert (i, vote_of resp) (replies c)\<rparr>)"
| cs_reply: "(i, vote) \<in> replies c \<Longrightarrow> receiveVote (node c i) vote = Some r' \<Longrightarrow>
    cluster_step careful n ops c (c\<lparr>node := (node c)(i := r')\<rparr>)"
| cs_node: "0 \<le> i \<Longrightarrow> i < n \<Longrightarrow> node_step careful ops (node c i) r' \<Longrightarrow>
    cluster_step careful n ops c (c\<lparr>node := (node c)(i := r')\<rparr>)"

definition node_ok :: "int \<Rightarrow> (int \<times> int \<times> int) set \<Rightarrow> int \<Rightarrow> ('d, 'a) Raft \<Rightarrow> bool" where
  "node_ok n bs i r \<longleftrightarrow> raft_id r = i \<and> totalNodes r = n \<and> member r \<and>
     (\<forall>t k. (i, t, k) \<in> bs \<longrightarrow> t \<le> currentTerm r \<and> (t = currentTerm r \<longrightarrow> votedFor r = k)) \<and>
     (currentRole r \<noteq> Follower \<longrightarrow> (\<forall>j \<in> votesReceived r. (j, currentTerm r, i) \<in> bs)) \<and>
     (currentRole r = Leader \<longrightarrow> node_quorum n (votesReceived r))"

definition ballots_ok :: "int \<Rightarrow> (int \<times> int \<times> int) set \<Rightarrow> bool" where
  "ballots_ok n bs \<longleftrightarrow> (\<forall>j t k. (j, t, k) \<in> bs \<longrightarrow> j \<in> {0..<n} \<and> k \<in> {0..<n}) \<and>
     (\<forall>j t k k'. (j, t, k) \<in> bs \<longrightarrow> (j, t, k') \<in> bs \<longrightarrow> k = k')"

definition cluster_ok :: "int \<Rightarrow> ('d, 'a) cluster \<Rightarrow> bool" where
  "cluster_ok n c \<longleftrightarrow> (\<forall>i \<in> {0..<n}. node_ok n (ballots c) i (node c i)) \<and> ballots_ok n (ballots c) \<and>
     (\<forall>(i, j, args) \<in> requests c. i \<in> {0..<n} \<and> j \<in> {0..<n} \<and> CandidateId args = i \<and> in_int32 (CandidateTerm args)) \<and>
     (\<forall>(i, vote) \<in> replies c. i \<in> {0..<n} \<and> (v_granted vote \<longrightarrow> (v_nodeId vote, v_currentTerm vote, i) \<in> ballots c))"


lemma node_ok_quiet:
  assumes "node_ok n bs i r" and "quiet r r'"
  shows "node_ok n bs i r'"
proof -
  have q: "raft_id r' = raft_id r" "totalNodes r' = totalNodes r" "currentTerm r \<le> currentTerm r'"
    "currentTerm r' = currentTerm r \<Longrightarrow> votedFor r' = votedFor r"
    "currentRole r' \<noteq> Follower \<Longrightarrow> currentRole r' = currentRole r \<and> currentTerm r' = currentTerm r \<and> votesReceived r' = votesReceived r"
    and "member r \<Longrightarrow> member r'"
    using assms(2) by (simp_all add: quiet_def member_def)
  moreover have "t \<le> currentTerm r' \<and> (t = currentTerm r' \<longrightarrow> votedFor r' = k)" if "(i, t, k) \<in> bs" for t k
  proof -
    have "t \<le> currentTerm r" "t = currentTerm r \<Longrightarrow> votedFor r = k" using assms(1) that unfolding node_ok_def by blast+
    with q(3,4) show ?thesis by (cases "currentTerm r' = currentTerm r") auto
  qed
  ultimately show ?thesis using assms(1) unfolding node_ok_def by (metis Role.distinct(3))
qed

lemma node_ok_insert: "node_ok n bs i r \<Longrightarrow> j \<noteq> i \<Longrightarrow> node_ok n (insert (j, t, k) bs) i r"
  by (auto simp: node_ok_def)

lemma ballots_ok_insert:
  assumes "ballots_ok n bs" and "j \<in> {0..<n}" and "k \<in> {0..<n}" and "\<And>k'. (j, t, k') \<in> bs \<Longrightarrow> k' = k"
  shows "ballots_ok n (insert (j, t, k) bs)"
  using assms by (auto simp: ballots_ok_def)

lemma startElection_frame:
  assumes "startElection r = (r', vd, targets)"
  shows "raft_id r' = raft_id r" "totalNodes r' = totalNodes r" "sentLengths r' = sentLengths r" "ackedLengths r' = ackedLengths r"
    "currentTerm r' = currentTerm r + 1" "votedFor r' = raft_id r" "votesReceived r' = {raft_id r}" "currentRole r' = Candidate"
    "vd_candidateId vd = raft_id r" "targets = filter (\<lambda>i. i \<noteq> raft_id r) [0..totalNodes r - 1]"
  using assms by (auto simp: startElection_def Let_def)

lemma startElection_ok:
  assumes "node_ok n bs i r" and "startElection r = (r', vd, targets)"
  shows "node_ok n (insert (i, currentTerm r', i) bs) i r'" and "\<And>k. (i, currentTerm r', k) \<notin> bs"
    and "vd_candidateId vd = i" and "set targets = {0..<n} - {i}"
proof -
  note f = startElection_frame [OF assms(2)]
  have i: "raft_id r = i" "totalNodes r = n" "member r" "\<And>t k. (i, t, k) \<in> bs \<Longrightarrow> t \<le> currentTerm r"
    using assms(1) unfolding node_ok_def by blast+
  show new: "(i, currentTerm r', k) \<notin> bs" for k
  proof
    assume "(i, currentTerm r', k) \<in> bs"
    from i(4) [OF this] f(5) show False by simp
  qed
  have le: "t \<le> currentTerm r'" if "(i, t, k) \<in> bs" for t k using i(4) [OF that] f(5) by simp
  have b: "t \<le> currentTerm r' \<and> (t = currentTerm r' \<longrightarrow> votedFor r' = k)" if "(i, t, k) \<in> insert (i, currentTerm r', i) bs" for t k
  proof (cases "(i, t, k) \<in> bs")
    case True
    with le [OF True] new [of k] show ?thesis by metis
  next
    case False
    with that f(6) i(1) show ?thesis by simp
  qed
  have "member r'" using i(3) f(1-4) by (simp add: member_def)
  then show "node_ok n (insert (i, currentTerm r', i) bs) i r'"
    unfolding node_ok_def f(1,2,7,8) i(1,2) using b by blast
  show "vd_candidateId vd = i" using f(9) i(1) by simp
  show "set targets = {0..<n} - {i}" unfolding f(10) i(1,2) by auto
qed
lemma VoteRequest_granted:
  assumes "VoteRequest r args = (r', resp)" and "vr_Granted resp"
  shows "currentTerm r' = CandidateTerm args" "votedFor r' = CandidateId args" "currentRole r' = Follower"
    "raft_id r' = raft_id r" "totalNodes r' = totalNodes r" "sentLengths r' = sentLengths r" "ackedLengths r' = ackedLengths r"
    "vr_NodeId resp = int32 (raft_id r)" "vr_CurrentTerm resp = int32 (CandidateTerm args)"
    "currentTerm r < CandidateTerm args \<or> currentTerm r = CandidateTerm args \<and>
       (votedFor r = -1 \<or> votedFor r = CandidateId args \<or> currentLeaderId r = CandidateId args)"
  using assms by (auto simp: VoteRequest_def Let_def split: if_splits)

lemma VoteRequest_denied:
  assumes "VoteRequest r args = (r', resp)" and "\<not> vr_Granted resp"
    and "currentLeaderId r = CandidateId args \<Longrightarrow> CandidateTerm args > currentTerm r"
  shows "quiet r r'"
  using assms by (auto simp: VoteRequest_def Let_def quiet_def split: if_splits)


lemma receiveVote_ok:
  assumes "node_ok n bs i r" and "ballots_ok n bs"
    and "v_granted vote \<Longrightarrow> (v_nodeId vote, v_currentTerm vote, i) \<in> bs" and "receiveVote r vote = Some r'"
  shows "node_ok n bs i r'"
proof (cases "\<not> currentTerm r < v_currentTerm vote \<and> v_granted vote \<and> currentTerm r = v_currentTerm vote \<and> currentRole r = Candidate")
  case False
  then have "quiet r r'" using assms(4) by (auto simp: receiveVote_def quiet_def split: if_splits)
  with assms(1) show ?thesis by (rule node_ok_quiet)
next
  case True
  let ?r = "r\<lparr>votesReceived := insert (v_nodeId vote) (votesReceived r)\<rparr>"
  have r: "node_ok n bs i ?r" using assms(1,3) True by (simp add: node_ok_def member_def)
  show ?thesis
  proof (cases "int (card (votesReceived ?r)) \<ge> majority (totalNodes ?r)")
    case False
    then have "r' = ?r" using True assms(4) by (simp add: receiveVote_def)
    with r show ?thesis by simp
  next
    case maj: True
    then have "becomeLeader ?r = Some r'" using True assms(4) by (simp add: receiveVote_def)
    moreover have "member ?r" using r by (simp add: node_ok_def)
    ultimately have r': "tables r' = tables ?r" "vote_state r' = (currentTerm ?r, votedFor ?r, Leader, raft_id ?r, votesReceived ?r)"
      using becomeLeader_ok [of ?r] by auto
    have "node_quorum n (votesReceived ?r)"
      using r maj True assms(2) by (auto simp: node_quorum_def node_ok_def member_def ballots_ok_def)
    with r r' True show ?thesis
      using member_tables [OF r'(1)] by (simp add: node_ok_def tables_def vote_state_def)
  qed
qed

lemma VoteRequest_ok:
  assumes "node_ok n bs j r" and "ballots_ok n bs" and "j \<in> {0..<n}" and "CandidateId args \<in> {0..<n}"
    and "VoteRequest r args = (r', resp)" and "vr_Granted resp"
    and "currentLeaderId r = CandidateId args \<Longrightarrow> CandidateTerm args > currentTerm r"
  shows "node_ok n (insert (j, CandidateTerm args, CandidateId args) bs) j r'"
    and "ballots_ok n (insert (j, CandidateTerm args, CandidateId args) bs)"
proof -
  note g = VoteRequest_granted [OF assms(5,6)]
  have old: "k = CandidateId args" if "(j, CandidateTerm args, k) \<in> bs" for k
  proof -
    from that assms(1,2) have "CandidateTerm args \<le> currentTerm r" "k \<in> {0..<n}"
      "CandidateTerm args = currentTerm r \<Longrightarrow> votedFor r = k"
      by (auto simp: node_ok_def ballots_ok_def)
    with g(10) assms(7) show ?thesis by auto
  qed
  show "node_ok n (insert (j, CandidateTerm args, CandidateId args) bs) j r'"
  proof -
    have "t \<le> CandidateTerm args \<and> (t = CandidateTerm args \<longrightarrow> k = CandidateId args)" if "(j, t, k) \<in> bs" for t k
    proof -
      have "t \<le> currentTerm r" using that assms(1) by (auto simp: node_ok_def)
      with that g(10) old [of k] show ?thesis by auto
    qed
    with assms(1) g(1-7) show ?thesis by (auto simp: node_ok_def member_def)
  qed
  show "ballots_ok n (insert (j, CandidateTerm args, CandidateId args) bs)"
    using assms(2-4) old by (intro ballots_ok_insert) auto
qed

lemma cluster_ok_node:
  "cluster_ok n c \<Longrightarrow> node_ok n (ballots c) i r' \<Longrightarrow> cluster_ok n (c\<lparr>node := (node c)(i := r')\<rparr>)"
  by (simp add: cluster_ok_def)

lemma cluster_ok_ballot:
  assumes "cluster_ok n c" and "node_ok n (insert (j, t, k) (ballots c)) j r'" and "ballots_ok n (insert (j, t, k) (ballots c))"
  shows "cluster_ok n (c\<lparr>node := (node c)(j := r'), ballots := insert (j, t, k) (ballots c)\<rparr>)"
  using assms by (auto simp: cluster_ok_def node_ok_insert)

lemma cluster_ok_reply:
  "cluster_ok n c \<Longrightarrow> i \<in> {0..<n} \<Longrightarrow> (v_granted v \<Longrightarrow> (v_nodeId v, v_currentTerm v, i) \<in> ballots c) \<Longrightarrow>
   cluster_ok n (c\<lparr>replies := insert (i, v) (replies c)\<rparr>)"
  by (auto simp: cluster_ok_def)

lemma cluster_ok_requests:
  "cluster_ok n c \<Longrightarrow> (\<And>i j args. (i, j, args) \<in> new \<Longrightarrow> i \<in> {0..<n} \<and> j \<in> {0..<n} \<and> CandidateId args = i \<and> in_int32 (CandidateTerm args)) \<Longrightarrow>
   cluster_ok n (c\<lparr>requests := requests c \<union> new\<rparr>)"
  by (auto simp: cluster_ok_def)

lemma cluster_node: "cluster_ok n c \<Longrightarrow> i \<in> {0..<n} \<Longrightarrow> node_ok n (ballots c) i (node c i)"
  by (simp add: cluster_ok_def)

lemma cluster_ballots: "cluster_ok n c \<Longrightarrow> ballots_ok n (ballots c)"
  by (simp add: cluster_ok_def)

lemma election_step_ok:
  assumes "cluster_ok n c" and "n < 2 ^ 31" and "i \<in> {0..<n}" and "startElection (node c i) = (r', vd, targets)"
  shows "cluster_ok n (c\<lparr>node := (node c)(i := r'), ballots := insert (i, currentTerm r', i) (ballots c),
    requests := requests c \<union> {(i, j, args) | j args. j \<in> set targets \<and> sendVoteRequest available peers vd j = Some args}\<rparr>)"
proof -
  note e = startElection_ok [OF cluster_node [OF assms(1,3)] assms(4)]
  let ?new = "{(i, j, args) | j args. j \<in> set targets \<and> sendVoteRequest available peers vd j = Some args}"
  have "in_int32 i" using assms(2,3) by (simp add: in_int32_def)
  then have new: "k \<in> {0..<n} \<and> j \<in> {0..<n} \<and> CandidateId args = k \<and> in_int32 (CandidateTerm args)"
    if "(k, j, args) \<in> ?new" for k j args
  proof -
    from that have k: "k = i" "j \<in> set targets" "sendVoteRequest available peers vd j = Some args" by blast+
    from k(3) have "CandidateId args = int32 (vd_candidateId vd)" "in_int32 (CandidateTerm args)"
      by (auto simp: sendVoteRequest_def split: if_splits)
    with k(1,2) e(3,4) assms(3) \<open>in_int32 i\<close> show ?thesis by simp
  qed
  have "ballots_ok n (insert (i, currentTerm r', i) (ballots c))"
    by (rule ballots_ok_insert [OF cluster_ballots [OF assms(1)] assms(3,3)]) (use e(2) in blast)
  from cluster_ok_requests [OF cluster_ok_ballot [OF assms(1) e(1) this], of ?new, OF new] show ?thesis by simp
qed

lemma request_step_ok:
  assumes "cluster_ok n c" and "n < 2 ^ 31" and "(i, j, args) \<in> requests c" and "VoteRequest (node c j) args = (r', resp)"
    and "currentLeaderId (node c j) = CandidateId args \<Longrightarrow> CandidateTerm args > currentTerm (node c j)"
  shows "cluster_ok n (c\<lparr>node := (node c)(j := r'),
    ballots := (if vr_Granted resp then insert (j, currentTerm r', CandidateId args) (ballots c) else ballots c),
    replies := insert (i, vote_of resp) (replies c)\<rparr>)"
proof -
  have j: "i \<in> {0..<n}" "j \<in> {0..<n}" "CandidateId args = i" "in_int32 (CandidateTerm args)"
    using assms(1,3) by (auto simp: cluster_ok_def)
  note ok = cluster_node [OF assms(1) j(2)] cluster_ballots [OF assms(1)]
  show ?thesis
  proof (cases "vr_Granted resp")
    case False
    have "node_ok n (ballots c) j r'" using node_ok_quiet [OF ok(1) VoteRequest_denied [OF assms(4) False assms(5)]] .
    from cluster_ok_reply [OF cluster_ok_node [OF assms(1) this] j(1), of "vote_of resp"] False show ?thesis
      by (simp add: vote_of_def)
  next
    case True
    have "raft_id (node c j) = j" "in_int32 j" using ok(1) j(2) assms(2) by (auto simp: node_ok_def in_int32_def)
    then have g: "currentTerm r' = CandidateTerm args" "vr_NodeId resp = j" "vr_CurrentTerm resp = CandidateTerm args"
      using VoteRequest_granted(1,8,9) [OF assms(4) True] j(4) by simp_all
    have "CandidateId args \<in> {0..<n}" using j by simp
    note v = VoteRequest_ok [OF ok j(2) this assms(4) True assms(5)]
    from cluster_ok_reply [OF cluster_ok_ballot [OF assms(1) v] j(1), of "vote_of resp"] True g j(3) show ?thesis
      by (simp add: vote_of_def)
  qed
qed

lemma cluster_step_ok:
  assumes "cluster_step True n ops c c'" and "cluster_ok n c" and "n < 2 ^ 31"
  shows "cluster_ok n c'"
  using assms(1)
proof cases
  case (cs_election i r' vd targets available peers)
  then show ?thesis using election_step_ok [OF assms(2,3)] by simp
next
  case (cs_request i j args r' resp)
  then show ?thesis using request_step_ok [OF assms(2,3)] by simp
next
  case (cs_reply i vote r')
  have i: "i \<in> {0..<n}" "v_granted vote \<Longrightarrow> (v_nodeId vote, v_currentTerm vote, i) \<in> ballots c"
    using assms(2) cs_reply(2) by (auto simp: cluster_ok_def)
  from receiveVote_ok [OF cluster_node [OF assms(2) i(1)] cluster_ballots [OF assms(2)] i(2) cs_reply(3)]
  show ?thesis unfolding cs_reply(1) by (rule cluster_ok_node [OF assms(2)])
next
  case (cs_node i r')
  then have "node_ok n (ballots c) i (node c i)" using cluster_node [OF assms(2)] by simp
  from node_ok_quiet [OF this node_step_quiet [OF cs_node(4)]] show ?thesis
    unfolding cs_node(1) by (rule cluster_ok_node [OF assms(2)])
qed

interpretation cluster_invariant: step_invariant "cluster_step True n ops" "\<lambda>c. cluster_ok n c \<and> n < 2 ^ 31" for n ops
  by unfold_locales (auto intro: cluster_step_ok)

lemma cluster_step_ballots: "cluster_step careful n ops c c' \<Longrightarrow> ballots c \<subseteq> ballots c'"
  by (induction rule: cluster_step.induct) auto

lemma run_ballots: "run (cluster_step careful n ops) c c' \<Longrightarrow> ballots c \<subseteq> ballots c'"
  by (induction rule: run.induct) (auto dest: cluster_step_ballots)

text \<open>A cluster of \<open>n\<close> new nodes.\<close>

definition init_cluster :: "int \<Rightarrow> (int \<Rightarrow> 'a) \<Rightarrow> int \<Rightarrow> (int \<Rightarrow> 'd DataSaver) \<Rightarrow> ('d, 'a) cluster" where
  "init_cluster n app threshold saver =
     \<lparr>node = (\<lambda>i. initial_raft (app i) i n threshold (saver i)), requests = {}, replies = {}, ballots = {}\<rparr>"

lemma init_cluster_ok: "cluster_ok n (init_cluster n app threshold saver)"
  by (auto simp: cluster_ok_def init_cluster_def node_ok_def ballots_ok_def initial_raft_def member_def go_len_def)

definition leads :: "('d, 'a) cluster \<Rightarrow> int \<Rightarrow> int \<Rightarrow> bool" where
  "leads c i t \<longleftrightarrow> currentRole (node c i) = Leader \<and> currentTerm (node c i) = t"

text \<open>C1: At most one leader per term, at any two moments of a run: if a node leads in term \<open>t\<close> at some point and
  a node leads in term \<open>t\<close> at the same or a later point, they are the same node. This holds for
  any number of nodes, any interleaving of the handlers, and lost, delayed or repeated vote messages,
  as long as no node forgets its vote within a term: runs in which a node handles a vote request of its
  current or an earlier term from the node it takes for the leader, or in which a leader steps down
  for lack of a quorum, are left out.\<close>
theorem election_safety:
  assumes "n < 2 ^ 31" and "run (cluster_step True n ops) (init_cluster n app threshold saver) c"
    and "run (cluster_step True n ops) c c'"
    and "0 \<le> i" "i < n" "leads c i t" and "0 \<le> j" "j < n" "leads c' j t"
  shows "i = j"
proof -
  have c: "cluster_ok n c" using cluster_invariant.run_inv [OF assms(2)] init_cluster_ok assms(1) by blast
  then have c': "cluster_ok n c'" using cluster_invariant.run_inv [OF assms(3)] assms(1) by blast
  have "node_quorum n (votesReceived (node c i))" "\<And>v. v \<in> votesReceived (node c i) \<Longrightarrow> (v, t, i) \<in> ballots c'"
    using c assms(4-6) run_ballots [OF assms(3)] by (auto simp: cluster_ok_def node_ok_def leads_def)
  moreover have "node_quorum n (votesReceived (node c' j))" "\<And>v. v \<in> votesReceived (node c' j) \<Longrightarrow> (v, t, j) \<in> ballots c'"
    using c' assms(7-9) by (auto simp: cluster_ok_def node_ok_def leads_def)
  moreover have "\<And>v k k'. (v, t, k) \<in> ballots c' \<Longrightarrow> (v, t, k') \<in> ballots c' \<Longrightarrow> k = k'"
    using c' by (auto simp: cluster_ok_def ballots_ok_def)
  ultimately show ?thesis by (rule node_quorums.one_winner [rotated])
qed

section \<open>Runs of a cluster of three\<close>

definition elect :: "int \<Rightarrow> ('d, 'a) cluster \<Rightarrow> ('d, 'a) cluster" where
  "elect i c = (case startElection (node c i) of (r', voteData, targets) \<Rightarrow>
     c\<lparr>node := (node c)(i := r'), ballots := insert (i, currentTerm r', i) (ballots c),
       requests := requests c \<union> {(i, j, args) | j args. j \<in> set targets \<and>
         sendVoteRequest (\<lambda>_. True) (\<lambda>_. True) voteData j = Some args}\<rparr>)"

definition ask :: "int \<Rightarrow> int \<Rightarrow> VoteRequestArgs \<Rightarrow> ('d, 'a) cluster \<Rightarrow> ('d, 'a) cluster" where
  "ask i j args c = (case VoteRequest (node c j) args of (r', resp) \<Rightarrow>
     c\<lparr>node := (node c)(j := r'),
       ballots := (if vr_Granted resp then insert (j, currentTerm r', CandidateId args) (ballots c) else ballots c),
       replies := insert (i, vote_of resp) (replies c)\<rparr>)"

lemma elect_step: "0 \<le> i \<Longrightarrow> i < n \<Longrightarrow> cluster_step careful n ops c (elect i c)"
  unfolding elect_def by (cases "startElection (node c i)") (auto intro: cs_election)

lemma ask_step:
  assumes "(i, j, args) \<in> requests c"
    and "careful \<Longrightarrow> currentLeaderId (node c j) = CandidateId args \<Longrightarrow> CandidateTerm args > currentTerm (node c j)"
  shows "cluster_step careful n ops c (ask i j args c)"
proof -
  obtain r' resp where v: "VoteRequest (node c j) args = (r', resp)" by (cases "VoteRequest (node c j) args")
  show ?thesis unfolding ask_def v prod.case by (rule cs_request [OF assms(1) v assms(2)])
qed

lemma elect_simps [simp]:
  "node (elect i c) = (node c)(i := fst (startElection (node c i)))" "replies (elect i c) = replies c"
  "requests c \<subseteq> requests (elect i c)"
  by (auto simp: elect_def split: prod.split)

lemma ask_simps [simp]:
  "node (ask i j args c) = (node c)(j := fst (VoteRequest (node c j) args))"
  "replies (ask i j args c) = insert (i, vote_of (snd (VoteRequest (node c j) args))) (replies c)"
  "requests (ask i j args c) = requests c"
  by (auto simp: ask_def split: prod.split)

definition vote_args :: "int \<Rightarrow> int \<Rightarrow> VoteRequestArgs" where
  "vote_args i t = \<lparr>CandidateId = i, CandidateTerm = t, CandidateLogLength = 0, CandidateLogTerm = 0\<rparr>"

lemma elect_asks:
  assumes "raft_id (node c i) = i" "totalNodes (node c i) = 3" "currentTerm (node c i) + 1 = t" "raft_log (node c i) = []"
    "snap_index (node c i) = 0" "i \<in> {0, 1, 2}" "j \<in> {0, 1, 2}" "j \<noteq> i" "in_int32 t"
  shows "(i, j, vote_args i t) \<in> requests (elect i c)"
proof -
  have "in_int32 i" using assms(6) by (auto simp: in_int32_def)
  moreover have "j \<in> set [0..2]" using assms(7) by (auto simp: upto.simps)
  ultimately show ?thesis
    using assms by (auto simp: elect_def startElection_def Let_def sendVoteRequest_def getPeer_def vote_args_def
        getLastLogTerm_def in_int32_def ResetTimer_def)
qed

lemma receiveVote_wins:
  assumes "member r" and "currentRole r = Candidate" and "v_granted vote" and "v_currentTerm vote = currentTerm r"
    and "int (card (insert (v_nodeId vote) (votesReceived r))) \<ge> majority (totalNodes r)"
  shows "\<exists>r'. receiveVote r vote = Some r' \<and> currentRole r' = Leader \<and> currentTerm r' = currentTerm r"
proof -
  have "member (r\<lparr>votesReceived := insert (v_nodeId vote) (votesReceived r)\<rparr>)" using assms(1) by (simp add: member_def)
  from becomeLeader_ok [OF this] show ?thesis
    using assms(2-5) by (auto simp: receiveVote_def vote_state_def)
qed

definition example_cluster :: "(unit, testApp) cluster" where
  "example_cluster = init_cluster 3 (\<lambda>_. newTestApp) 100 (\<lambda>_. NewRaftDataSaver None None None)"

lemma example_cluster_node [simp]: "node example_cluster i = example_node i"
  by (simp add: example_cluster_def init_cluster_def example_node_def)

text \<open>Node 0 is elected in term 1 with the vote of node 2.\<close>

lemma example_election:
  "\<exists>c. run (cluster_step True 3 example_ops) example_cluster c \<and> leads c 0 1"
proof -
  let ?c1 = "elect 0 example_cluster"
  let ?c2 = "ask 0 2 (vote_args 0 1) ?c1"
  have 1: "cluster_step True 3 example_ops example_cluster ?c1" by (rule elect_step) simp_all
  have "(0, 2, vote_args 0 1) \<in> requests ?c1" by (rule elect_asks) (simp_all add: example_defs in_int32_def)
  then have 2: "cluster_step True 3 example_ops ?c1 ?c2"
    by (rule ask_step) (simp add: example_defs vote_args_def)
  let ?r = "node ?c2 0"
  let ?v = "\<lparr>v_nodeId = 2, v_currentTerm = 1, v_granted = True\<rparr>"
  have v: "(0, ?v) \<in> replies ?c2"
    by (simp add: VoteRequest_def Let_def vote_of_def vote_args_def example_defs vote_log_ok_def getLastLogTerm_def in_int32_def ResetTimer_def)
  have "\<exists>r'. receiveVote ?r ?v = Some r' \<and> currentRole r' = Leader \<and> currentTerm r' = currentTerm ?r"
    by (rule receiveVote_wins) (simp_all add: startElection_def Let_def example_defs member_def majority_eq go_len_def ResetTimer_def)
  then obtain r' where r': "receiveVote ?r ?v = Some r'" "currentRole r' = Leader" "currentTerm r' = 1"
    by (auto simp: startElection_def Let_def example_defs ResetTimer_def)
  have "cluster_step True 3 example_ops ?c2 (?c2\<lparr>node := (node ?c2)(0 := r')\<rparr>)" by (rule cs_reply [OF v r'(1)])
  with 1 2 have "run (cluster_step True 3 example_ops) example_cluster (?c2\<lparr>node := (node ?c2)(0 := r')\<rparr>)"
    by (meson run.intros)
  with r'(2,3) show ?thesis by (auto simp: leads_def)
qed

theorem election_safety_witness:
  "\<exists>c. run (cluster_step True 3 example_ops) example_cluster c \<and> leads c 0 1 \<and> \<not> leads c 1 1"
proof -
  obtain c where c: "run (cluster_step True 3 example_ops) example_cluster c" "leads c 0 1" using example_election by blast
  have "\<not> leads c 1 1"
  proof
    assume "leads c 1 1"
    then show False
      using election_safety [OF _ c(1) [unfolded example_cluster_def] run_refl _ _ c(2), of 1] by simp
  qed
  with c show ?thesis by blast
qed

lemmas run_simps = startElection_def VoteRequest_def Let_def vote_of_def vote_args_def example_defs vote_log_ok_def
  getLastLogTerm_def in_int32_def ResetTimer_def request_save_def SaveValues_def accept_leader_def

definition voter :: "(unit, testApp) Raft" where
  "voter = fst (VoteRequest (example_node 2) (vote_args 0 2))"

text \<open>Node 0 wins term 2 with the vote of node 2, while its request for term 1 is still under way.\<close>

lemma first_leader:
  "\<exists>c. run (cluster_step False 3 example_ops) example_cluster c \<and> leads c 0 2 \<and> node c 1 = example_node 1 \<and>
     node c 2 = voter \<and> (0, 2, vote_args 0 1) \<in> requests c"
proof -
  let ?S = "cluster_step False 3 example_ops"
  define c1 where "c1 = elect 0 example_cluster"
  define c2 where "c2 = elect 0 c1"
  define c3 where "c3 = ask 0 2 (vote_args 0 2) c2"
  have n1: "node c1 = example_node(0 := fst (startElection (example_node 0)))" by (simp add: c1_def fun_eq_iff)
  have a: "(0, 2, vote_args 0 1) \<in> requests c1" "(0, 2, vote_args 0 2) \<in> requests c2"
    unfolding c1_def c2_def by (rule elect_asks; simp add: run_simps)+
  have "run ?S example_cluster c1" unfolding c1_def by (intro run_single elect_step) simp_all
  then have "run ?S example_cluster c2" unfolding c2_def by (rule run_step) (simp add: elect_step)
  then have 3: "run ?S example_cluster c3" unfolding c3_def by (rule run_step) (rule ask_step [OF a(2)], simp)
  have v3: "(0, \<lparr>v_nodeId = 2, v_currentTerm = 2, v_granted = True\<rparr>) \<in> replies c3"
    by (simp add: c3_def c2_def n1 run_simps)
  have "\<exists>r'. receiveVote (node c3 0) \<lparr>v_nodeId = 2, v_currentTerm = 2, v_granted = True\<rparr> = Some r' \<and>
      currentRole r' = Leader \<and> currentTerm r' = currentTerm (node c3 0)"
    by (rule receiveVote_wins) (simp_all add: c3_def c2_def n1 run_simps member_def majority_eq go_len_def)
  then obtain r' where r': "receiveVote (node c3 0) \<lparr>v_nodeId = 2, v_currentTerm = 2, v_granted = True\<rparr> = Some r'"
    "currentRole r' = Leader" "currentTerm r' = 2" by (auto simp: c3_def c2_def n1 run_simps)
  have "run ?S example_cluster (c3\<lparr>node := (node c3)(0 := r')\<rparr>)" using 3 cs_reply [OF v3 r'(1)] by (rule run_step)
  moreover have "(0, 2, vote_args 0 1) \<in> requests c3" using subsetD [OF elect_simps(3) a(1)] by (simp add: c3_def c2_def)
  moreover have "node c3 1 = example_node 1" "node c3 2 = voter" by (simp_all add: c3_def c2_def n1 voter_def)
  ultimately show ?thesis
    using r'(2,3) by (intro exI [of _ "c3\<lparr>node := (node c3)(0 := r')\<rparr>"]) (simp add: leads_def)
qed

text \<open>C34: Without that restriction the code elects two leaders in one term. In a run of three nodes, node 0 starts two
  elections and wins term 2 with the vote of node 2; node 2 learns who leads; then the request of the first
  election arrives late at node 2. Because it comes from the node that node 2 takes for the leader,
  \<open>VoteRequest\<close> clears the vote of term 2 even though the request is for term 1, and node 2 votes
  a second time in term 2, for node 1, which wins as well.\<close>
theorem two_leaders_in_one_term:
  "\<exists>c. run (cluster_step False 3 example_ops) example_cluster c \<and> leads c 0 2 \<and> leads c 1 2"
proof -
  let ?S = "cluster_step False 3 example_ops"
  obtain c4 where 4: "run ?S example_cluster c4" "leads c4 0 2" "node c4 1 = example_node 1" "node c4 2 = voter"
    "(0, 2, vote_args 0 1) \<in> requests c4" using first_leader by blast
  define c5 where "c5 = c4\<lparr>node := (node c4)(2 := accept_leader (node c4 2) 0 2)\<rparr>"
  define c6 where "c6 = ask 0 2 (vote_args 0 1) c5"
  define c7 where "c7 = elect 1 c6"
  define c8 where "c8 = elect 1 c7"
  define c9 where "c9 = ask 1 2 (vote_args 1 2) c8"
  have n: "node c7 1 = fst (startElection (example_node 1))" "node c6 1 = example_node 1"
    "node c8 2 = fst (VoteRequest (accept_leader voter 0 2) (vote_args 0 1))"
    by (simp_all add: c8_def c7_def c6_def c5_def 4(3,4))
  have n9: "node c9 1 = fst (startElection (fst (startElection (example_node 1))))" "node c9 0 = node c4 0"
    by (simp_all add: c9_def c8_def n(1)) (simp_all add: c7_def c6_def c5_def)
  have a: "(0, 2, vote_args 0 1) \<in> requests c5" using 4(5) by (simp add: c5_def)
  have b: "(1, 2, vote_args 1 2) \<in> requests c8"
    unfolding c8_def by (rule elect_asks) (simp_all add: n(1) run_simps)
  have "run ?S example_cluster c5" unfolding c5_def using 4(1) by (rule run_step) (intro cs_node ns_accept; simp)
  then have "run ?S example_cluster c6" unfolding c6_def by (rule run_step) (rule ask_step [OF a], simp)
  then have "run ?S example_cluster c7" unfolding c7_def by (rule run_step) (simp add: elect_step)
  then have "run ?S example_cluster c8" unfolding c8_def by (rule run_step) (simp add: elect_step)
  then have 9: "run ?S example_cluster c9" unfolding c9_def by (rule run_step) (rule ask_step [OF b], simp)
  let ?v = "\<lparr>v_nodeId = 2, v_currentTerm = 2, v_granted = True\<rparr>"
  have v9: "(1, ?v) \<in> replies c9" by (simp add: c9_def n(3) voter_def run_simps)
  have "\<exists>r'. receiveVote (node c9 1) ?v = Some r' \<and> currentRole r' = Leader \<and> currentTerm r' = currentTerm (node c9 1)"
    by (rule receiveVote_wins) (simp_all add: n9 run_simps member_def majority_eq go_len_def)
  then obtain r' where r': "receiveVote (node c9 1) ?v = Some r'" "currentRole r' = Leader" "currentTerm r' = 2"
    by (auto simp: n9 run_simps)
  have "run ?S example_cluster (c9\<lparr>node := (node c9)(1 := r')\<rparr>)" using 9 cs_reply [OF v9 r'(1)] by (rule run_step)
  then show ?thesis
    using r'(2,3) 4(2) by (intro exI [of _ "c9\<lparr>node := (node c9)(1 := r')\<rparr>"]) (simp add: leads_def n9)
qed
end
