(* ===== verification/Raft_Machine.thy ===== *)
theory Raft_Machine
  imports Raft_Rounds
begin

text \<open>
  A node as a replicated state machine over any sequence of handler calls: the application is always
  the replay of the committed part of one log, and what was applied once stays applied.
\<close>

section \<open>The steps of a node\<close>

text \<open>
  All handlers and timers except the installation of a snapshot, with the one assumption a follower
  makes about its leader: a request never replaces an entry that the follower has committed.
\<close>

inductive log_step :: "('d, 'a) Application \<Rightarrow> ('d, 'a) Raft \<Rightarrow> ('d, 'a) Raft \<Rightarrow> bool" for ops where
  ls_election: "startElection r = (r', voteData, targets) \<Longrightarrow> log_step ops r r'"
| ls_vote_request: "VoteRequest r args = (r', resp) \<Longrightarrow> log_step ops r r'"
| ls_vote: "receiveVote r vote = Some r' \<Longrightarrow> log_step ops r r'"
| ls_log_request: "mapM from_pb_entry (Suffix args) = Some suf \<Longrightarrow> keeps_committed r (PrefixLen args) suf \<Longrightarrow>
    LogRequest ops r args = Some (r', resp') \<Longrightarrow> log_step ops r r'"
| ls_response: "0 \<le> f \<Longrightarrow> f < totalNodes r \<Longrightarrow> replicate_response ops f lresp r = Some r' \<Longrightarrow> log_step ops r r'"
| ls_failed: "log_step ops r (replicate_failed f r)"
| ls_broadcast: "Broadcast peers r message = Some (r', act) \<Longrightarrow> log_step ops r r'"
| ls_heartbeat: "log_step ops r (receiveHeartbeat r)"
| ls_forward: "Forward peers hop r msg = (r', act') \<Longrightarrow> log_step ops r r'"
| ls_save: "log_step ops r (r\<lparr>logSaver := rds\<rparr>)"

text \<open>The handlers that leave log, committed length and application alone.\<close>

lemma startElection_idle: "startElection r = (r', vd, ts) \<Longrightarrow> data r' = data r \<and> tables r' = tables r"
  by (auto simp: startElection_def Let_def data_def tables_def)

lemma VoteRequest_idle: "VoteRequest r args = (r', resp) \<Longrightarrow> data r' = data r \<and> tables r' = tables r"
  by (auto simp: VoteRequest_def Let_def data_def tables_def split: if_splits)

lemma receiveVote_idle:
  assumes "receiveVote r vote = Some r'" and "member r"
  shows "data r' = data r \<and> tables r' = tables r"
proof -
  let ?r = "r\<lparr>votesReceived := insert (v_nodeId vote) (votesReceived r)\<rparr>"
  have "member ?r" using assms(2) by (simp add: member_def)
  from becomeLeader_ok [OF this] assms(1) show ?thesis
    by (auto simp: receiveVote_def Let_def data_def tables_def split: if_splits)
qed

lemma replicate_failed_idle: "data (replicate_failed f r) = data r \<and> tables (replicate_failed f r) = tables r"
  by (simp add: replicate_failed_def checkQuorumHealth_def Let_def data_def tables_def)

lemma Forward_idle: "Forward peers hop r msg = (r', act) \<Longrightarrow> data r' = data r \<and> tables r' = tables r"
  by (auto simp: Forward_def getLeaderData_def data_def tables_def split: if_splits)

section \<open>The invariant\<close>

text \<open>\<open>c\<close> entries \<open>pre\<close> have been committed and applied, and still are.\<close>

definition applied :: "('d, 'a) Application \<Rightarrow> 'a \<Rightarrow> int \<Rightarrow> 'd LogEntry list \<Rightarrow> ('d, 'a) Raft \<Rightarrow> bool" where
  "applied ops a c pre r \<longleftrightarrow> member r \<and>
     (\<exists>full. rsm ops a full r \<and> c \<le> commitedLength r \<and> take (nat c) full = pre)"

lemma applied_idle: "applied ops a c pre r \<Longrightarrow> data r' = data r \<and> tables r' = tables r \<Longrightarrow> applied ops a c pre r'"
  using rsm_data [of r' r] member_tables [of r' r] by (auto simp: applied_def data_def)

lemma applied_later:
  assumes "rsm ops a full r" and "c \<le> commitedLength r" and "rsm ops a full' r'" and "member r'"
    and "commitedLength r \<le> commitedLength r'"
    and "take (nat (commitedLength r)) full' = take (nat (commitedLength r)) full"
  shows "applied ops a c (take (nat c) full) r'"
proof -
  have "take (nat c) full' = take (nat c) full"
    using arg_cong [OF assms(6), of "take (nat c)"] assms(2) by (simp add: min_absorb1 nat_mono)
  with assms show ?thesis by (auto simp: applied_def)
qed

lemma LogRequest_member:
  "core r' = core (accept_leader r l t) \<Longrightarrow> member r \<Longrightarrow> member r'"
  by (simp add: core_def member_def)

lemma log_step_applied:
  assumes "log_step ops r r'" and "applied ops a c pre r"
  shows "applied ops a c pre r'"
proof -
  from assms(2) obtain full where r: "member r" "rsm ops a full r" "c \<le> commitedLength r" "pre = take (nat c) full"
    by (auto simp: applied_def)
  from assms(1) show ?thesis
  proof cases
    case (ls_log_request args suf resp)
    from LogRequest_rsm [OF r(2) ls_log_request(1,2)] ls_log_request(3) obtain full' where
      "rsm ops a full' r'" "core r' = core (accept_leader r (LeaderId args) (lr_Term args))"
      "commitedLength r \<le> commitedLength r'" "take (nat (commitedLength r)) full' = take (nat (commitedLength r)) full" by auto
    then show ?thesis using applied_later [OF r(2,3)] LogRequest_member r(1,4) by blast
  next
    case (ls_response f resp)
    from replicate_response_rsm [OF r(2,1) ls_response(1,2), of resp] ls_response(3) show ?thesis
      using applied_later [OF r(2,3)] r(4) by auto
  next
    case (ls_broadcast peers message act)
    show ?thesis
    proof (cases "currentRole r = Leader")
      case True
      then have "broadcast_append r message = Some r'" using ls_broadcast by (auto simp: Broadcast_def getLeaderData_def)
      with broadcast_append_rsm [OF r(2,1), of message] have
        "rsm ops a (full @ [\<lparr>Term = currentTerm r, Msg = message\<rparr>]) r'" "member r'" "commitedLength r \<le> commitedLength r'" by auto
      from applied_later [OF r(2,3) this] r(2) show ?thesis by (simp add: r(4) rsm_def go_len_def nat_le_iff)
    next
      case False
      with ls_broadcast have "data r' = data r \<and> tables r' = tables r"
        by (auto simp: Broadcast_def getLeaderData_def data_def tables_def split: if_splits)
      with assms(2) show ?thesis by (rule applied_idle)
    qed
  next
    case ls_heartbeat
    then show ?thesis using applied_idle [OF assms(2)] by (simp add: receiveHeartbeat_def data_def tables_def)
  next
    case (ls_save rds)
    then show ?thesis using applied_idle [OF assms(2)] by (simp add: data_def tables_def)
  qed (use applied_idle [OF assms(2)] startElection_idle VoteRequest_idle receiveVote_idle r(1) replicate_failed_idle Forward_idle in blast)+
qed

interpretation machine: step_invariant "log_step ops" "applied ops a c pre" for ops a c pre
  by unfold_locales (rule log_step_applied)



end
