(* ===== verification/Raft_Persist.thy ===== *)
theory Raft_Persist
  imports Raft_Snapshot
begin

text \<open>
  Persistence (\<open>persistance.go\<close>) and start-up (\<open>NewRaft\<close>). Opening, writing and syncing the files of
  the data directory succeeds; a file that was never written does not exist.

  \<open>encoding/gob\<close> writes structs without their channel fields, and leaves out a field whose value is zero
  behind a pointer too, so that a pointer to 0 comes back as nil. Each encoder starts its stream with the
  types it uses, and a decoder that meets the same type again fails with \<open>duplicate type received\<close>:
  a file made of several non-empty streams cannot be read by one decoder.
\<close>

section \<open>Saving\<close>

definition gob_entry :: "'d LogEntry \<Rightarrow> 'd LogEntry" where
  "gob_entry e = (strip_chan e)\<lparr>Msg := (Msg (strip_chan e))
     \<lparr>Value := (if Value (Msg e) = Some 0 then None else Value (Msg e))\<rparr>\<rparr>"

definition saveLog :: "'d LogEntry list \<Rightarrow> 'd LogEntry list list option \<Rightarrow> 'd LogEntry list list" where
  "saveLog logs file = (case file of None \<Rightarrow> [] | Some streams \<Rightarrow> streams) @ [map gob_entry logs]"

definition saveMetadata :: "int \<Rightarrow> int \<Rightarrow> int \<Rightarrow> 'd DataSaver \<Rightarrow> 'd DataSaver" where
  "saveMetadata term voted committed rds = rds\<lparr>metadataFile := Some (term, voted, committed)\<rparr>"

definition saveValuesManager :: "int \<Rightarrow> int \<Rightarrow> int \<Rightarrow> 'd LogEntry list \<Rightarrow> 'd DataSaver \<Rightarrow> 'd DataSaver" where
  "saveValuesManager term voted committed logs rds =
     (let rds = saveMetadata term voted committed rds in rds\<lparr>logsFile := Some (saveLog logs (logsFile rds))\<rparr>)"

definition maxBatchSize :: nat where
  "maxBatchSize = 10000"

text \<open>
  One save by a worker, when no handler changes the log between its two looks at it. Nothing is written
  when all entries have been saved before.
\<close>

definition doSaveValues :: "('d, 'a) Raft \<Rightarrow> ('d, 'a) Raft" where
  "doSaveValues r =
     (let rds = logSaver r;
          len = go_len (raft_log r);
          rds = (if previousSavedIndex rds > len then rds\<lparr>previousSavedIndex := len\<rparr> else rds);
          idx = previousSavedIndex rds
      in if idx = len then r\<lparr>logSaver := rds\<rparr>
         else
           let logCopy = take maxBatchSize (drop (nat idx) (raft_log r));
               rds = saveValuesManager (currentTerm r) (votedFor r) (commitedLength r) logCopy rds;
               newIndex = idx + go_len logCopy;
               newIndex = (if newIndex > len then len else newIndex);
               rds = rds\<lparr>previousSavedIndex := newIndex\<rparr>
           in if newIndex < len \<and> saveQueue rds < 1024
              then r\<lparr>logSaver := rds\<lparr>saveQueue := saveQueue rds + 1, pendingSaves := pendingSaves rds + 1\<rparr>\<rparr>
              else r\<lparr>logSaver := rds\<rparr>)"

text \<open>A worker takes a request from the queue, if there is one.\<close>

definition saveWorker :: "('d, 'a) Raft \<Rightarrow> ('d, 'a) Raft" where
  "saveWorker r =
     (if saveQueue (logSaver r) = 0 then r
      else
        let r = r\<lparr>logSaver := (logSaver r)\<lparr>saveQueue := saveQueue (logSaver r) - 1\<rparr>\<rparr>;
            r = doSaveValues r
        in r\<lparr>logSaver := (logSaver r)\<lparr>lastSaveErr := None, pendingSaves := pendingSaves (logSaver r) - 1\<rparr>\<rparr>)"

section \<open>Loading\<close>

definition loadLogs :: "'d LogEntry list list \<Rightarrow> string + 'd LogEntry list" where
  "loadLogs streams =
     (case filter (\<lambda>s. s \<noteq> []) streams of
        [] \<Rightarrow> Inr []
      | [s] \<Rightarrow> Inr s
      | _ \<Rightarrow> Inl ''decode log entry: gob: duplicate type received'')"

definition LoadValues :: "'d DataSaver \<Rightarrow> 'd DataSaver \<times> (string + int \<times> int \<times> int \<times> 'd LogEntry list)" where
  "LoadValues rds =
     (case logsFile rds of
        None \<Rightarrow> (rds, Inl ''open file'')
      | Some streams \<Rightarrow>
          (case metadataFile rds of
             None \<Rightarrow> (rds, Inl ''open file'')
           | Some (term, voted, committed) \<Rightarrow>
               (case loadLogs streams of
                  Inl err \<Rightarrow> (rds, Inl err)
                | Inr logs \<Rightarrow> (rds\<lparr>previousSavedIndex := go_len logs\<rparr>, Inr (term, voted, committed, logs)))))"

text \<open>
  \<open>NewRaft\<close> over the files it finds. It restores the application from the snapshot only when reading
  the snapshot failed, with no data.
\<close>

definition NewRaft :: "('d, 'a) Application \<Rightarrow> 'a \<Rightarrow> int \<Rightarrow> int \<Rightarrow> int \<Rightarrow>
    'd LogEntry list list option \<Rightarrow> (int \<times> int \<times> int) option \<Rightarrow> byte list option \<Rightarrow> ('d, 'a) Raft" where
  "NewRaft ops app raftId n threshold logs meta snap =
     (let r = initial_raft app raftId n threshold (NewRaftDataSaver logs meta snap);
          (rds, loaded) = LoadValues (logSaver r);
          r = r\<lparr>logSaver := rds\<rparr>;
          r = (case loaded of
                 Inl _ \<Rightarrow> r
               | Inr (term, voted, committed, savedLog) \<Rightarrow>
                   r\<lparr>currentTerm := term, votedFor := voted, commitedLength := committed, raft_log := savedLog\<rparr>)
      in case ReadSnapshotData (logSaver r) of
           Inl _ \<Rightarrow> r\<lparr>application := fst (RestoreFromSnapshot ops (application r) [])\<rparr>
         | Inr _ \<Rightarrow> r)"

text \<open>A restart of a node: a new process with the same configuration over the files of the old one.\<close>

definition restart :: "('d, 'a) Application \<Rightarrow> 'a \<Rightarrow> ('d, 'a) Raft \<Rightarrow> ('d, 'a) Raft" where
  "restart ops app r = NewRaft ops app (raft_id r) (totalNodes r) (snapshotThreshold (snapshotter r))
     (logsFile (logSaver r)) (metadataFile (logSaver r)) (snapshotFile (logSaver r))"

section \<open>What a restart brings back\<close>

definition gob_safe :: "'d LogEntry \<Rightarrow> bool" where
  "gob_safe e \<longleftrightarrow> ResponseChan (Msg e) = None \<and> Value (Msg e) \<noteq> Some 0"

lemma gob_entry_safe: "gob_safe e \<Longrightarrow> gob_entry e = e"
  by (simp add: gob_safe_def gob_entry_def strip_chan_def)

lemma gob_entries_safe: "\<forall>e \<in> set es. gob_safe e \<Longrightarrow> map gob_entry es = es"
  by (simp add: map_idI gob_entry_safe)

lemma doSaveValues_first:
  assumes "previousSavedIndex (logSaver r) = 0" and "raft_log r \<noteq> []" and "length (raft_log r) \<le> maxBatchSize"
  shows "doSaveValues r = r\<lparr>logSaver := (logSaver r)\<lparr>metadataFile := Some (currentTerm r, votedFor r, commitedLength r),
    logsFile := Some (saveLog (raft_log r) (logsFile (logSaver r))), previousSavedIndex := go_len (raft_log r)\<rparr>\<rparr>"
proof -
  have "0 < go_len (raft_log r)" using assms(2) by (simp add: go_len_def)
  with assms show ?thesis by (simp add: doSaveValues_def saveValuesManager_def saveMetadata_def Let_def)
qed


definition example_saved :: "(unit, testApp) Raft" where
  "example_saved = (example_node 1)\<lparr>currentTerm := 2, votedFor := 0, commitedLength := 1, application := [1 \<mapsto> 10],
     raft_log := [\<lparr>Term = 1, Msg = example_put 1 10 None\<rparr>]\<rparr>"


text \<open>Once entries have been saved a second time, the log file consists of two streams and cannot be read
  back: a restart then begins with term 0, no vote and an empty log, whatever was saved.\<close>
theorem restart_after_second_save:
  assumes "previousSavedIndex (logSaver r) = 0" and "logsFile (logSaver r) = None" and "raft_log r \<noteq> []"
    and "length (raft_log r) \<le> maxBatchSize" and "new \<noteq> []" and "length new \<le> maxBatchSize"
  shows "let r1 = doSaveValues r; r2 = doSaveValues (r1\<lparr>raft_log := raft_log r1 @ new\<rparr>); r' = restart ops app r2
    in currentTerm r' = 0 \<and> votedFor r' = -1 \<and> commitedLength r' = 0 \<and> raft_log r' = []"
proof -
  let ?rds = "(logSaver r)\<lparr>metadataFile := Some (currentTerm r, votedFor r, commitedLength r),
    logsFile := Some [map gob_entry (raft_log r)], previousSavedIndex := go_len (raft_log r)\<rparr>"
  have r1: "doSaveValues r = r\<lparr>logSaver := ?rds\<rparr>"
    using doSaveValues_first [OF assms(1,3,4)] assms(2) by (simp add: saveLog_def)
  have "logsFile (logSaver (doSaveValues (r\<lparr>logSaver := ?rds, raft_log := raft_log r @ new\<rparr>))) =
      Some [map gob_entry (raft_log r), map gob_entry new]"
    using assms(5,6) by (simp add: doSaveValues_def saveValuesManager_def saveMetadata_def saveLog_def Let_def go_len_def)
  then show ?thesis
    using assms(3,5) by (simp add: Let_def r1 restart_def NewRaft_def LoadValues_def loadLogs_def
        NewRaftDataSaver_def initial_raft_def newSnapshotter_def ReadSnapshotData_def split: option.split)
qed

theorem restart_after_second_save_witness:
  "let r1 = doSaveValues example_saved; r2 = doSaveValues (r1\<lparr>raft_log := raft_log r1 @ raft_log r1\<rparr>);
       r' = restart example_ops newTestApp r2
   in currentTerm r' = 0 \<and> votedFor r' = -1 \<and> commitedLength r' = 0 \<and> raft_log r' = []"
proof -
  have eq: "raft_log (doSaveValues example_saved) = raft_log example_saved"
    by (simp add: doSaveValues_def Let_def)
  show ?thesis
    using restart_after_second_save [of example_saved "raft_log example_saved" example_ops newTestApp] unfolding eq Let_def
    by (simp add: example_saved_def example_defs maxBatchSize_def)
qed

text \<open>A vote is not written to disk unless there are unsaved log entries: when all entries have been saved,
  granting a vote in a new term and saving leaves the metadata file as it was, so that a
  restarted node can vote a second time in that term.\<close>
theorem granted_vote_is_not_saved:
  assumes "previousSavedIndex (logSaver r) = go_len (raft_log r)" and "VoteRequest r args = (r', resp)" and "vr_Granted resp"
  shows "votedFor r' = CandidateId args \<and> currentTerm r' = CandidateTerm args \<and>
    metadataFile (logSaver (doSaveValues r')) = metadataFile (logSaver r)"
proof -
  have "raft_log r' = raft_log r" "previousSavedIndex (logSaver r') = previousSavedIndex (logSaver r)"
    "metadataFile (logSaver r') = metadataFile (logSaver r)" "votedFor r' = CandidateId args" "currentTerm r' = CandidateTerm args"
    using assms(2,3) by (auto simp: VoteRequest_def Let_def request_save_def SaveValues_def split: if_splits)
  with assms(1) show ?thesis by (simp add: doSaveValues_def Let_def)
qed

theorem granted_vote_is_not_saved_witness:
  "metadataFile (logSaver (doSaveValues (fst (VoteRequest (example_node 2)
     \<lparr>CandidateId = 1, CandidateTerm = 7, CandidateLogLength = 0, CandidateLogTerm = 0\<rparr>)))) = None"
proof -
  let ?args = "\<lparr>CandidateId = 1, CandidateTerm = 7, CandidateLogLength = 0, CandidateLogTerm = 0\<rparr>"
  have g: "vr_Granted (snd (VoteRequest (example_node 2) ?args))"
    by (simp add: VoteRequest_def Let_def vote_log_ok_def getLastLogTerm_def example_defs ResetTimer_def)
  have "metadataFile (logSaver (doSaveValues (fst (VoteRequest (example_node 2) ?args)))) = metadataFile (logSaver (example_node 2))"
    using granted_vote_is_not_saved [of "example_node 2" ?args "fst (VoteRequest (example_node 2) ?args)" "snd (VoteRequest (example_node 2) ?args)"] g
    by (simp add: example_defs)
  then show ?thesis by (simp add: example_defs)
qed

end
