(* ===== verification/Raft_Timer.thy ===== *)
theory Raft_Timer
  imports Raft_Node
begin

text \<open>
  The election timer (\<open>electionTimerLoop\<close> of \<open>election.go\<close>) and the heartbeats that hold it back, over time. The loop waits for a token in \<open>resetTimerCh\<close> or for
  the timer; the timer's own channel holds at most one value.
\<close>

definition minElectionTimeout :: duration where
  "minElectionTimeout = 400000000"

definition maxElectionTimeout :: duration where
  "maxElectionTimeout = 800000000"

text \<open>\<open>draw\<close> is the random number.\<close>

definition nextTimeout :: "nat \<Rightarrow> duration" where
  "nextTimeout draw = minElectionTimeout + int draw mod (maxElectionTimeout - minElectionTimeout)"

record ('d, 'a) TimedNode =
  tn_raft :: "('d, 'a) Raft"
  tn_now :: go_time
  tn_deadline :: go_time
  tn_fired :: bool

definition NewRaftElector :: "nat \<Rightarrow> go_time \<Rightarrow> ('d, 'a) Raft \<Rightarrow> ('d, 'a) TimedNode" where
  "NewRaftElector draw now r = \<lparr>tn_raft = r, tn_now = now, tn_deadline = now + nextTimeout draw, tn_fired = False\<rparr>"

text \<open>Time passes; the timer fires when its deadline is reached.\<close>

definition pass :: "duration \<Rightarrow> ('d, 'a, 'z) TimedNode_scheme \<Rightarrow> ('d, 'a, 'z) TimedNode_scheme" where
  "pass d n = n\<lparr>tn_now := tn_now n + d, tn_fired := (tn_fired n \<or> tn_deadline n \<le> tn_now n + d)\<rparr>"

text \<open>The two cases of the loop: the token resets the timer and drains its channel, the timer starts an election unless the node leads or installs a snapshot.\<close>

definition elector_reset :: "nat \<Rightarrow> ('d, 'a, 'z) TimedNode_scheme \<Rightarrow> ('d, 'a, 'z) TimedNode_scheme" where
  "elector_reset draw n = n\<lparr>tn_raft := (tn_raft n)\<lparr>resetTimerCh := False\<rparr>, tn_deadline := tn_now n + nextTimeout draw, tn_fired := False\<rparr>"

definition elector_fire :: "nat \<Rightarrow> ('d, 'a, 'z) TimedNode_scheme \<Rightarrow> ('d, 'a, 'z) TimedNode_scheme" where
  "elector_fire draw n = n\<lparr>tn_raft := fst (election_timeout (tn_raft n)), tn_deadline := tn_now n + nextTimeout draw, tn_fired := False\<rparr>"

definition hear :: "('d, 'a, 'z) TimedNode_scheme \<Rightarrow> ('d, 'a, 'z) TimedNode_scheme" where
  "hear n = n\<lparr>tn_raft := receiveHeartbeat (tn_raft n)\<rparr>"

text \<open>A tick of the leader's heartbeat timer, which runs all the time: the nodes that get a heartbeat.\<close>

definition heartbeat_interval :: duration where
  "heartbeat_interval = 100000000"

definition heartbeat_tick :: "(int \<Rightarrow> bool) \<Rightarrow> ('d, 'a) Raft \<Rightarrow> int list" where
  "heartbeat_tick peers r = (if currentRole r = Leader then heartbeat_targets peers r else [])"

section \<open>A follower that hears its leader\<close>

text \<open>
  The follower receives a heartbeat at least once every \<open>period\<close>, and its loop takes a waiting token within \<open>delay\<close>. The state has the time of the last heartbeat and the time since which a
  token waits.
\<close>

record ('d, 'a) HeardNode = "('d, 'a) TimedNode" +
  heard :: go_time
  waiting :: go_time

inductive follower_step :: "duration \<Rightarrow> duration \<Rightarrow> ('d, 'a) HeardNode \<Rightarrow> ('d, 'a) HeardNode \<Rightarrow> bool" for period delay where
  fs_hear: "follower_step period delay n ((hear n)\<lparr>heard := tn_now n, waiting := (if resetTimerCh (tn_raft n) then waiting n else tn_now n)\<rparr>)"
| fs_pass: "0 \<le> d \<Longrightarrow> tn_now n + d \<le> heard n + period \<Longrightarrow> (resetTimerCh (tn_raft n) \<Longrightarrow> tn_now n + d \<le> waiting n + delay) \<Longrightarrow>
    follower_step period delay n (pass d n)"
| fs_reset: "resetTimerCh (tn_raft n) \<Longrightarrow> follower_step period delay n (elector_reset draw n)"
| fs_fire: "tn_fired n \<Longrightarrow> follower_step period delay n (elector_fire draw n)"

definition quiet :: "duration \<Rightarrow> duration \<Rightarrow> ('d, 'a) Raft \<Rightarrow> ('d, 'a) HeardNode \<Rightarrow> bool" where
  "quiet period delay r n \<longleftrightarrow>
     (\<exists>taken. taken + minElectionTimeout \<le> tn_deadline n \<and> \<not> tn_fired n \<and> heard n \<le> tn_now n \<and> taken \<le> tn_now n \<and> tn_now n \<le> heard n + period \<and>
        (if resetTimerCh (tn_raft n) then waiting n \<le> taken + period \<and> tn_now n \<le> waiting n + delay else heard n \<le> taken))
     \<and> (tn_raft n)\<lparr>resetTimerCh := False\<rparr> = r\<lparr>resetTimerCh := False\<rparr>"

lemma nextTimeout_bounds: "minElectionTimeout \<le> nextTimeout draw" "nextTimeout draw < maxElectionTimeout"
  by (simp_all add: nextTimeout_def minElectionTimeout_def maxElectionTimeout_def)

lemma quiet_step:
  assumes "follower_step period delay n n'" and "quiet period delay r n" and "0 \<le> period" and "0 \<le> delay" and "period + delay < minElectionTimeout"
  shows "quiet period delay r n'"
proof -
  obtain taken where q: "taken + minElectionTimeout \<le> tn_deadline n" "\<not> tn_fired n" "heard n \<le> tn_now n" "taken \<le> tn_now n" "tn_now n \<le> heard n + period"
    "if resetTimerCh (tn_raft n) then waiting n \<le> taken + period \<and> tn_now n \<le> waiting n + delay else heard n \<le> taken"
    and r: "(tn_raft n)\<lparr>resetTimerCh := False\<rparr> = r\<lparr>resetTimerCh := False\<rparr>"
    using assms(2) by (auto simp: quiet_def)
  from assms(1) show ?thesis
  proof cases
    case fs_hear
    then show ?thesis using q r assms(3,4)
      by (auto simp: quiet_def hear_def receiveHeartbeat_def ResetTimer_def intro!: exI [of _ taken] split: if_splits)
  next
    case (fs_pass d)
    then have "tn_now n + d < taken + minElectionTimeout" using q assms(3-5) by (auto split: if_splits)
    then show ?thesis using fs_pass q r by (auto simp: quiet_def pass_def intro!: exI [of _ taken] split: if_splits)
  next
    case (fs_reset draw)
    then show ?thesis using q r nextTimeout_bounds [of draw]
      by (auto simp: quiet_def elector_reset_def intro!: exI [of _ "tn_now n"])
  next
    case (fs_fire draw)
    then show ?thesis using q by simp
  qed
qed

interpretation follower: step_invariant "follower_step period delay"
  "\<lambda>n. quiet period delay r n \<and> 0 \<le> period \<and> 0 \<le> delay \<and> period + delay < minElectionTimeout" for period delay r
  by unfold_locales (auto intro: quiet_step)

text \<open>A leader that is heard stays: while a follower gets a heartbeat at least once every \<open>period\<close> and its timer loop takes the token within \<open>delay\<close>, together less than the
  smallest election timeout of 400 ms, the follower never starts an election; its term, vote, role and log are those it had, whatever the random timeouts are.
\<close>

theorem heard_follower_stays:
  assumes "run (follower_step period delay) n n'" and "0 \<le> period" and "0 \<le> delay" and "period + delay < minElectionTimeout"
    and "n = \<lparr>tn_raft = r, tn_now = now, tn_deadline = now + nextTimeout draw, tn_fired = False, heard = now, waiting = now\<rparr>"
  shows "\<not> tn_fired n' \<and> (tn_raft n')\<lparr>resetTimerCh := False\<rparr> = r\<lparr>resetTimerCh := False\<rparr>"
proof -
  have "quiet period delay r n" using assms(2,3,5) nextTimeout_bounds [of draw] by (auto simp: quiet_def intro!: exI [of _ now])
  then show ?thesis using follower.run_inv [OF assms(1), of r] assms(2-4) by (auto simp: quiet_def)
qed

definition sample_follower :: "(unit, unit) Raft" where
  "sample_follower = initial_raft () 1 3 100 (NewRaftDataSaver None None None)"

definition sample_timed :: "(unit, unit) HeardNode" where
  "sample_timed = \<lparr>tn_raft = sample_follower, tn_now = 0, tn_deadline = 0 + nextTimeout 7, tn_fired = False, heard = 0, waiting = 0\<rparr>"

text \<open>A heartbeat after one interval of the leader's timer, which the loop takes 10 ms later.\<close>

theorem heard_follower_stays_witness:
  "\<exists>n'. run (follower_step heartbeat_interval 10000000) sample_timed n' \<and> tn_now n' = 110000000 \<and> \<not> tn_fired n' \<and>
     (tn_raft n')\<lparr>resetTimerCh := False\<rparr> = sample_follower\<lparr>resetTimerCh := False\<rparr>"
proof -
  let ?step = "follower_step heartbeat_interval 10000000"
  let ?a = "pass 100000000 sample_timed"
  let ?b = "(hear ?a)\<lparr>heard := tn_now ?a, waiting := (if resetTimerCh (tn_raft ?a) then waiting ?a else tn_now ?a)\<rparr>"
  let ?c = "pass 10000000 ?b"
  note sample = sample_timed_def sample_follower_def initial_raft_def
  have "?step sample_timed ?a" by (rule fs_pass) (simp_all add: sample heartbeat_interval_def)
  moreover have "?step ?a ?b" by (rule fs_hear)
  moreover have "?step ?b ?c" by (rule fs_pass) (simp_all add: heartbeat_interval_def sample pass_def hear_def receiveHeartbeat_def ResetTimer_def)
  moreover have "?step ?c (elector_reset 3 ?c)"
    by (rule fs_reset) (simp add: pass_def hear_def receiveHeartbeat_def ResetTimer_def)
  ultimately have run: "run ?step sample_timed (elector_reset 3 ?c)" by (meson run_refl run_step)
  have "tn_now (elector_reset 3 ?c) = 110000000" by (simp add: elector_reset_def pass_def hear_def sample_timed_def)
  moreover have "0 \<le> heartbeat_interval" "(0 :: int) \<le> 10000000" "heartbeat_interval + 10000000 < minElectionTimeout"
    by (simp_all add: minElectionTimeout_def heartbeat_interval_def)
  note heard_follower_stays [OF run this sample_timed_def]
  ultimately show ?thesis using run by blast
qed

text \<open>C21: A leader that falls silent is challenged: a node that does not lead and installs no snapshot has its timer fired 800 ms after the last reset, and the election it starts
  makes it a candidate of the next term with its own vote, which asks every other node; the timer runs again.
\<close>

theorem silent_leader_is_challenged:
  assumes "currentRole (tn_raft n) \<noteq> Leader" and "\<not> installingSnapshot (snapshotter (tn_raft n))" and "maxElectionTimeout \<le> d"
  shows "let n1 = pass d (elector_reset draw n); n2 = elector_fire draw' n1; r = tn_raft n2
    in tn_fired n1 \<and> currentRole r = Candidate \<and> currentTerm r = currentTerm (tn_raft n) + 1 \<and> votedFor r = raft_id r \<and> votesReceived r = {raft_id r}
      \<and> snd (election_timeout (tn_raft n1)) = Some
          (\<lparr>vd_candidateId = raft_id r, vd_candidateTerm = currentTerm r, vd_candidateLogLength = abs_len r, vd_candidateLogTerm = getLastLogTerm r\<rparr>,
           filter (\<lambda>i. i \<noteq> raft_id r) [0..totalNodes r - 1])
      \<and> \<not> tn_fired n2 \<and> tn_now n2 < tn_deadline n2"
  using assms nextTimeout_bounds [of draw] nextTimeout_bounds [of draw']
  by (simp add: Let_def pass_def elector_reset_def elector_fire_def election_timeout_def startElection_def ResetTimer_def minElectionTimeout_def getLastLogTerm_def)

theorem silent_leader_is_challenged_witness:
  "currentRole (tn_raft (elector_fire 5 (pass 800000000 (elector_reset 7 sample_timed)))) = Candidate"
  using silent_leader_is_challenged [of sample_timed 800000000 7 5]
  by (simp add: Let_def sample_timed_def sample_follower_def initial_raft_def newSnapshotter_def maxElectionTimeout_def)

end
