(* ===== verification/Datanode.thy ===== *)
theory Datanode
  imports Cache_Model Metadata
begin

text \<open>
  The data node of \<open>pkg/datanode\<close>: the topology it holds (\<open>StateManager\<close>), its lease
  (\<open>LeaseManager\<close>), and the HTTP handlers of \<open>Server\<close>. The nodes of the cluster are a map from base
  URLs to servers, so that a handler that calls another node acts on the whole map.

  A request body is what its JSON decoder yields, \<^term>\<open>None\<close> when it fails. Strings that come out of a
  JSON decoder are valid UTF-8 and go through an encoder and a decoder unchanged, and so do
  epochs and maps of such strings. The clock is the argument \<open>now\<close>.
\<close>

section \<open>State\<close>

record WriteRequest =
  w_Key :: string
  w_Value :: string
  w_Epoch :: uint64

record DeleteRequest =
  d_Key :: string
  d_Epoch :: uint64

record LeaseManager =
  validUntil :: go_time
  lease_duration :: duration
  lease_nodeID :: string

record Server =
  store :: ConcurrentMapCache
  lease :: LeaseManager
  config :: ClusterConfig
  nodeID :: string

definition NewStateManager :: ClusterConfig where
  "NewStateManager = \<lparr>Epoch = 0, TotalShards = 0, Nodes = Map.empty, Shards = Map.empty\<rparr>"

definition NewLeaseManager :: "string \<Rightarrow> duration \<Rightarrow> LeaseManager" where
  "NewLeaseManager node dur = \<lparr>validUntil = zero_time, lease_duration = dur, lease_nodeID = node\<rparr>"

definition NewServer :: "ConcurrentMapCache \<Rightarrow> LeaseManager \<Rightarrow> ClusterConfig \<Rightarrow> string \<Rightarrow> Server" where
  "NewServer c l s node = \<lparr>store = c, lease = l, config = s, nodeID = node\<rparr>"

definition StateManager_Update :: "ClusterConfig \<Rightarrow> Server \<Rightarrow> Server" where
  "StateManager_Update cfg s = s\<lparr>config := cfg\<rparr>"

definition GetEpoch :: "Server \<Rightarrow> uint64" where
  "GetEpoch s = Epoch (config s)"

fun replica_urls :: "(string \<rightharpoonup> NodeMetadata) \<Rightarrow> string list \<Rightarrow> string list" where
  "replica_urls nodes [] = []"
| "replica_urls nodes (r # rs) =
     (case nodes r of None \<Rightarrow> [] | Some node \<Rightarrow> [''http://'' @ Address node]) @ replica_urls nodes rs"

definition GetReplicaURLs :: "Server \<Rightarrow> int \<Rightarrow> string list" where
  "GetReplicaURLs s shardID =
     (case Shards (config s) shardID of
        None \<Rightarrow> []
      | Some shard \<Rightarrow> replica_urls (Nodes (config s)) (ReplicaIDs shard))"

section \<open>The lease\<close>

definition IsActive :: "go_time \<Rightarrow> LeaseManager \<Rightarrow> bool" where
  "IsActive now l \<longleftrightarrow> now < validUntil l"

definition extendLease :: "go_time \<Rightarrow> LeaseManager \<Rightarrow> LeaseManager" where
  "extendLease now l = l\<lparr>validUntil := now + lease_duration l\<rparr>"

text \<open>
  The controller's answers: \<^term>\<open>None\<close> when the request fails, otherwise the status and the decoded body.
\<close>

definition fetchTopology :: "(http_status \<times> ClusterConfig option) option \<Rightarrow> Server \<Rightarrow> Server" where
  "fetchTopology topo s =
     (case topo of
        None \<Rightarrow> s
      | Some (status, cfg) \<Rightarrow>
          if status \<noteq> StatusOK then s
          else (case cfg of None \<Rightarrow> s | Some cfg \<Rightarrow> StateManager_Update cfg s))"

definition renew :: "(http_status \<times> uint64 option) option \<Rightarrow> (http_status \<times> ClusterConfig option) option \<Rightarrow>
    Server \<Rightarrow> Server \<times> bool" where
  "renew heartbeat topo s =
     (case heartbeat of
        None \<Rightarrow> (s, False)
      | Some (status, epoch) \<Rightarrow>
          if status \<noteq> StatusOK then (s, False)
          else (case epoch of
                  None \<Rightarrow> (s, True)
                | Some e \<Rightarrow> (if e > GetEpoch s then fetchTopology topo s else s, True)))"

text \<open>A tick of the renewal timer; the answers have arrived at time \<open>now\<close>.\<close>

definition lease_tick :: "go_time \<Rightarrow> (http_status \<times> uint64 option) option \<Rightarrow>
    (http_status \<times> ClusterConfig option) option \<Rightarrow> Server \<Rightarrow> Server" where
  "lease_tick now heartbeat topo s =
     (case renew heartbeat topo s of
        (s', True) \<Rightarrow> s'\<lparr>lease := extendLease now (lease s')\<rparr>
      | (s', False) \<Rightarrow> s')"

section \<open>Calls between nodes\<close>

type_synonym nodes = "string \<rightharpoonup> Server"

text \<open>A call may be lost on the way there, or its answer on the way back, after it took effect.\<close>

datatype delivery = Delivered | RequestLost | ReplyLost

definition call :: "(string \<Rightarrow> delivery) \<Rightarrow> string \<Rightarrow> (Server \<Rightarrow> Server \<times> http_status) \<Rightarrow> nodes \<Rightarrow>
    nodes \<times> http_status option" where
  "call net url handler ns =
     (if net url = RequestLost then (ns, None)
      else (case ns url of
              None \<Rightarrow> (ns, None)
            | Some s \<Rightarrow> (case handler s of (s', status) \<Rightarrow>
                (ns(url \<mapsto> s'), if net url = Delivered then Some status else None))))"

section \<open>Handlers\<close>

definition HandleReplicate :: "WriteRequest option \<Rightarrow> Server \<Rightarrow> Server \<times> http_status" where
  "HandleReplicate body s =
     (case body of
        None \<Rightarrow> (s, StatusBadRequest)
      | Some req \<Rightarrow>
          if w_Epoch req < GetEpoch s then (s, StatusPreconditionFailed)
          else (s\<lparr>store := ConcurrentMapCache_Put (store s) (w_Key req) (w_Value req)\<rparr>, StatusOK))"

definition HandleDeleteReplicate :: "DeleteRequest option \<Rightarrow> Server \<Rightarrow> Server \<times> http_status" where
  "HandleDeleteReplicate body s =
     (case body of
        None \<Rightarrow> (s, StatusBadRequest)
      | Some req \<Rightarrow>
          if d_Epoch req < GetEpoch s then (s, StatusPreconditionFailed)
          else (s\<lparr>store := ConcurrentMapCache_Delete (store s) (d_Key req)\<rparr>, StatusOK))"

text \<open>\<open>sendReplication\<close> and \<open>sendDeleteReplication\<close>: whether the replica answered \<open>200\<close>.\<close>

definition sendReplication :: "(string \<Rightarrow> delivery) \<Rightarrow> string \<Rightarrow> WriteRequest \<Rightarrow> nodes \<Rightarrow> nodes \<times> bool" where
  "sendReplication net replicaURL req ns =
     (case call net replicaURL (HandleReplicate (Some req)) ns of (ns', status) \<Rightarrow> (ns', status = Some StatusOK))"

definition sendDeleteReplication :: "(string \<Rightarrow> delivery) \<Rightarrow> string \<Rightarrow> DeleteRequest \<Rightarrow> nodes \<Rightarrow> nodes \<times> bool" where
  "sendDeleteReplication net replicaURL req ns =
     (case call net replicaURL (HandleDeleteReplicate (Some req)) ns of (ns', status) \<Rightarrow> (ns', status = Some StatusOK))"

text \<open>The loop over the replicas stops at the first failure.\<close>

fun replicate_loop :: "(string \<Rightarrow> nodes \<Rightarrow> nodes \<times> bool) \<Rightarrow> string list \<Rightarrow> nodes \<Rightarrow> nodes \<times> bool" where
  "replicate_loop send [] ns = (ns, True)"
| "replicate_loop send (url # urls) ns =
     (case send url ns of
        (ns', True) \<Rightarrow> replicate_loop send urls ns'
      | (ns', False) \<Rightarrow> (ns', False))"

text \<open>
  The checks that \<open>HandlePut\<close> and \<open>HandleDelete\<close> make on a decoded request: epoch, primary, lock. The result
  is a status to return, or the shard. With no shards configured the shard is 0.
\<close>

definition write_checks :: "Server \<Rightarrow> string \<Rightarrow> uint64 \<Rightarrow> (http_status + int) option" where
  "write_checks s key epoch =
     (if epoch < GetEpoch s then Some (Inl StatusPreconditionFailed)
      else if TotalShards (config s) > 0 then do {
        shardID \<leftarrow> key_shard_id key (TotalShards (config s));
        Some (case Shards (config s) shardID of
                None \<Rightarrow> Inl StatusBadRequest
              | Some shard \<Rightarrow>
                  if PrimaryID shard \<noteq> nodeID s then Inl StatusBadRequest
                  else if shard_Status shard = ShardStatusLocked \<or> shard_Status shard = ShardStatusMigrating
                  then Inl StatusLocked
                  else Inr shardID)
      }
      else Some (Inr 0))"

text \<open>
  \<open>HandlePut\<close> at the node with URL \<open>u\<close>, first everything up to the replication loop, then the write to
  the node's own store; other requests may run in between. \<open>Inl\<close> is a status returned early.
\<close>

definition HandlePut_replicate :: "go_time \<Rightarrow> (string \<Rightarrow> delivery) \<Rightarrow> string \<Rightarrow> WriteRequest option \<Rightarrow> nodes \<Rightarrow>
    (nodes \<times> (http_status + WriteRequest)) option" where
  "HandlePut_replicate now net u body ns = do {
     s \<leftarrow> ns u;
     if \<not> IsActive now (lease s) then Some (ns, Inl StatusServiceUnavailable)
     else (case body of
             None \<Rightarrow> Some (ns, Inl StatusBadRequest)
           | Some req \<Rightarrow> do {
               checked \<leftarrow> write_checks s (w_Key req) (w_Epoch req);
               Some (case checked of
                       Inl status \<Rightarrow> (ns, Inl status)
                     | Inr shardID \<Rightarrow>
                         (case replicate_loop (\<lambda>url. sendReplication net url req) (GetReplicaURLs s shardID) ns of
                            (ns', False) \<Rightarrow> (ns', Inl StatusInternalServerError)
                          | (ns', True) \<Rightarrow> (ns', Inr req)))
             })
   }"

definition HandlePut_local :: "string \<Rightarrow> WriteRequest \<Rightarrow> nodes \<Rightarrow> (nodes \<times> http_status) option" where
  "HandlePut_local u req ns = do {
     s \<leftarrow> ns u;
     Some (ns(u \<mapsto> s\<lparr>store := ConcurrentMapCache_Put (store s) (w_Key req) (w_Value req)\<rparr>), StatusOK)
   }"

definition HandlePut :: "go_time \<Rightarrow> (string \<Rightarrow> delivery) \<Rightarrow> string \<Rightarrow> WriteRequest option \<Rightarrow> nodes \<Rightarrow>
    (nodes \<times> http_status) option" where
  "HandlePut now net u body ns = do {
     (ns', r) \<leftarrow> HandlePut_replicate now net u body ns;
     (case r of Inl status \<Rightarrow> Some (ns', status) | Inr req \<Rightarrow> HandlePut_local u req ns')
   }"

definition HandleDelete :: "go_time \<Rightarrow> (string \<Rightarrow> delivery) \<Rightarrow> string \<Rightarrow> DeleteRequest option \<Rightarrow> nodes \<Rightarrow>
    (nodes \<times> http_status) option" where
  "HandleDelete now net u body ns = do {
     s \<leftarrow> ns u;
     if \<not> IsActive now (lease s) then Some (ns, StatusServiceUnavailable)
     else (case body of
             None \<Rightarrow> Some (ns, StatusBadRequest)
           | Some req \<Rightarrow> do {
               checked \<leftarrow> write_checks s (d_Key req) (d_Epoch req);
               (case checked of
                  Inl status \<Rightarrow> Some (ns, status)
                | Inr shardID \<Rightarrow>
                    (case replicate_loop (\<lambda>url. sendDeleteReplication net url req) (GetReplicaURLs s shardID) ns of
                       (ns', False) \<Rightarrow> Some (ns', StatusInternalServerError)
                     | (ns', True) \<Rightarrow> do {
                         s' \<leftarrow> ns' u;
                         Some (ns'(u \<mapsto> s'\<lparr>store := ConcurrentMapCache_Delete (store s') (d_Key req)\<rparr>), StatusOK)
                       }))
             })
   }"

text \<open>The body of the answer is the value, or an error text that the model leaves out.\<close>

definition HandleGet :: "go_time \<Rightarrow> string \<Rightarrow> Server \<Rightarrow> http_status \<times> string" where
  "HandleGet now key s =
     (if \<not> IsActive now (lease s) then (StatusServiceUnavailable, [])
      else if key = [] then (StatusBadRequest, [])
      else
        let val = ConcurrentMapCache_Get (store s) key
        in if val = [] then (StatusNotFound, []) else (StatusOK, val))"

text \<open>
  \<open>fmt.Sscanf(s, "%d", &n)\<close>: blanks, a sign, decimal digits; what follows is ignored. A number beyond 64
  bits is an error.
\<close>

definition sscanf_d :: "string \<Rightarrow> int option" where
  "sscanf_d str =
     (let rest = dropWhile (\<lambda>c. c = CHR '' '' \<or> c = CHR 0x09) str;
          (neg, rest) = (case rest of
                           c # cs \<Rightarrow> if c = CHR ''-'' then (True, cs) else if c = CHR ''+'' then (False, cs) else (False, rest)
                         | [] \<Rightarrow> (False, rest));
          ds = takeWhile is_digit rest;
          n = (if neg then - digits_val ds else digits_val ds)
      in if ds = [] \<or> n < - (2 ^ 63) \<or> n \<ge> 2 ^ 63 then None else Some n)"

text \<open>\<open>ks\<close> is the order in which the loops range over the maps.\<close>

definition HandleExport :: "string list \<Rightarrow> string \<Rightarrow> Server \<Rightarrow> (http_status \<times> kv) option" where
  "HandleExport ks shardIDStr s =
     (if shardIDStr = [] then Some (StatusBadRequest, Map.empty)
      else (case sscanf_d shardIDStr of
              None \<Rightarrow> Some (StatusBadRequest, Map.empty)
            | Some shardID \<Rightarrow>
                if TotalShards (config s) = 0 then Some (StatusServiceUnavailable, Map.empty)
                else map_option (\<lambda>data. (StatusOK, data)) (ExportShard ks (store s) shardID (TotalShards (config s)))))"

definition HandleImport :: "string list \<Rightarrow> kv option \<Rightarrow> Server \<Rightarrow> Server \<times> http_status" where
  "HandleImport ks body s =
     (case body of
        None \<Rightarrow> (s, StatusBadRequest)
      | Some data \<Rightarrow> (s\<lparr>store := Import ks (store s) data\<rparr>, StatusOK))"

definition HandlePull :: "(string \<Rightarrow> delivery) \<Rightarrow> string list \<Rightarrow> string list \<Rightarrow> string \<Rightarrow> string \<Rightarrow> string \<Rightarrow> nodes \<Rightarrow>
    (nodes \<times> http_status) option" where
  "HandlePull net ks ks' u sourceURL shardIDStr ns =
     (if sourceURL = [] \<or> shardIDStr = [] then Some (ns, StatusBadRequest)
      else if net sourceURL \<noteq> Delivered then Some (ns, StatusBadGateway)
      else (case ns sourceURL of
              None \<Rightarrow> Some (ns, StatusBadGateway)
            | Some source \<Rightarrow> do {
                (status, data) \<leftarrow> HandleExport ks shardIDStr source;
                if status \<noteq> StatusOK then Some (ns, StatusBadGateway)
                else do {
                  s \<leftarrow> ns u;
                  Some (ns(u \<mapsto> s\<lparr>store := Import ks' (store s) data\<rparr>), StatusOK)
                }
              }))"

section \<open>Replicated writes\<close>

text \<open>
  What the replication loop relies on, for puts and deletes alike: sending applies one idempotent change \<open>f\<close>
  to the server behind the URL; a success means that it was applied, a failure leaves open whether it was.
\<close>

locale replicated_change =
  fixes send :: "string \<Rightarrow> nodes \<Rightarrow> nodes \<times> bool"
    and f :: "Server \<Rightarrow> Server"
  assumes idem: "f (f s) = f s"
    and send_ok: "send url ns = (ns', True) \<Longrightarrow> ns url \<noteq> None \<and> ns' = ns(url := map_option f (ns url))"
    and send_failed: "send url ns = (ns', False) \<Longrightarrow> ns' = ns \<or> ns' = ns(url := map_option f (ns url))"
begin

lemma loop_ok:
  "replicate_loop send urls ns = (ns', True) \<Longrightarrow>
   (\<forall>url. ns' url = (if url \<in> set urls then map_option f (ns url) else ns url)) \<and> (\<forall>url \<in> set urls. ns url \<noteq> None)"
proof (induction urls arbitrary: ns)
  case (Cons u urls)
  then obtain ns1 where 1: "send u ns = (ns1, True)" "replicate_loop send urls ns1 = (ns', True)"
    by (auto split: prod.splits bool.splits)
  have n1: "ns u \<noteq> None" "ns1 = ns(u := map_option f (ns u))" using send_ok [OF 1(1)] by auto
  have "map_option f (map_option f x) = map_option f x" for x by (cases x) (simp_all add: idem)
  with Cons.IH [OF 1(2)] n1 show ?case by (auto split: if_splits)
qed simp

lemma loop_touches:
  "replicate_loop send urls ns = (ns', ok) \<Longrightarrow> ns' url = ns url \<or> url \<in> set urls \<and> ns' url = map_option f (ns url)"
proof (induction urls arbitrary: ns)
  case (Cons u urls)
  obtain ns1 b where 1: "send u ns = (ns1, b)" by fastforce
  have n1: "ns1 url = ns url \<or> url = u \<and> ns1 url = map_option f (ns url)"
    using send_ok [of u ns ns1] send_failed [of u ns ns1] 1 by (cases b) (auto split: if_splits)
  have twice: "map_option f (map_option f x) = map_option f x" for x by (cases x) (simp_all add: idem)
  show ?case
  proof (cases b)
    case True
    with Cons.prems 1 have "replicate_loop send urls ns1 = (ns', ok)" by simp
    from Cons.IH [OF this] n1 twice show ?thesis by auto
  next
    case False
    with Cons.prems 1 n1 show ?thesis by auto
  qed
qed simp

end

definition put_on :: "WriteRequest \<Rightarrow> Server \<Rightarrow> Server" where
  "put_on req s = s\<lparr>store := ConcurrentMapCache_Put (store s) (w_Key req) (w_Value req)\<rparr>"

definition delete_on :: "DeleteRequest \<Rightarrow> Server \<Rightarrow> Server" where
  "delete_on req s = s\<lparr>store := ConcurrentMapCache_Delete (store s) (d_Key req)\<rparr>"

lemma put_on_simps [simp]:
  "put_on req (put_on req s) = put_on req s" "lease (put_on req s) = lease s" "config (put_on req s) = config s"
  "nodeID (put_on req s) = nodeID s" "cm_data (store (put_on req s)) = (cm_data (store s))(w_Key req \<mapsto> w_Value req)"
  by (simp_all add: put_on_def ConcurrentMapCache_Put_def)

lemma delete_on_simps [simp]:
  "delete_on req (delete_on req s) = delete_on req s" "lease (delete_on req s) = lease s"
  "config (delete_on req s) = config s" "nodeID (delete_on req s) = nodeID s"
  "cm_data (store (delete_on req s)) = (cm_data (store s))(d_Key req := None)"
  by (simp_all add: delete_on_def ConcurrentMapCache_Delete_def)

interpretation put_replication: replicated_change "\<lambda>url. sendReplication net url req" "put_on req" for net req
proof unfold_locales
  show "put_on req (put_on req s) = put_on req s" for s by simp
qed (auto simp: sendReplication_def call_def HandleReplicate_def put_on_def split: prod.splits option.splits if_splits)

interpretation delete_replication: replicated_change "\<lambda>url. sendDeleteReplication net url req" "delete_on req" for net req
proof unfold_locales
  show "delete_on req (delete_on req s) = delete_on req s" for s by simp
qed (auto simp: sendDeleteReplication_def call_def HandleDeleteReplicate_def delete_on_def split: prod.splits option.splits if_splits)

lemma write_checks_total: "\<exists>r. write_checks s key epoch = Some r"
  by (simp add: write_checks_def key_shard_id_pos)

lemma write_checks_status:
  "write_checks s key epoch = Some (Inl status) \<Longrightarrow> status \<in> {StatusPreconditionFailed, StatusBadRequest, StatusLocked}"
  by (auto simp: write_checks_def split: if_splits option.splits bind_splits)

lemma write_checks_Inr:
  "write_checks s key epoch = Some (Inr shardID) \<Longrightarrow> epoch \<ge> GetEpoch s \<and>
     (TotalShards (config s) > 0 \<longrightarrow> shardID = shard_of key (TotalShards (config s)) \<and>
       (\<exists>shard. Shards (config s) shardID = Some shard \<and> PrimaryID shard = nodeID s \<and> shard_Status shard \<noteq> ShardStatusLocked))"
  by (auto simp: write_checks_def not_less key_shard_id_pos split: if_splits option.splits)

lemma HandlePut_acknowledged:
  assumes "HandlePut now net u (Some req) ns = Some (ns', StatusOK)"
  shows "\<exists>s shardID. ns u = Some s \<and> IsActive now (lease s) \<and> w_Epoch req \<ge> GetEpoch s \<and>
    (TotalShards (config s) > 0 \<longrightarrow> shardID = shard_of (w_Key req) (TotalShards (config s)) \<and>
       (\<exists>shard. Shards (config s) shardID = Some shard \<and> PrimaryID shard = nodeID s \<and> shard_Status shard \<noteq> ShardStatusLocked)) \<and>
    (\<forall>url \<in> set (GetReplicaURLs s shardID). ns url \<noteq> None) \<and>
    (\<forall>url. ns' url = (if url = u \<or> url \<in> set (GetReplicaURLs s shardID) then map_option (put_on req) (ns url) else ns url))"
proof -
  from assms obtain s where s: "ns u = Some s" by (auto simp: HandlePut_def HandlePut_replicate_def split: bind_splits)
  obtain r where r: "write_checks s (w_Key req) (w_Epoch req) = Some r" using write_checks_total by blast
  have act: "IsActive now (lease s)"
    using assms s by (auto simp: HandlePut_def HandlePut_replicate_def split: if_splits)
  then obtain shardID where sh: "r = Inr shardID"
    using assms s r write_checks_status [of s "w_Key req" "w_Epoch req"]
    by (cases r) (auto simp: HandlePut_def HandlePut_replicate_def)
  obtain ns1 ok where l: "replicate_loop (\<lambda>url. sendReplication net url req) (GetReplicaURLs s shardID) ns = (ns1, ok)" by fastforce
  with assms s act r sh have ok: "ok" and loc: "HandlePut_local u req ns1 = Some (ns', StatusOK)"
    by (cases ok; simp add: HandlePut_def HandlePut_replicate_def)+
  note ns1 = put_replication.loop_ok [OF l [unfolded eqTrueI [OF ok]]]
  have "ns' = ns1(u := map_option (put_on req) (ns1 u))"
    using loc by (auto simp: HandlePut_local_def put_on_def split: bind_splits)
  moreover have "map_option (put_on req) (map_option (put_on req) x) = map_option (put_on req) x" for x by (cases x) simp_all
  ultimately show ?thesis
    using ns1 s act write_checks_Inr [OF r [unfolded sh]] by (intro exI [of _ s] exI [of _ shardID]) auto
qed

text \<open>When nothing is in the way, a put succeeds.\<close>

lemma replicate_loop_puts:
  assumes "\<forall>url \<in> set urls. net url = Delivered \<and> (\<exists>s. ns url = Some s \<and> GetEpoch s \<le> w_Epoch req)"
  shows "\<exists>ns'. replicate_loop (\<lambda>url. sendReplication net url req) urls ns = (ns', True)"
  using assms
proof (induction urls arbitrary: ns)
  case (Cons u urls)
  then obtain s where s: "net u = Delivered" "ns u = Some s" "GetEpoch s \<le> w_Epoch req" by auto
  have send: "sendReplication net u req ns = (ns(u \<mapsto> put_on req s), True)"
    using s by (simp add: sendReplication_def call_def HandleReplicate_def put_on_def)
  have "\<forall>url \<in> set urls. net url = Delivered \<and> (\<exists>s'. (ns(u \<mapsto> put_on req s)) url = Some s' \<and> GetEpoch s' \<le> w_Epoch req)"
    using Cons.prems s by (auto simp: GetEpoch_def)
  from Cons.IH [of "ns(u \<mapsto> put_on req s)", OF this]
  obtain ns' where "replicate_loop (\<lambda>url. sendReplication net url req) urls (ns(u \<mapsto> put_on req s)) = (ns', True)" by blast
  then show ?case using send by simp
qed simp

lemma HandlePut_succeeds:
  assumes "ns u = Some s" and "IsActive now (lease s)" and "write_checks s (w_Key req) (w_Epoch req) = Some (Inr shardID)"
    and "\<forall>url \<in> set (GetReplicaURLs s shardID). net url = Delivered \<and> (\<exists>s. ns url = Some s \<and> GetEpoch s \<le> w_Epoch req)"
  shows "HandlePut now net u (Some req) ns = Some (\<lambda>url. if url = u \<or> url \<in> set (GetReplicaURLs s shardID)
    then map_option (put_on req) (ns url) else ns url, StatusOK)"
proof -
  obtain ns1 where l: "replicate_loop (\<lambda>url. sendReplication net url req) (GetReplicaURLs s shardID) ns = (ns1, True)"
    using replicate_loop_puts [OF assms(4)] by blast
  note ns1 = put_replication.loop_ok [OF l]
  then have "ns1 u = Some s \<or> ns1 u = Some (put_on req s)" using assms(1) by simp
  then obtain s1 where s1: "ns1 u = Some s1" "put_on req s1 = put_on req s" by fastforce
  then have "HandlePut now net u (Some req) ns = Some (ns1(u \<mapsto> put_on req s), StatusOK)"
    using assms(1-3) l by (simp add: HandlePut_def HandlePut_replicate_def HandlePut_local_def put_on_def)
  moreover have "ns1(u \<mapsto> put_on req s) = (\<lambda>url. if url = u \<or> url \<in> set (GetReplicaURLs s shardID)
    then map_option (put_on req) (ns url) else ns url)"
    using ns1 assms(1) by (auto simp: fun_eq_iff)
  ultimately show ?thesis by simp
qed


definition example_config :: ClusterConfig where
  "example_config = example_topology\<lparr>Shards :=
     [0 \<mapsto> \<lparr>shard_ID = 0, PrimaryID = ''n1'', ReplicaIDs = [''n2''], shard_Status = ShardStatusActive\<rparr>]\<rparr>"

definition example_server :: "string \<Rightarrow> Server" where
  "example_server n = NewServer NewConcurrentMapCache \<lparr>validUntil = 100, lease_duration = 5, lease_nodeID = n\<rparr> example_config n"

definition example_nodes :: nodes where
  "example_nodes = [''http://a1'' \<mapsto> example_server ''n1'', ''http://a2'' \<mapsto> example_server ''n2'']"

definition example_write :: WriteRequest where
  "example_write = \<lparr>w_Key = ''k'', w_Value = ''v'', w_Epoch = 1\<rparr>"

lemmas example_node_defs = example_config_def example_topology_def example_server_def example_nodes_def example_write_def
  NewServer_def NewConcurrentMapCache_def

lemma example_checks: "write_checks (example_server ''n1'') key 1 = Some (Inr 0)"
  by (simp add: write_checks_def key_shard_id_pos GetEpoch_def example_node_defs status_defs)

lemma example_replicas: "GetReplicaURLs (example_server n) 0 = [''http://a2'']"
  by (simp add: GetReplicaURLs_def example_node_defs)

lemma example_put_ok:
  "\<exists>ns'. HandlePut 0 (\<lambda>_. Delivered) ''http://a1'' (Some example_write) example_nodes = Some (ns', StatusOK)"
proof -
  have "example_nodes ''http://a1'' = Some (example_server ''n1'')" "IsActive 0 (lease (example_server ''n1''))"
    "w_Epoch example_write = 1" by (simp_all add: example_node_defs IsActive_def)
  moreover have "\<exists>ns'. replicate_loop (\<lambda>url. sendReplication (\<lambda>_. Delivered) url example_write) [''http://a2''] example_nodes = (ns', True) \<and>
      ns' ''http://a1'' \<noteq> None"
    by (simp add: sendReplication_def call_def HandleReplicate_def GetEpoch_def example_node_defs)
  ultimately show ?thesis
    by (auto simp: HandlePut_def HandlePut_replicate_def HandlePut_local_def example_checks example_replicas)
qed




text \<open>Fencing. A node whose lease has run out answers 503 to every put, delete and get, whatever the request, and
  nothing changes anywhere.\<close>
theorem fenced_node_serves_nothing:
  assumes "ns u = Some s" and "validUntil (lease s) \<le> now"
  shows "HandlePut now net u body ns = Some (ns, StatusServiceUnavailable) \<and>
    HandleDelete now net u dbody ns = Some (ns, StatusServiceUnavailable) \<and>
    fst (HandleGet now key s) = StatusServiceUnavailable"
  using assms by (simp add: HandlePut_def HandlePut_replicate_def HandleDelete_def HandleGet_def IsActive_def)

theorem fenced_node_serves_nothing_witness:
  "HandlePut 100 (\<lambda>_. Delivered) ''http://a1'' (Some example_write) example_nodes = Some (example_nodes, StatusServiceUnavailable)"
  using fenced_node_serves_nothing [of example_nodes "''http://a1''" "example_server ''n1''" 100 "\<lambda>_. Delivered" "Some example_write"]
  by (simp add: example_nodes_def example_server_def NewServer_def)

text \<open>An acknowledged delete is everywhere: when \<open>HandleDelete\<close> answers 200, the key is gone from the primary and from
  every replica the topology lists, and no other key and no other node changed.\<close>
theorem delete_reaches_every_replica:
  assumes "HandleDelete now net u (Some req) ns = Some (ns', StatusOK)"
  shows "\<exists>s shardID. ns u = Some s \<and> IsActive now (lease s) \<and> d_Epoch req \<ge> GetEpoch s \<and>
    (TotalShards (config s) > 0 \<longrightarrow> shardID = shard_of (d_Key req) (TotalShards (config s))) \<and>
    (\<forall>url. ns' url = (if url = u \<or> url \<in> set (GetReplicaURLs s shardID) then map_option (delete_on req) (ns url) else ns url))"
proof -
  from assms obtain s where s: "ns u = Some s" by (auto simp: HandleDelete_def split: bind_splits)
  obtain r where r: "write_checks s (d_Key req) (d_Epoch req) = Some r" using write_checks_total by blast
  have act: "IsActive now (lease s)" using assms s by (auto simp: HandleDelete_def split: if_splits)
  then obtain shardID where sh: "r = Inr shardID"
    using assms s r write_checks_status [of s "d_Key req" "d_Epoch req"] by (cases r) (auto simp: HandleDelete_def)
  obtain ns1 ok where l: "replicate_loop (\<lambda>url. sendDeleteReplication net url req) (GetReplicaURLs s shardID) ns = (ns1, ok)" by fastforce
  with assms s act r sh have ok: "ok"
    by (cases ok; simp add: HandleDelete_def)
  note ns1 = delete_replication.loop_ok [OF l [unfolded eqTrueI [OF ok]]]
  have "ns' = ns1(u := map_option (delete_on req) (ns1 u))"
    using assms s act r sh l ok by (auto simp: HandleDelete_def delete_on_def split: bind_splits)
  moreover have "map_option (delete_on req) (map_option (delete_on req) x) = map_option (delete_on req) x" for x by (cases x) simp_all
  ultimately show ?thesis
    using ns1 s act write_checks_Inr [OF r [unfolded sh]] by (intro exI [of _ s] exI [of _ shardID]) auto
qed

theorem delete_reaches_every_replica_witness:
  "\<exists>ns' s'. HandleDelete 0 (\<lambda>_. Delivered) ''http://a1'' (Some \<lparr>d_Key = ''k'', d_Epoch = 1\<rparr>) example_nodes = Some (ns', StatusOK) \<and>
     ns' ''http://a1'' = Some s' \<and> cm_data (store s') ''k'' = None"
proof -
  let ?req = "\<lparr>d_Key = ''k'', d_Epoch = 1\<rparr>"
  have "\<exists>ns1. replicate_loop (\<lambda>url. sendDeleteReplication (\<lambda>_. Delivered) url ?req) [''http://a2''] example_nodes = (ns1, True) \<and>
      ns1 ''http://a1'' \<noteq> None"
    by (simp add: sendDeleteReplication_def call_def HandleDeleteReplicate_def GetEpoch_def example_node_defs)
  moreover have "example_nodes ''http://a1'' = Some (example_server ''n1'')" "IsActive 0 (lease (example_server ''n1''))"
    by (simp_all add: example_node_defs IsActive_def)
  ultimately obtain ns' where ns': "HandleDelete 0 (\<lambda>_. Delivered) ''http://a1'' (Some ?req) example_nodes = Some (ns', StatusOK)"
    by (auto simp: HandleDelete_def example_checks example_replicas)
  from delete_reaches_every_replica [OF ns'] have
    "ns' ''http://a1'' = map_option (delete_on ?req) (example_nodes ''http://a1'')" by auto
  with ns' show ?thesis by (auto simp: example_nodes_def)
qed

text \<open>What a node has after it pulled a shard from \<open>source\<close>.\<close>

definition shard_part :: "Server \<Rightarrow> int \<Rightarrow> kv" where
  "shard_part source shardID = cm_data (store source) |` {k. shard_of k (TotalShards (config source)) = shardID}"

definition pulled :: "Server \<Rightarrow> int \<Rightarrow> Server \<Rightarrow> Server" where
  "pulled source shardID s = s\<lparr>store := (store s)\<lparr>cm_data := cm_data (store s) ++ shard_part source shardID\<rparr>\<rparr>"

lemma pulled_idem: "pulled source i (pulled source i s) = pulled source i s"
proof -
  have "m ++ r ++ r = m ++ r" for m r :: kv by (auto simp: map_add_def split: option.splits)
  then show ?thesis by (simp add: pulled_def)
qed

lemma HandlePull_eq:
  assumes "ns src = Some source" and "ns u = Some s" and "net src = Delivered" and "src \<noteq> []"
    and "sscanf_d shardStr = Some shardID" and "0 < TotalShards (config source)"
    and "range_order ks (cm_data (store source))" and "range_order ks' (shard_part source shardID)"
  shows "HandlePull net ks ks' u src shardStr ns = Some (ns(u \<mapsto> pulled source shardID s), StatusOK)"
proof -
  have "shardStr \<noteq> []" using assms(5) by (auto simp: sscanf_d_def)
  then have "HandleExport ks shardStr source = Some (StatusOK, shard_part source shardID)"
    using assms(5,6) by (simp add: HandleExport_def ExportShard_eq [OF assms(7,6)] shard_part_def)
  moreover have "Import ks' (store s) (shard_part source shardID) =
      (store s)\<lparr>cm_data := cm_data (store s) ++ shard_part source shardID\<rparr>"
    using Import_eq [OF assms(8), of "store s"] by simp
  ultimately show ?thesis using assms(1-4) \<open>shardStr \<noteq> []\<close> by (simp add: HandlePull_def pulled_def)
qed

text \<open>\<open>HandlePull\<close> copies a shard: when the source answers, the node that pulls has afterwards, besides what it
  had, every entry of the source whose key belongs to the shard, with the source's values, and no other entry of the
  source; the source and the other nodes are unchanged.\<close>
theorem pull_copies_shard:
  assumes "ns src = Some source" and "ns u = Some s" and "net src = Delivered" and "src \<noteq> []"
    and "sscanf_d shardStr = Some shardID" and "0 < TotalShards (config source)"
    and "range_order ks (cm_data (store source))"
    and "range_order ks' (cm_data (store source) |` {k. shard_of k (TotalShards (config source)) = shardID})"
  shows "\<exists>s'. HandlePull net ks ks' u src shardStr ns = Some (ns(u \<mapsto> s'), StatusOK) \<and>
    cm_data (store s') = cm_data (store s) ++ (cm_data (store source) |` {k. shard_of k (TotalShards (config source)) = shardID})"
  using HandlePull_eq [of ns src source u s net shardStr shardID ks ks'] assms
  by (intro exI [of _ "pulled source shardID s"]) (simp add: shard_part_def pulled_def)

theorem pull_copies_shard_witness:
  "\<exists>s'. HandlePull (\<lambda>_. Delivered) [''k''] [''k''] ''http://a1'' ''http://a2'' ''0''
      (example_nodes(''http://a2'' \<mapsto> put_on example_write (example_server ''n2''))) =
      Some (example_nodes(''http://a2'' \<mapsto> put_on example_write (example_server ''n2''), ''http://a1'' \<mapsto> s'), StatusOK) \<and>
    cm_data (store s') ''k'' = Some ''v''"
proof -
  let ?s = "put_on example_write (example_server ''n2'')"
  have d: "cm_data (store ?s) = [''k'' \<mapsto> ''v'']" by (simp add: example_node_defs)
  have n: "TotalShards (config ?s) = 1" by (simp add: example_node_defs)
  have r: "[''k'' \<mapsto> ''v''] |` {k. shard_of k 1 = 0} = [''k'' \<mapsto> ''v'']" by (simp add: key_shard_id_pos)
  have "\<exists>s'. HandlePull (\<lambda>_. Delivered) [''k''] [''k''] ''http://a1'' ''http://a2'' ''0'' (example_nodes(''http://a2'' \<mapsto> ?s)) =
      Some (example_nodes(''http://a2'' \<mapsto> ?s, ''http://a1'' \<mapsto> s'), StatusOK) \<and>
    cm_data (store s') = cm_data (store (example_server ''n1'')) ++
      (cm_data (store ?s) |` {k. shard_of k (TotalShards (config ?s)) = 0})"
  proof (rule pull_copies_shard)
    show "sscanf_d ''0'' = Some 0" by (simp add: sscanf_d_def is_digit_def digits_val_def)
    show "range_order [''k''] (cm_data (store ?s) |` {k. shard_of k (TotalShards (config ?s)) = 0})"
      unfolding d n r by (simp add: range_order_def)
    show "0 < TotalShards (config ?s)" unfolding n by simp
    show "range_order [''k''] (cm_data (store ?s))" unfolding d by (simp add: range_order_def)
  qed (simp_all add: example_nodes_def)
  then show ?thesis unfolding d n r by (auto simp: example_node_defs)
qed

text \<open>A put that is answered with 500 can leave the copies of a shard different. With two replicas of which the
  second cannot be reached, the first replica has the new value afterwards and the primary has not: the write
  is reported as failed, reads from the primary do not see it, and after a failover to the first replica
  they do.\<close>
theorem failed_put_leaves_copies_different:
  "let cfg = example_config\<lparr>Nodes := (Nodes example_config)(''n3'' \<mapsto> \<lparr>node_ID = ''n3'', Address = ''a3'', node_Status = StatusActive, LastHeartbeat = 0\<rparr>),
         Shards := [0 \<mapsto> \<lparr>shard_ID = 0, PrimaryID = ''n1'', ReplicaIDs = [''n2'', ''n3''], shard_Status = ShardStatusActive\<rparr>]\<rparr>;
       ns = [''http://a1'' \<mapsto> (example_server ''n1'')\<lparr>config := cfg\<rparr>, ''http://a2'' \<mapsto> (example_server ''n2'')\<lparr>config := cfg\<rparr>]
   in \<exists>ns' s1 s2. HandlePut 0 (\<lambda>_. Delivered) ''http://a1'' (Some example_write) ns = Some (ns', StatusInternalServerError) \<and>
        ns' ''http://a1'' = Some s1 \<and> HandleGet 0 ''k'' s1 = (StatusNotFound, []) \<and>
        ns' ''http://a2'' = Some s2 \<and> HandleGet 0 ''k'' s2 = (StatusOK, ''v'')"
  by (simp add: Let_def HandlePut_def HandlePut_replicate_def write_checks_def key_shard_id_pos GetEpoch_def GetReplicaURLs_def
      sendReplication_def call_def HandleReplicate_def HandleGet_def IsActive_def ConcurrentMapCache_Get_def ConcurrentMapCache_Put_def
      str_at_def example_node_defs status_defs)

text \<open>Two concurrent puts of one key can both succeed and leave primary and replica with different values for good: the
  replica is written first and the primary's own store last, with nothing that orders the two requests, so
  the replica can apply them in one order and the primary in the other.\<close>
theorem concurrent_puts_diverge:
  "\<exists>ns1 ns2 ns3 ns4 s1 s2.
     let req1 = example_write; req2 = example_write\<lparr>w_Value := ''w''\<rparr>
     in HandlePut_replicate 0 (\<lambda>_. Delivered) ''http://a1'' (Some req1) example_nodes = Some (ns1, Inr req1) \<and>
        HandlePut_replicate 0 (\<lambda>_. Delivered) ''http://a1'' (Some req2) ns1 = Some (ns2, Inr req2) \<and>
        HandlePut_local ''http://a1'' req2 ns2 = Some (ns3, StatusOK) \<and>
        HandlePut_local ''http://a1'' req1 ns3 = Some (ns4, StatusOK) \<and>
        ns4 ''http://a1'' = Some s1 \<and> HandleGet 0 ''k'' s1 = (StatusOK, ''v'') \<and>
        ns4 ''http://a2'' = Some s2 \<and> HandleGet 0 ''k'' s2 = (StatusOK, ''w'')"
  by (simp add: Let_def HandlePut_replicate_def HandlePut_local_def write_checks_def key_shard_id_pos GetEpoch_def GetReplicaURLs_def
      sendReplication_def call_def HandleReplicate_def HandleGet_def IsActive_def ConcurrentMapCache_Get_def ConcurrentMapCache_Put_def
      str_at_def example_node_defs status_defs)

end
