(* ===== verification/Controller.thy ===== *)
theory Controller
  imports Datanode Raft_Types
begin

text \<open>
  The controller of \<open>pkg/controller\<close>: failure detection (\<open>Reaper\<close>), the topology and its changes
  (\<open>Controller\<close>), the migration of a shard, and the state machine that Raft drives (\<open>ControllerApp\<close>).

  A method that holds the controller's mutex is one function. Loops over maps come with their key order. Commands
  travel as JSON in the payload of a Raft message: the payload is what decoding it yields.
\<close>

section \<open>Failure detection\<close>

record Reaper =
  lastSeen :: "string \<rightharpoonup> go_time"
  gracePeriod :: duration

definition NewReaper :: "duration \<Rightarrow> Reaper" where
  "NewReaper grace = \<lparr>lastSeen = Map.empty, gracePeriod = grace\<rparr>"

definition Track :: "go_time \<Rightarrow> string \<Rightarrow> Reaper \<Rightarrow> Reaper" where
  "Track now node r = r\<lparr>lastSeen := (lastSeen r)(node \<mapsto> now)\<rparr>"

text \<open>One check: the nodes reported dead, in the order of the loop.\<close>

fun liveness_loop :: "go_time \<Rightarrow> duration \<Rightarrow> string list \<Rightarrow> (string \<rightharpoonup> go_time) \<Rightarrow> (string \<rightharpoonup> go_time) \<times> string list" where
  "liveness_loop now grace [] seen = (seen, [])"
| "liveness_loop now grace (node # nodes) seen =
     (case seen node of
        None \<Rightarrow> liveness_loop now grace nodes seen
      | Some t \<Rightarrow>
          if time_sub now t > grace
          then (case liveness_loop now grace nodes (seen(node := None)) of (seen', dead) \<Rightarrow> (seen', node # dead))
          else liveness_loop now grace nodes seen)"

definition checkLiveness :: "go_time \<Rightarrow> string list \<Rightarrow> Reaper \<Rightarrow> Reaper \<times> string list" where
  "checkLiveness now nodes r =
     (case liveness_loop now (gracePeriod r) nodes (lastSeen r) of (seen, dead) \<Rightarrow> (r\<lparr>lastSeen := seen\<rparr>, dead))"

section \<open>The controller\<close>

text \<open>\<open>rebalances\<close> counts the goroutines that were started to run \<open>Rebalance\<close>.\<close>

record Controller =
  reaper :: Reaper
  c_config :: ClusterConfig
  rebalances :: nat

definition NewController :: "duration \<Rightarrow> Controller" where
  "NewController grace = \<lparr>reaper = NewReaper grace, c_config = NewClusterConfig 10, rebalances = 0\<rparr>"

definition Heartbeat :: "go_time \<Rightarrow> string \<Rightarrow> Controller \<Rightarrow> Controller" where
  "Heartbeat now node c = c\<lparr>reaper := Track now node (reaper c)\<rparr>"

definition HandleNodeFailure :: "int list \<Rightarrow> string \<Rightarrow> Controller \<Rightarrow> Controller" where
  "HandleNodeFailure is node c = c\<lparr>c_config := metadata_Rebalance is (c_config c) node, rebalances := rebalances c + 1\<rparr>"

definition SetTopology :: "ClusterConfig \<Rightarrow> Controller \<Rightarrow> Controller" where
  "SetTopology cfg c = c\<lparr>c_config := cfg\<rparr>"

definition applyUpdateTopology :: "ClusterConfig \<Rightarrow> Controller \<Rightarrow> Controller" where
  "applyUpdateTopology cfg c = c\<lparr>c_config := cfg\<rparr>"

text \<open>\<open>leader\<close> is what \<open>IsLeaderUnsafe\<close> answers.\<close>

definition applyRegisterNode :: "bool \<Rightarrow> go_time \<Rightarrow> string \<Rightarrow> string \<Rightarrow> Controller \<Rightarrow> Controller" where
  "applyRegisterNode leader now node address c =
     (case Nodes (c_config c) node of
        Some _ \<Rightarrow> c
      | None \<Rightarrow> c\<lparr>c_config := (c_config c)\<lparr>
          Nodes := (Nodes (c_config c))(node \<mapsto> \<lparr>node_ID = node, Address = address, node_Status = StatusActive, LastHeartbeat = now\<rparr>),
          Epoch := Epoch (c_config c) + 1\<rparr>,
        rebalances := (if leader then rebalances c + 1 else rebalances c)\<rparr>)"

section \<open>Assigning shards\<close>

record replicaSyncTask =
  t_shardID :: int
  t_primaryID :: string
  t_replicaID :: string

definition active_list :: "string list \<Rightarrow> (string \<rightharpoonup> NodeMetadata) \<Rightarrow> string list" where
  "active_list ord nodes = filter (\<lambda>n. case nodes n of None \<Rightarrow> False | Some node \<Rightarrow> node_Status node = StatusActive) ord"

definition desired_replicas :: "string list \<Rightarrow> int" where
  "desired_replicas active = (let desired = go_len active - 1 in if desired > 3 then 3 else desired)"

definition needs_update :: "string list \<Rightarrow> ShardMetadata \<Rightarrow> bool" where
  "needs_update active shard \<longleftrightarrow> PrimaryID shard = [] \<or> go_len (ReplicaIDs shard) < desired_replicas active"

text \<open>The loop that adds replicas stops when there are enough.\<close>

fun add_replicas :: "string \<Rightarrow> string list \<Rightarrow> int \<Rightarrow> string list \<Rightarrow> string list \<Rightarrow> string list" where
  "add_replicas primary existing desired [] newReplicas = newReplicas"
| "add_replicas primary existing desired (node # nodes) newReplicas =
     (if go_len newReplicas \<ge> desired then newReplicas
      else if node = primary \<or> node \<in> set existing then add_replicas primary existing desired nodes newReplicas
      else add_replicas primary existing desired nodes (newReplicas @ [node]))"

definition assign_primary :: "string list \<Rightarrow> nat \<Rightarrow> ShardMetadata \<Rightarrow> ShardMetadata \<times> nat" where
  "assign_primary active nodeIndex shard =
     (if PrimaryID shard = []
      then (shard\<lparr>PrimaryID := active ! (nodeIndex mod length active), shard_Status := ShardStatusActive\<rparr>, nodeIndex + 1)
      else (shard, nodeIndex))"

definition assign_replicas :: "(string \<rightharpoonup> NodeMetadata) \<Rightarrow> string list \<Rightarrow> int \<Rightarrow> ShardMetadata \<Rightarrow> ShardMetadata \<times> replicaSyncTask list" where
  "assign_replicas nodes active shardID shard =
     (if go_len (ReplicaIDs shard) < desired_replicas active then
        let kept = active_list (ReplicaIDs shard) nodes;
            newReplicas = add_replicas (PrimaryID shard) (ReplicaIDs shard) (desired_replicas active) active kept
        in (shard\<lparr>ReplicaIDs := newReplicas\<rparr>,
            map (\<lambda>r. \<lparr>t_shardID = shardID, t_primaryID = PrimaryID shard, t_replicaID = r\<rparr>) (drop (length kept) newReplicas))
      else (shard, []))"

definition assign_shard :: "(string \<rightharpoonup> NodeMetadata) \<Rightarrow> string list \<Rightarrow> nat \<Rightarrow> int \<Rightarrow> ShardMetadata \<Rightarrow>
    ShardMetadata \<times> nat \<times> replicaSyncTask list" where
  "assign_shard nodes active nodeIndex shardID shard =
     (case assign_primary active nodeIndex shard of (shard, nodeIndex) \<Rightarrow>
        case assign_replicas nodes active shardID shard of (shard, tasks) \<Rightarrow> (shard, nodeIndex, tasks))"

fun assign_loop :: "(string \<rightharpoonup> NodeMetadata) \<Rightarrow> string list \<Rightarrow> nat \<Rightarrow> int list \<Rightarrow> (int \<rightharpoonup> ShardMetadata) \<Rightarrow>
    (int \<rightharpoonup> ShardMetadata) \<times> replicaSyncTask list" where
  "assign_loop nodes active nodeIndex [] m = (m, [])"
| "assign_loop nodes active nodeIndex (i # is) m =
     (case m i of
        None \<Rightarrow> assign_loop nodes active nodeIndex is m
      | Some shard \<Rightarrow>
          (case assign_shard nodes active nodeIndex i shard of (shard', nodeIndex', tasks) \<Rightarrow>
             case assign_loop nodes active nodeIndex' is (m(i \<mapsto> shard')) of (m', tasks') \<Rightarrow> (m', tasks @ tasks')))"

text \<open>
  \<open>Rebalance\<close> reads the topology and decides, gives the mutex up, and takes it again to change the topology that is there then: \<open>Rebalance_check\<close> is what it has read, with nothing
  to do as \<^const>\<open>None\<close>, \<open>Rebalance_apply\<close> what it writes, with the replicas to fill. \<open>Controller_Rebalance\<close> is the case in which
  no other change comes between them. The broadcast of the new topology follows.
\<close>

definition Rebalance_check :: "string list \<Rightarrow> int list \<Rightarrow> ClusterConfig \<Rightarrow> string list option" where
  "Rebalance_check ord is cfg =
     (let activeNodes = active_list ord (Nodes cfg)
      in if activeNodes = [] then None
         else if \<not> list_ex (\<lambda>i. case Shards cfg i of None \<Rightarrow> False | Some shard \<Rightarrow> needs_update activeNodes shard) is then None
         else Some activeNodes)"

definition Rebalance_apply :: "(string \<rightharpoonup> NodeMetadata) \<Rightarrow> string list \<Rightarrow> int list \<Rightarrow> Controller \<Rightarrow> Controller \<times> replicaSyncTask list" where
  "Rebalance_apply nodes activeNodes is c =
     (case assign_loop nodes activeNodes 0 is (Shards (c_config c)) of (m, tasks) \<Rightarrow>
        (c\<lparr>c_config := (c_config c)\<lparr>Shards := m, Epoch := Epoch (c_config c) + 1\<rparr>\<rparr>, tasks))"

definition Controller_Rebalance :: "string list \<Rightarrow> int list \<Rightarrow> Controller \<Rightarrow> Controller \<times> replicaSyncTask list option" where
  "Controller_Rebalance ord is c =
     (case Rebalance_check ord is (c_config c) of
        None \<Rightarrow> (c, None)
      | Some activeNodes \<Rightarrow> (case Rebalance_apply (Nodes (c_config c)) activeNodes is c of (c', tasks) \<Rightarrow> (c', Some tasks)))"

lemma Controller_Rebalance_eq:
  "Controller_Rebalance ord is c =
     (let cfg = c_config c;
          activeNodes = active_list ord (Nodes cfg)
      in if activeNodes = [] then (c, None)
         else if \<not> list_ex (\<lambda>i. case Shards cfg i of None \<Rightarrow> False | Some shard \<Rightarrow> needs_update activeNodes shard) is then (c, None)
         else (case assign_loop (Nodes cfg) activeNodes 0 is (Shards cfg) of (m, tasks) \<Rightarrow>
           (c\<lparr>c_config := cfg\<lparr>Shards := m, Epoch := Epoch cfg + 1\<rparr>\<rparr>, Some tasks)))"
  by (simp add: Controller_Rebalance_def Rebalance_check_def Rebalance_apply_def Let_def split: prod.split)

section \<open>Moving a shard\<close>

text \<open>\<open>triggerPull\<close> asks the target to pull from the source; addresses are host and port.\<close>

definition triggerPull :: "(string \<Rightarrow> delivery) \<Rightarrow> string list \<Rightarrow> string list \<Rightarrow> string \<Rightarrow> string \<Rightarrow> int \<Rightarrow> nodes \<Rightarrow> nodes \<times> bool" where
  "triggerPull net ks ks' targetAddr sourceAddr shardID ns =
     (let target = ''http://'' @ targetAddr
      in if net target = RequestLost then (ns, False)
         else (case HandlePull net ks ks' target (''http://'' @ sourceAddr) (itoa shardID) ns of
                 None \<Rightarrow> (ns, False)
               | Some (ns', status) \<Rightarrow> (ns', net target = Delivered \<and> status = StatusOK)))"

definition set_shard :: "int \<Rightarrow> (ShardMetadata \<Rightarrow> ShardMetadata) \<Rightarrow> ClusterConfig \<Rightarrow> ClusterConfig" where
  "set_shard shardID f cfg =
     (let shardMeta = (case Shards cfg shardID of
                         Some shard \<Rightarrow> shard
                       | None \<Rightarrow> \<lparr>shard_ID = 0, PrimaryID = [], ReplicaIDs = [], shard_Status = []\<rparr>)
      in cfg\<lparr>Shards := (Shards cfg)(shardID \<mapsto> f shardMeta), Epoch := Epoch cfg + 1\<rparr>)"

text \<open>
  The four steps of \<open>MoveShard\<close>: look up, copy, lock, copy again, switch. \<open>net\<close> is the network during the first and
  \<open>net'\<close> during the second copy.
\<close>

datatype move_error = ShardNotFound int | NodeNotFound | CopyFailed | CatchupFailed

definition MoveShard_lookup :: "int \<Rightarrow> string \<Rightarrow> Controller \<Rightarrow> move_error + (NodeMetadata \<times> NodeMetadata)" where
  "MoveShard_lookup shardID target c =
     (case Shards (c_config c) shardID of
        None \<Rightarrow> Inl (ShardNotFound shardID)
      | Some shard \<Rightarrow>
          (case (Nodes (c_config c) (PrimaryID shard), Nodes (c_config c) target) of
             (Some sourceNode, Some targetNode) \<Rightarrow> Inr (sourceNode, targetNode)
           | _ \<Rightarrow> Inl NodeNotFound))"

definition lock_shard :: "int \<Rightarrow> Controller \<Rightarrow> Controller" where
  "lock_shard shardID c = c\<lparr>c_config := set_shard shardID (\<lambda>s. s\<lparr>shard_Status := ShardStatusLocked\<rparr>) (c_config c)\<rparr>"

definition switch_primary :: "int \<Rightarrow> string \<Rightarrow> Controller \<Rightarrow> Controller" where
  "switch_primary shardID target c =
     c\<lparr>c_config := set_shard shardID (\<lambda>s. s\<lparr>PrimaryID := target, shard_Status := ShardStatusActive\<rparr>) (c_config c)\<rparr>"

definition MoveShard :: "(string \<Rightarrow> delivery) \<Rightarrow> (string \<Rightarrow> delivery) \<Rightarrow> string list \<Rightarrow> string list \<Rightarrow> int \<Rightarrow> string \<Rightarrow>
    Controller \<times> nodes \<Rightarrow> (Controller \<times> nodes) \<times> move_error option" where
  "MoveShard net net' ks ks' shardID target st =
     (case st of (c, ns) \<Rightarrow>
        case MoveShard_lookup shardID target c of
          Inl err \<Rightarrow> ((c, ns), Some err)
        | Inr (sourceNode, targetNode) \<Rightarrow>
            (case triggerPull net ks ks' (Address targetNode) (Address sourceNode) shardID ns of
               (ns1, False) \<Rightarrow> ((c, ns1), Some CopyFailed)
             | (ns1, True) \<Rightarrow>
                 (case triggerPull net' ks ks' (Address targetNode) (Address sourceNode) shardID ns1 of
                    (ns2, False) \<Rightarrow> ((lock_shard shardID c, ns2), Some CatchupFailed)
                  | (ns2, True) \<Rightarrow> ((switch_primary shardID target (lock_shard shardID c), ns2), None))))"

text \<open>
  The loop over the tasks. \<open>ord\<close> yields the orders in which a pull ranges over the store of the source, as it is at that time, and over what it has
  exported.
\<close>

definition pull_order :: "(replicaSyncTask \<Rightarrow> Server \<Rightarrow> string list \<times> string list) \<Rightarrow> replicaSyncTask \<Rightarrow> Server option \<Rightarrow> string list \<times> string list" where
  "pull_order ord task source = (case source of None \<Rightarrow> ([], []) | Some s \<Rightarrow> ord task s)"

definition sync_task :: "(string \<Rightarrow> delivery) \<Rightarrow> (replicaSyncTask \<Rightarrow> Server \<Rightarrow> string list \<times> string list) \<Rightarrow> ClusterConfig \<Rightarrow> replicaSyncTask \<Rightarrow>
    nodes \<Rightarrow> nodes" where
  "sync_task net ord cfg task ns =
     (case (Nodes cfg (t_primaryID task), Nodes cfg (t_replicaID task)) of
        (Some primaryNode, Some replicaNode) \<Rightarrow>
          (case pull_order ord task (ns (''http://'' @ Address primaryNode)) of (ks, ks') \<Rightarrow>
             fst (triggerPull net ks ks' (Address replicaNode) (Address primaryNode) (t_shardID task) ns))
      | _ \<Rightarrow> ns)"

fun syncNewReplicas :: "(string \<Rightarrow> delivery) \<Rightarrow> (replicaSyncTask \<Rightarrow> Server \<Rightarrow> string list \<times> string list) \<Rightarrow> replicaSyncTask list \<Rightarrow>
    ClusterConfig \<Rightarrow> nodes \<Rightarrow> nodes" where
  "syncNewReplicas net ord [] cfg ns = ns"
| "syncNewReplicas net ord (task # tasks) cfg ns = syncNewReplicas net ord tasks cfg (sync_task net ord cfg task ns)"

section \<open>The state machine\<close>

definition CmdRegisterNode :: string where "CmdRegisterNode = ''RegisterNode''"
definition CmdUpdateTopology :: string where "CmdUpdateTopology = ''UpdateTopology''"
definition CmdNoOp :: string where "CmdNoOp = ''NoOp''"

lemmas cmd_defs = CmdRegisterNode_def CmdUpdateTopology_def CmdNoOp_def

text \<open>
  The payload document of a command: the objects the controller writes, \<open>null\<close>, or a document that neither struct
  can be read from. Decoding an object into the other struct ignores the fields it does not know and leaves its own
  at zero, as \<open>null\<close> does.
\<close>

datatype payload = RegisterNodePayload string string | UpdateTopologyPayload ClusterConfig | NullPayload | BadPayload

record Command =
  cmd_Type :: string
  cmd_Payload :: payload

definition zero_config :: ClusterConfig where
  "zero_config = \<lparr>Epoch = 0, TotalShards = 0, Nodes = Map.empty, Shards = Map.empty\<rparr>"

definition decode_register :: "payload \<Rightarrow> (string \<times> string) option" where
  "decode_register p = (case p of RegisterNodePayload node address \<Rightarrow> Some (node, address) | BadPayload \<Rightarrow> None | _ \<Rightarrow> Some ([], []))"

definition decode_topology :: "payload \<Rightarrow> ClusterConfig option" where
  "decode_topology p = (case p of UpdateTopologyPayload cfg \<Rightarrow> Some cfg | BadPayload \<Rightarrow> None | _ \<Rightarrow> Some zero_config)"

text \<open>
  \<open>AppendMessage\<close> of \<open>ControllerApp\<close>, whose controller is attached only after Raft has been started: \<^term>\<open>None\<close> is the
  panic on the missing controller. The payload of the message is \<^term>\<open>None\<close> when it is no command.
\<close>

definition ControllerApp_AppendMessage :: "bool \<Rightarrow> go_time \<Rightarrow> Controller option \<Rightarrow> Command option Message \<Rightarrow>
    (Controller option \<times> bool \<times> int) option" where
  "ControllerApp_AppendMessage leader now app msg =
     (if MsgType msg \<noteq> CommandMsg then Some (app, False, 0)
      else (case Data msg of
              None \<Rightarrow> Some (app, False, 0)
            | Some cmd \<Rightarrow>
                if cmd_Type cmd = CmdRegisterNode then
                  (case decode_register (cmd_Payload cmd) of
                     None \<Rightarrow> Some (app, False, 0)
                   | Some (node, address) \<Rightarrow>
                       (case app of None \<Rightarrow> None | Some c \<Rightarrow> Some (Some (applyRegisterNode leader now node address c), True, 0)))
                else if cmd_Type cmd = CmdUpdateTopology then
                  (case decode_topology (cmd_Payload cmd) of
                     None \<Rightarrow> Some (app, False, 0)
                   | Some cfg \<Rightarrow>
                       (case app of None \<Rightarrow> None | Some c \<Rightarrow> Some (Some (applyUpdateTopology cfg c), True, 0)))
                else if cmd_Type cmd = CmdNoOp then Some (app, True, 0)
                else Some (app, False, 0)))"

text \<open>
  The snapshot of the state machine is the JSON of the topology, here as the value it encodes. An application without a controller writes the empty object, which
  reads as the zero topology, and ignores what it should restore. The Boolean that restoring returns says that there was no error; data that are no topology are one.
\<close>

datatype config_json = EmptyObject | ConfigObject ClusterConfig | NotConfig

definition decode_config :: "config_json \<Rightarrow> ClusterConfig option" where
  "decode_config data = (case data of EmptyObject \<Rightarrow> Some zero_config | ConfigObject cfg \<Rightarrow> Some cfg | NotConfig \<Rightarrow> None)"

definition ControllerApp_GetSnapshot :: "Controller option \<Rightarrow> config_json" where
  "ControllerApp_GetSnapshot app = (case app of None \<Rightarrow> EmptyObject | Some c \<Rightarrow> ConfigObject (c_config c))"

definition ControllerApp_RestoreFromSnapshot :: "config_json \<Rightarrow> Controller option \<Rightarrow> Controller option \<times> bool \<times> int" where
  "ControllerApp_RestoreFromSnapshot data app =
     (case app of
        None \<Rightarrow> (None, True, 0)
      | Some c \<Rightarrow> (case decode_config data of
          None \<Rightarrow> (Some c, False, 0)
        | Some cfg \<Rightarrow> (Some (applyUpdateTopology cfg c), True, 0)))"

definition ControllerApp_GetValue :: "int \<Rightarrow> Controller option \<Rightarrow> int" where
  "ControllerApp_GetValue key app = 0"

definition command_message :: "Command \<Rightarrow> Command option Message" where
  "command_message cmd = \<lparr>MsgType = CommandMsg, Key = 0, Value = None, Data = Some cmd, ResponseChan = None,
     IdempotencyToken = [], ClientID = []\<rparr>"

definition RegisterNode_message :: "string \<Rightarrow> string \<Rightarrow> Command option Message" where
  "RegisterNode_message node address = command_message \<lparr>cmd_Type = CmdRegisterNode, cmd_Payload = RegisterNodePayload node address\<rparr>"

definition BroadcastTopologyUpdate_message :: "ClusterConfig \<Rightarrow> Command option Message" where
  "BroadcastTopologyUpdate_message cfg = command_message \<lparr>cmd_Type = CmdUpdateTopology, cmd_Payload = UpdateTopologyPayload cfg\<rparr>"

definition NoOp_message :: "Command option Message" where
  "NoOp_message = command_message \<lparr>cmd_Type = CmdNoOp, cmd_Payload = NullPayload\<rparr>"

text \<open>What these calls return for the outcome of \<open>BroadcastSync\<close>.\<close>

definition broadcast_error :: "string \<Rightarrow> bool \<times> int \<times> string option \<Rightarrow> string option" where
  "broadcast_error failure outcome = (case outcome of (success, _, err) \<Rightarrow>
     (case err of Some e \<Rightarrow> Some e | None \<Rightarrow> if success then None else Some failure))"

text \<open>The calls themselves; \<open>sync\<close> is \<open>BroadcastSync\<close> of the controller's Raft node, with a timeout of five seconds.\<close>

definition RegisterNode :: "(Command option Message \<Rightarrow> bool \<times> int \<times> string option) \<Rightarrow> string \<Rightarrow> string \<Rightarrow> string option" where
  "RegisterNode sync node address = broadcast_error ''failed to register node: consensus not reached'' (sync (RegisterNode_message node address))"

definition BroadcastTopologyUpdate :: "(Command option Message \<Rightarrow> bool \<times> int \<times> string option) \<Rightarrow> ClusterConfig \<Rightarrow> string option" where
  "BroadcastTopologyUpdate sync cfg = broadcast_error ''failed to broadcast topology: consensus not reached'' (sync (BroadcastTopologyUpdate_message cfg))"

definition NoOp :: "(Command option Message \<Rightarrow> bool \<times> int \<times> string option) \<Rightarrow> string option" where
  "NoOp sync = broadcast_error ''consensus not reached'' (sync NoOp_message)"

text \<open>
  \<open>Rebalance\<close> as a whole, when no other change comes between its two locked sections: after the new topology is in place it is broadcast, whatever comes of it, and the
  new replicas are filled, by a goroutine that is followed to its end. The second result is the error of the broadcast, which is only logged.
\<close>

definition Rebalance_full :: "(Command option Message \<Rightarrow> bool \<times> int \<times> string option) \<Rightarrow> (string \<Rightarrow> delivery) \<Rightarrow>
    (replicaSyncTask \<Rightarrow> Server \<Rightarrow> string list \<times> string list) \<Rightarrow> string list \<Rightarrow> int list \<Rightarrow> Controller \<times> nodes \<Rightarrow> (Controller \<times> nodes) \<times> string option" where
  "Rebalance_full sync net ord nodeOrder is st =
     (case st of (c, ns) \<Rightarrow>
        case Controller_Rebalance nodeOrder is c of
          (c', None) \<Rightarrow> ((c', ns), None)
        | (c', Some syncTasks) \<Rightarrow>
            ((c', syncNewReplicas net ord syncTasks (c_config c') ns), BroadcastTopologyUpdate sync (c_config c')))"

section \<open>The assignment gives every shard enough copies\<close>

lemma active_list_set: "set (active_list ord (Nodes cfg)) = {n \<in> set ord. is_active cfg n}"
  by (auto simp: active_list_def is_active_def split: option.splits)

lemma active_list_distinct: "distinct ord \<Longrightarrow> distinct (active_list ord nodes)"
  by (simp add: active_list_def)

lemma active_list_id: "\<forall>r \<in> set rs. is_active cfg r \<Longrightarrow> active_list rs (Nodes cfg) = rs"
  by (force simp: active_list_def is_active_def filter_id_conv)

lemma active_list_all:
  assumes "range_order ord (Nodes cfg)"
  shows "set (active_list ord (Nodes cfg)) = {n. is_active cfg n}"
  using assms by (auto simp: active_list_set range_order_def is_active_def)

lemma add_replicas_eq:
  "add_replicas p existing desired nodes acc =
     acc @ take (nat (desired - go_len acc)) (filter (\<lambda>n. n \<noteq> p \<and> n \<notin> set existing) nodes)"
proof (induction nodes arbitrary: acc)
  case (Cons n nodes)
  have "nat (desired - go_len acc) = Suc (nat (desired - go_len (acc @ [n])))" if "\<not> desired \<le> go_len acc"
    using that by (simp add: go_len_def)
  then show ?case by (auto simp: Cons.IH)
qed simp

text \<open>The candidates are the active nodes other than the primary and the replicas there are.\<close>

lemma candidates_count:
  assumes "distinct active" and "distinct rs" and "set rs \<subseteq> set active" and "p \<in> set active" and "p \<notin> set rs"
  shows "length (filter (\<lambda>n. n \<noteq> p \<and> n \<notin> set rs) active) = length active - 1 - length rs"
proof -
  have "length (filter (\<lambda>n. n \<noteq> p \<and> n \<notin> set rs) active) = card (set active - insert p (set rs))"
    using assms(1) by (auto simp flip: distinct_card intro!: arg_cong [where f = card])
  also have "\<dots> = card (set active) - card (insert p (set rs))"
    using assms(3,4) by (intro card_Diff_subset) auto
  finally show ?thesis using assms(1,2,5) by (simp add: distinct_card)
qed

definition fully_replicated :: "string list \<Rightarrow> ShardMetadata \<Rightarrow> bool" where
  "fully_replicated active shard \<longleftrightarrow> shard_wf shard \<and> PrimaryID shard \<in> set active \<and>
     set (ReplicaIDs shard) \<subseteq> set active \<and> desired_replicas active \<le> go_len (ReplicaIDs shard)"

lemma add_candidates:
  assumes "distinct active" and "[] \<notin> set active" and "shard_wf shard" and "PrimaryID shard \<in> set active"
    and "set (ReplicaIDs shard) \<subseteq> set active"
    and "set new \<subseteq> set active - insert (PrimaryID shard) (set (ReplicaIDs shard))" and "distinct new"
    and "desired_replicas active \<le> go_len (ReplicaIDs shard @ new)"
  shows "fully_replicated active (shard\<lparr>ReplicaIDs := ReplicaIDs shard @ new\<rparr>)"
proof -
  have "PrimaryID shard \<noteq> []" using assms(2,4) by metis
  with assms show ?thesis unfolding fully_replicated_def shard_wf_def by auto
qed

lemma assign_replicas_full:
  assumes "distinct active" and "[] \<notin> set active" and "set active = {n. is_active cfg n}"
    and "shard_wf shard" and "PrimaryID shard \<in> set active" and "\<forall>r \<in> set (ReplicaIDs shard). is_active cfg r"
  shows "fully_replicated active (fst (assign_replicas (Nodes cfg) active i shard))"
proof (cases "go_len (ReplicaIDs shard) < desired_replicas active")
  case True
  let ?rs = "ReplicaIDs shard" and ?cand = "filter (\<lambda>n. n \<noteq> PrimaryID shard \<and> n \<notin> set (ReplicaIDs shard)) active"
  let ?new = "take (nat (desired_replicas active - go_len ?rs)) ?cand"
  have rs: "set ?rs \<subseteq> set active" "distinct ?rs" "PrimaryID shard \<notin> set ?rs"
    using assms(3,4,6) by (auto simp: shard_wf_def)
  have eq: "fst (assign_replicas (Nodes cfg) active i shard) = shard\<lparr>ReplicaIDs := ?rs @ ?new\<rparr>"
    using True by (simp add: assign_replicas_def Let_def active_list_id [OF assms(6)] add_replicas_eq)
  have "int (length ?cand) = go_len active - 1 - go_len ?rs"
    using candidates_count [OF assms(1) rs(2,1) assms(5) rs(3)] True
    by (simp add: go_len_def desired_replicas_def Let_def split: if_splits)
  moreover have "desired_replicas active \<le> go_len active - 1" by (simp add: desired_replicas_def Let_def)
  ultimately have len: "desired_replicas active \<le> go_len (?rs @ ?new)"
    using True unfolding go_len_def length_append length_take by linarith
  have sub: "set ?new \<subseteq> set active - insert (PrimaryID shard) (set ?rs)"
    using set_take_subset [of _ ?cand] by fastforce
  have "distinct ?new" using assms(1) by (intro distinct_take distinct_filter)
  from add_candidates [OF assms(1,2,4,5) rs(1) sub this len] show ?thesis unfolding eq .
next
  case False
  then have eq: "fst (assign_replicas (Nodes cfg) active i shard) = shard" by (simp add: assign_replicas_def)
  show ?thesis unfolding eq fully_replicated_def using False assms(3-6) by auto
qed

lemma assign_shard_full:
  assumes "distinct active" and "[] \<notin> set active" and "set active = {n. is_active cfg n}" and "active \<noteq> []"
    and "shard_wf shard" and "PrimaryID shard = [] \<or> is_active cfg (PrimaryID shard)"
    and "\<forall>r \<in> set (ReplicaIDs shard). is_active cfg r"
  shows "fully_replicated active (fst (assign_shard (Nodes cfg) active k i shard))"
proof -
  let ?s = "fst (assign_primary active k shard)"
  have "?s = shard \<and> PrimaryID shard \<noteq> [] \<or> PrimaryID shard = [] \<and>
      ?s = shard\<lparr>PrimaryID := active ! (k mod length active), shard_Status := ShardStatusActive\<rparr>"
    by (simp add: assign_primary_def)
  then have "shard_wf ?s \<and> PrimaryID ?s \<in> set active \<and> (\<forall>r \<in> set (ReplicaIDs ?s). is_active cfg r)"
  proof
    assume "?s = shard \<and> PrimaryID shard \<noteq> []"
    then show ?thesis using assms(3,5-7) by simp
  next
    assume p: "PrimaryID shard = [] \<and> ?s = shard\<lparr>PrimaryID := active ! (k mod length active), shard_Status := ShardStatusActive\<rparr>"
    then have "ReplicaIDs shard = []" using assms(5) by (simp add: shard_wf_def)
    then show ?thesis using p assms(2,4) by (simp add: shard_wf_def)
  qed
  then show ?thesis
    using assign_replicas_full [OF assms(1-3), of ?s i] by (simp add: assign_shard_def case_prod_beta)
qed

lemma assign_loop_tasks:
  "distinct is \<Longrightarrow> \<exists>idx. (\<forall>i. fst (assign_loop nodes active k is m) i =
      (if i \<in> set is then map_option (\<lambda>shard. fst (assign_shard nodes active (idx i) i shard)) (m i) else m i)) \<and>
    (\<forall>t. t \<in> set (snd (assign_loop nodes active k is m)) \<longleftrightarrow>
      (\<exists>i \<in> set is. \<exists>shard. m i = Some shard \<and> t \<in> set (snd (snd (assign_shard nodes active (idx i) i shard)))))"
proof (induction "is" arbitrary: k m)
  case (Cons i "is")
  then have d: "distinct is" and i: "i \<notin> set is" by simp_all
  show ?case
  proof (cases "m i")
    case None
    from Cons.IH [OF d, of k m] obtain idx where
      "\<forall>j. fst (assign_loop nodes active k is m) j =
         (if j \<in> set is then map_option (\<lambda>shard. fst (assign_shard nodes active (idx j) j shard)) (m j) else m j)"
      "\<forall>t. t \<in> set (snd (assign_loop nodes active k is m)) \<longleftrightarrow>
         (\<exists>i \<in> set is. \<exists>shard. m i = Some shard \<and> t \<in> set (snd (snd (assign_shard nodes active (idx i) i shard))))"
      by blast
    then show ?thesis using None by (intro exI [of _ idx]) auto
  next
    case (Some shard)
    obtain shard' k' ts where a: "assign_shard nodes active k i shard = (shard', k', ts)" by (metis prod_cases3)
    obtain m' ts' where l: "assign_loop nodes active k' is (m(i \<mapsto> shard')) = (m', ts')" by fastforce
    from Cons.IH [OF d, of k' "m(i \<mapsto> shard')"] obtain idx where
      idx: "\<forall>j. m' j = (if j \<in> set is then map_option (\<lambda>shard. fst (assign_shard nodes active (idx j) j shard)) ((m(i \<mapsto> shard')) j)
          else (m(i \<mapsto> shard')) j)"
      "\<forall>t. t \<in> set ts' \<longleftrightarrow>
         (\<exists>j \<in> set is. \<exists>shard. (m(i \<mapsto> shard')) j = Some shard \<and> t \<in> set (snd (snd (assign_shard nodes active (idx j) j shard))))"
      unfolding l fst_conv snd_conv by blast
    have other: "(m(i \<mapsto> shard')) j = m j \<and> (idx(i := k)) j = idx j" if "j \<in> set is" for j using that i by auto
    have "t \<in> set ts' \<longleftrightarrow> (\<exists>j \<in> set is. \<exists>shard. m j = Some shard \<and> t \<in> set (snd (snd (assign_shard nodes active ((idx(i := k)) j) j shard))))" for t
      using idx(2) other by simp
    then show ?thesis using Some a l i idx(1) by (intro exI [of _ "idx(i := k)"]) auto
  qed
qed simp

lemma assign_loop_eq:
  "distinct is \<Longrightarrow> \<exists>idx. \<forall>i. fst (assign_loop nodes active k is m) i =
     (if i \<in> set is then map_option (\<lambda>shard. fst (assign_shard nodes active (idx i) i shard)) (m i) else m i)"
  using assign_loop_tasks by blast

text \<open>What a call of \<open>Rebalance\<close> leaves, whether or not there was anything to do.\<close>

definition nodes_named :: "ClusterConfig \<Rightarrow> bool" where
  "nodes_named cfg \<longleftrightarrow> Nodes cfg [] = None"

lemma Controller_Rebalance_frame:
  "Nodes (c_config (fst (Controller_Rebalance ord is c))) = Nodes (c_config c)"
  "TotalShards (c_config (fst (Controller_Rebalance ord is c))) = TotalShards (c_config c)"
  "reaper (fst (Controller_Rebalance ord is c)) = reaper c"
  by (auto simp: Controller_Rebalance_eq Let_def split: prod.splits)

lemma Controller_Rebalance_shards:
  assumes ord: "range_order ord (Nodes (c_config c))" and "is": "range_order is (Shards (c_config c))"
    and wf: "topology_wf (c_config c)" and live: "topology_live (c_config c)" and nn: "nodes_named (c_config c)"
    and ne: "active_list ord (Nodes (c_config c)) \<noteq> []"
  shows "dom (Shards (c_config (fst (Controller_Rebalance ord is c)))) = dom (Shards (c_config c))"
    and "Shards (c_config (fst (Controller_Rebalance ord is c))) i = Some shard' \<Longrightarrow>
      fully_replicated (active_list ord (Nodes (c_config c))) shard'"
proof -
  let ?cfg = "c_config c" let ?active = "active_list ord (Nodes ?cfg)"
  have a: "distinct ?active" "set ?active = {n. is_active ?cfg n}"
    using ord by (simp_all add: active_list_distinct active_list_all range_order_def)
  then have "[] \<notin> set ?active" using nn by (simp add: is_active_def nodes_named_def)
  then have full: "fully_replicated ?active (fst (assign_shard (Nodes ?cfg) ?active k j shard))"
    if "Shards ?cfg j = Some shard" for j k shard
    using that wf live assign_shard_full [OF a(1) _ a(2) ne] by (auto simp: topology_wf_def topology_live_def)
  have noop: "fully_replicated ?active shard" if "Shards ?cfg j = Some shard" "\<not> needs_update ?active shard" for j shard
    using that wf live a(2) by (auto simp: needs_update_def fully_replicated_def topology_wf_def topology_live_def)
  obtain idx where loop: "\<forall>j. fst (assign_loop (Nodes ?cfg) ?active 0 is (Shards ?cfg)) j =
      (if j \<in> set is then map_option (\<lambda>shard. fst (assign_shard (Nodes ?cfg) ?active (idx j) j shard)) (Shards ?cfg j)
       else Shards ?cfg j)"
    using assign_loop_eq "is" unfolding range_order_def by blast
  have dom: "j \<in> set is \<longleftrightarrow> Shards ?cfg j \<noteq> None" for j using "is" by (auto simp: range_order_def)
  let ?upd = "list_ex (\<lambda>i. case Shards ?cfg i of None \<Rightarrow> False | Some shard \<Rightarrow> needs_update ?active shard) is"
  have sh: "Shards (c_config (fst (Controller_Rebalance ord is c))) =
      (if ?upd then fst (assign_loop (Nodes ?cfg) ?active 0 is (Shards ?cfg)) else Shards ?cfg)"
    using ne by (simp add: Controller_Rebalance_eq Let_def split: prod.splits)
  show "dom (Shards (c_config (fst (Controller_Rebalance ord is c)))) = dom (Shards ?cfg)"
    unfolding sh using loop dom by (auto simp: dom_def)
  show "fully_replicated ?active shard'" if "Shards (c_config (fst (Controller_Rebalance ord is c))) i = Some shard'"
  proof (cases ?upd)
    case True
    then show ?thesis using that loop dom full by (auto simp: sh split: if_splits)
  next
    case False
    then show ?thesis using that noop dom [of i] by (force simp: sh list_ex_iff)
  qed
qed

section \<open>The controller's steps keep the topology well-formed\<close>

text \<open>
  The invariant: well-formed and live, no node with an empty name, and the shards are numbered from 0. \<open>RegisterNode\<close>
  requests without a name are refused before they get here. A command that replaces the topology carries one
  that a controller broadcast, so one that satisfies the invariant itself.
\<close>

definition topology_ok :: "ClusterConfig \<Rightarrow> bool" where
  "topology_ok cfg \<longleftrightarrow> topology_wf cfg \<and> topology_live cfg \<and> nodes_named cfg \<and>
     dom (Shards cfg) = {0..<TotalShards cfg}"

text \<open>
  The steps, in any order: heartbeats, liveness checks, node failures, registrations, rebalancing, and the two
  topology changes of a migration. A migration is restricted to a target that is active and no replica of the shard when
  the primary changes; \<open>MoveShard\<close> does not check this.
\<close>

inductive controller_step :: "Controller \<Rightarrow> Controller \<Rightarrow> bool" where
  heartbeat: "controller_step c (Heartbeat now node c)"
| liveness: "controller_step c (c\<lparr>reaper := fst (checkLiveness now nodes (reaper c))\<rparr>)"
| failure: "range_order is (Shards (c_config c)) \<Longrightarrow> node \<noteq> [] \<Longrightarrow> controller_step c (HandleNodeFailure is node c)"
| register: "node \<noteq> [] \<Longrightarrow> controller_step c (applyRegisterNode leader now node address c)"
| update: "topology_ok cfg \<Longrightarrow> controller_step c (applyUpdateTopology cfg c)"
| rebalance: "range_order ord (Nodes (c_config c)) \<Longrightarrow> range_order is (Shards (c_config c)) \<Longrightarrow>
    controller_step c (fst (Controller_Rebalance ord is c))"
| lock: "i \<in> dom (Shards (c_config c)) \<Longrightarrow> controller_step c (lock_shard i c)"
| switch: "Shards (c_config c) i = Some shard \<Longrightarrow> is_active (c_config c) target \<Longrightarrow> target \<notin> set (ReplicaIDs shard) \<Longrightarrow>
    controller_step c (switch_primary i target c)"

lemma HandleNodeFailure_ok:
  assumes "range_order is (Shards (c_config c))" and "node \<noteq> []" and "topology_ok (c_config c)"
  shows "topology_ok (c_config (HandleNodeFailure is node c))"
proof -
  let ?cfg = "metadata_Rebalance is (c_config c) node"
  have "Nodes (c_config c) [] = None" using assms(3) by (simp add: topology_ok_def nodes_named_def)
  then have "nodes_named ?cfg"
    using assms(2) by (auto simp: nodes_named_def metadata_Rebalance_simps(3) [OF assms(1)] mark_dead_def split: option.splits)
  moreover have "dom (Shards ?cfg) = dom (Shards (c_config c))"
    by (auto simp: dom_def metadata_Rebalance_simps(4) [OF assms(1)])
  ultimately show ?thesis
    using assms metadata_Rebalance_wf [OF assms(1)] metadata_Rebalance_live [OF assms(1) _ _ assms(2)]
    by (simp add: topology_ok_def HandleNodeFailure_def metadata_Rebalance_simps(2) [OF assms(1)])
qed

lemma applyRegisterNode_ok:
  assumes "node \<noteq> []" and "topology_ok (c_config c)"
  shows "topology_ok (c_config (applyRegisterNode leader now node address c))"
proof (cases "Nodes (c_config c) node")
  case None
  let ?cfg = "c_config (applyRegisterNode leader now node address c)"
  have sh: "Shards ?cfg = Shards (c_config c)" "TotalShards ?cfg = TotalShards (c_config c)"
    and "Nodes ?cfg [] = Nodes (c_config c) []"
    using None assms(1) by (simp_all add: applyRegisterNode_def)
  moreover have "is_active (c_config c) n \<Longrightarrow> is_active ?cfg n" for n
    using None by (auto simp: is_active_def applyRegisterNode_def)
  ultimately show ?thesis
    using assms(2) unfolding topology_ok_def topology_wf_def topology_live_def nodes_named_def by metis
qed (use assms in \<open>simp add: applyRegisterNode_def\<close>)

lemma fully_replicated_live:
  "set active = {n. is_active cfg n} \<Longrightarrow> fully_replicated active shard \<Longrightarrow>
   shard_wf shard \<and> is_active cfg (PrimaryID shard) \<and> (\<forall>r \<in> set (ReplicaIDs shard). is_active cfg r)"
  unfolding fully_replicated_def by auto

lemma Controller_Rebalance_ok:
  assumes ord: "range_order ord (Nodes (c_config c))" and "is": "range_order is (Shards (c_config c))"
    and ok: "topology_ok (c_config c)"
  shows "topology_ok (c_config (fst (Controller_Rebalance ord is c)))"
proof (cases "active_list ord (Nodes (c_config c)) = []")
  case True
  then show ?thesis using ok by (simp add: Controller_Rebalance_eq)
next
  case False
  let ?cfg = "c_config (fst (Controller_Rebalance ord is c))"
  have old: "topology_wf (c_config c)" "topology_live (c_config c)" "nodes_named (c_config c)"
    using ok by (simp_all add: topology_ok_def)
  have act: "is_active ?cfg = is_active (c_config c)"
    by (rule ext) (simp add: is_active_def Controller_Rebalance_frame)
  have "shard_wf shard \<and> is_active ?cfg (PrimaryID shard) \<and> (\<forall>r \<in> set (ReplicaIDs shard). is_active ?cfg r)"
    if "Shards ?cfg i = Some shard" for i shard
    unfolding act by (rule fully_replicated_live [OF active_list_all [OF ord] Controller_Rebalance_shards(2) [OF ord "is" old False that]])
  then have "topology_wf ?cfg" "topology_live ?cfg" unfolding topology_wf_def topology_live_def by blast+
  moreover have "nodes_named ?cfg" using old(3) by (simp add: nodes_named_def Controller_Rebalance_frame)
  ultimately show ?thesis
    using ok Controller_Rebalance_shards(1) [OF ord "is" old False]
    by (simp add: topology_ok_def Controller_Rebalance_frame)
qed

text \<open>Changing one shard to another well-formed live one keeps the invariant.\<close>

lemma set_shard_ok:
  assumes "topology_ok cfg" and "Shards cfg i = Some shard"
    and "shard_wf (f shard)" and "PrimaryID (f shard) = [] \<or> is_active cfg (PrimaryID (f shard))"
    and "\<forall>r \<in> set (ReplicaIDs (f shard)). is_active cfg r"
  shows "topology_ok (set_shard i f cfg)"
proof -
  have eqs: "Shards (set_shard i f cfg) = (Shards cfg)(i \<mapsto> f shard)" "Nodes (set_shard i f cfg) = Nodes cfg"
    "TotalShards (set_shard i f cfg) = TotalShards cfg"
    using assms(2) by (simp_all add: set_shard_def)
  then have "is_active (set_shard i f cfg) = is_active cfg" by (intro ext) (simp add: is_active_def)
  moreover have "dom (Shards (set_shard i f cfg)) = dom (Shards cfg)" using assms(2) by (auto simp: eqs)
  ultimately show ?thesis
    using assms eqs unfolding topology_ok_def topology_wf_def topology_live_def nodes_named_def by simp
qed

lemma lock_shard_ok:
  assumes "topology_ok (c_config c)" and "i \<in> dom (Shards (c_config c))"
  shows "topology_ok (c_config (lock_shard i c))"
proof -
  from assms(2) obtain shard where s: "Shards (c_config c) i = Some shard" by blast
  then show ?thesis
    using assms(1) set_shard_ok [OF assms(1) s, of "\<lambda>s. s\<lparr>shard_Status := ShardStatusLocked\<rparr>"]
    by (simp add: lock_shard_def topology_ok_def topology_wf_def topology_live_def shard_wf_def)
qed

lemma switch_primary_ok:
  assumes ok: "topology_ok (c_config c)" and s: "Shards (c_config c) i = Some shard"
    and "is_active (c_config c) target" and "target \<notin> set (ReplicaIDs shard)"
  shows "topology_ok (c_config (switch_primary i target c))"
proof -
  have "target \<noteq> []" using ok assms(3) by (auto simp: topology_ok_def nodes_named_def is_active_def)
  moreover have "shard_wf shard" "\<forall>r \<in> set (ReplicaIDs shard). is_active (c_config c) r"
    using ok s by (simp_all add: topology_ok_def topology_wf_def topology_live_def)
  ultimately show ?thesis
    using assms(3,4) set_shard_ok [OF ok s, of "\<lambda>s. s\<lparr>PrimaryID := target, shard_Status := ShardStatusActive\<rparr>"]
    by (simp add: switch_primary_def shard_wf_def)
qed

interpretation controller: step_invariant controller_step "\<lambda>c. topology_ok (c_config c)"
proof
  fix s t
  assume "controller_step s t" and "topology_ok (c_config s)"
  then show "topology_ok (c_config t)"
    by cases (simp_all add: Heartbeat_def applyUpdateTopology_def HandleNodeFailure_ok applyRegisterNode_ok
        Controller_Rebalance_ok lock_shard_ok switch_primary_ok)
qed

lemma NewController_ok: "topology_ok (c_config (NewController grace))"
  by (auto simp: NewController_def NewClusterConfig_def topology_ok_def topology_wf_def topology_live_def shard_wf_def
      nodes_named_def new_shards_loop_eq split: if_splits)

section \<open>Printing and reading a shard number\<close>

text \<open>\<open>triggerPull\<close> prints the shard number into the query and \<open>HandleExport\<close> reads it back.\<close>

lemma sscanf_digits:
  assumes "ds \<noteq> []" and "\<forall>c \<in> set ds. is_digit c" and "digits_val ds < 2 ^ 63"
    and "- (2 ^ 63) \<le> digits_val ds"
  shows "sscanf_d ds = Some (digits_val ds)"
proof -
  obtain c cs where ds: "ds = c # cs" using assms(1) by (cases ds) auto
  then have "is_digit c" using assms(2) by simp
  then have c: "c \<noteq> CHR '' ''" "c \<noteq> CHR 0x09" "c \<noteq> CHR ''-''" "c \<noteq> CHR ''+''" by (auto simp: is_digit_def)
  have tw: "takeWhile is_digit (c # cs) = c # cs" using assms(2) unfolding ds takeWhile_eq_all_conv .
  show ?thesis using assms(3,4) c unfolding ds by (simp add: sscanf_d_def Let_def tw del: takeWhile.simps)
qed

lemma sscanf_itoa: "0 \<le> n \<Longrightarrow> n < 2 ^ 63 \<Longrightarrow> sscanf_d (itoa n) = Some n"
  using sscanf_digits [of "dec_digits (nat n)"] dec_digits_read [of "nat n"] by (simp add: itoa_def)

section \<open>Migration\<close>

lemma triggerPull_frame:
  "triggerPull net ks ks' target source i ns = (ns', b) \<Longrightarrow> u \<noteq> ''http://'' @ target \<Longrightarrow> ns' u = ns u"
  by (auto simp: triggerPull_def Let_def HandlePull_def HandleExport_def split: if_splits option.splits bind_splits)

lemma triggerPull_ok:
  assumes "ns (''http://'' @ sourceAddr) = Some source" and "ns (''http://'' @ targetAddr) = Some s"
    and "net (''http://'' @ sourceAddr) = Delivered" and "net (''http://'' @ targetAddr) = Delivered"
    and "0 \<le> i" and "i < 2 ^ 63" and "0 < TotalShards (config source)"
    and "range_order ks (cm_data (store source))" and "range_order ks' (shard_part source i)"
  shows "triggerPull net ks ks' targetAddr sourceAddr i ns = (ns(''http://'' @ targetAddr \<mapsto> pulled source i s), True)"
  using HandlePull_eq [of ns "''http://'' @ sourceAddr" source "''http://'' @ targetAddr" s net "itoa i" i ks ks'] assms
    sscanf_itoa [OF assms(5,6)]
  by (simp add: triggerPull_def)

lemma lock_switch_config:
  assumes "Shards (c_config c) i = Some shard"
  shows "c_config (switch_primary i target (lock_shard i c)) = (c_config c)\<lparr>Epoch := Epoch (c_config c) + 2,
    Shards := (Shards (c_config c))(i \<mapsto> shard\<lparr>PrimaryID := target, shard_Status := ShardStatusActive\<rparr>)\<rparr>"
  using assms by (simp add: switch_primary_def lock_shard_def set_shard_def add.assoc)

section \<open>Properties\<close>


definition example_controller :: Controller where
  "example_controller = applyRegisterNode True 0 ''n2'' ''a2'' (applyRegisterNode True 0 ''n1'' ''a1'' (NewController 5000000000))"

lemma controller_run_step: "run controller_step s t \<Longrightarrow> controller_step t u \<Longrightarrow> run controller_step s u"
  by (rule run_step)

lemma example_controller_run: "run controller_step (NewController 5000000000) example_controller"
proof -
  have "run controller_step (NewController 5000000000) (applyRegisterNode True 0 ''n1'' ''a1'' (NewController 5000000000))"
    by (intro run_single controller_step.register) simp
  then show ?thesis unfolding example_controller_def by (rule controller_run_step) (intro controller_step.register, simp)
qed

lemma example_controller_orders:
  "range_order [''n1'', ''n2''] (Nodes (c_config example_controller))"
  "range_order [0..9] (Shards (c_config example_controller))"
  by (auto simp: example_controller_def applyRegisterNode_def NewController_def NewClusterConfig_def range_order_def
      new_shards_loop_eq split: if_splits)




text \<open>C26: \<open>MoveShard\<close> moves a shard: when both calls get through, the target node holds every entry of the shard that the
  source holds, besides what it had, no other node changed, and the controller's topology differs from before only in
  that the target is the primary of the now unlocked shard and that the epoch has grown by two.\<close>
theorem move_shard_transfers:
  assumes "Shards (c_config c) i = Some shard" and "Nodes (c_config c) (PrimaryID shard) = Some sourceNode"
    and "Nodes (c_config c) target = Some targetNode" and "Address sourceNode \<noteq> Address targetNode"
    and "ns (''http://'' @ Address sourceNode) = Some source" and "ns (''http://'' @ Address targetNode) = Some s"
    and "\<forall>u. net u = Delivered" and "\<forall>u. net' u = Delivered"
    and "0 \<le> i" and "i < 2 ^ 63" and "0 < TotalShards (config source)"
    and "range_order ks (cm_data (store source))" and "range_order ks' (shard_part source i)"
  shows "\<exists>c'. MoveShard net net' ks ks' i target (c, ns) =
      ((c', ns(''http://'' @ Address targetNode \<mapsto> pulled source i s)), None) \<and>
    c_config c' = (c_config c)\<lparr>Epoch := Epoch (c_config c) + 2,
      Shards := (Shards (c_config c))(i \<mapsto> shard\<lparr>PrimaryID := target, shard_Status := ShardStatusActive\<rparr>)\<rparr> \<and>
    (\<forall>k v. cm_data (store source) k = Some v \<and> shard_of k (TotalShards (config source)) = i \<longrightarrow>
       cm_data (store (pulled source i s)) k = Some v)"
proof -
  let ?t = "''http://'' @ Address targetNode"
  have d: "net u = Delivered" "net' u = Delivered" for u using assms(7,8) by simp_all
  have 1: "triggerPull net ks ks' (Address targetNode) (Address sourceNode) i ns = (ns(?t \<mapsto> pulled source i s), True)"
    by (rule triggerPull_ok [OF assms(5,6) d(1) d(1) assms(9-13)])
  have "triggerPull net' ks ks' (Address targetNode) (Address sourceNode) i (ns(?t \<mapsto> pulled source i s)) =
      ((ns(?t \<mapsto> pulled source i s))(?t \<mapsto> pulled source i (pulled source i s)), True)"
    using assms(4,5) by (intro triggerPull_ok [OF _ _ d(2) d(2) assms(9-13)]) simp_all
  then have 2: "triggerPull net' ks ks' (Address targetNode) (Address sourceNode) i (ns(?t \<mapsto> pulled source i s)) =
      (ns(?t \<mapsto> pulled source i s), True)"
    unfolding pulled_idem fun_upd_upd .
  have "MoveShard_lookup i target c = Inr (sourceNode, targetNode)"
    using assms(1-3) by (simp add: MoveShard_lookup_def)
  then have "MoveShard net net' ks ks' i target (c, ns) =
      ((switch_primary i target (lock_shard i c), ns(?t \<mapsto> pulled source i s)), None)"
    using 1 2 by (simp add: MoveShard_def)
  moreover have "cm_data (store (pulled source i s)) k = Some v"
    if "cm_data (store source) k = Some v" "shard_of k (TotalShards (config source)) = i" for k v
    using that by (simp add: pulled_def shard_part_def)
  ultimately show ?thesis using lock_switch_config [OF assms(1)] by blast
qed

text \<open>A two-node cluster with one shard on the first node and no replica.\<close>

definition move_config :: ClusterConfig where
  "move_config = example_topology\<lparr>Shards :=
     [0 \<mapsto> \<lparr>shard_ID = 0, PrimaryID = ''n1'', ReplicaIDs = [], shard_Status = ShardStatusActive\<rparr>]\<rparr>"

definition move_controller :: Controller where
  "move_controller = \<lparr>reaper = NewReaper 5000000000, c_config = move_config, rebalances = 0\<rparr>"

definition move_server :: "string \<Rightarrow> Server" where
  "move_server n = NewServer NewConcurrentMapCache \<lparr>validUntil = 100, lease_duration = 5, lease_nodeID = n\<rparr> move_config n"

definition move_nodes :: nodes where
  "move_nodes = [''http://a1'' \<mapsto> move_server ''n1'', ''http://a2'' \<mapsto> move_server ''n2'']"

lemmas move_defs = move_config_def example_topology_def move_controller_def move_server_def move_nodes_def NewServer_def
  NewConcurrentMapCache_def

lemma move_empty: "shard_part (move_server n) 0 = Map.empty" "pulled (move_server n) 0 s = s"
  by (simp_all add: shard_part_def pulled_def move_server_def NewServer_def NewConcurrentMapCache_def)

theorem move_shard_transfers_witness:
  "\<exists>c'. MoveShard (\<lambda>_. Delivered) (\<lambda>_. Delivered) [] [] 0 ''n2'' (move_controller, move_nodes) =
      ((c', move_nodes(''http://a2'' \<mapsto> pulled (move_server ''n1'') 0 (move_server ''n2''))), None) \<and>
    Epoch (c_config c') = 3"
proof -
  have "\<exists>c'. MoveShard (\<lambda>_. Delivered) (\<lambda>_. Delivered) [] [] 0 ''n2'' (move_controller, move_nodes) =
      ((c', move_nodes(''http://'' @ Address (the (Nodes move_config ''n2'')) \<mapsto> pulled (move_server ''n1'') 0 (move_server ''n2''))), None) \<and>
    c_config c' = (c_config move_controller)\<lparr>Epoch := Epoch (c_config move_controller) + 2,
      Shards := (Shards (c_config move_controller))(0 \<mapsto>
        (the (Shards move_config 0))\<lparr>PrimaryID := ''n2'', shard_Status := ShardStatusActive\<rparr>)\<rparr> \<and>
    (\<forall>k v. cm_data (store (move_server ''n1'')) k = Some v \<and> shard_of k (TotalShards (config (move_server ''n1''))) = 0 \<longrightarrow>
       cm_data (store (pulled (move_server ''n1'') 0 (move_server ''n2''))) k = Some v)"
    by (rule move_shard_transfers [where sourceNode = "the (Nodes move_config ''n1'')"])
      (simp_all add: move_empty, simp_all add: move_defs range_order_def)
  then show ?thesis by (auto simp: move_defs)
qed

text \<open>A migration that fails leaves the topology as it was, or, when the second copy fails, with the shard locked
  and its primary unchanged, so that no write to the shard is accepted once the nodes know; only the target node's
  store may have changed.\<close>
theorem move_shard_error_states:
  assumes "MoveShard net net' ks ks' i target (c, ns) = ((c', ns'), Some err)"
  shows "(c' = c \<or> err = CatchupFailed \<and>
      (\<exists>shard. Shards (c_config c) i = Some shard \<and>
         c_config c' = (c_config c)\<lparr>Epoch := Epoch (c_config c) + 1,
           Shards := (Shards (c_config c))(i \<mapsto> shard\<lparr>shard_Status := ShardStatusLocked\<rparr>)\<rparr>)) \<and>
    (\<forall>u. ns' u = ns u \<or> (\<exists>targetNode. Nodes (c_config c) target = Some targetNode \<and> u = ''http://'' @ Address targetNode))"
proof (cases "MoveShard_lookup i target c")
  case (Inl e)
  then show ?thesis using assms by (simp add: MoveShard_def)
next
  case (Inr p)
  obtain sn tn where p: "p = (sn, tn)" by fastforce
  have nodes: "Nodes (c_config c) target = Some tn" and "\<exists>shard. Shards (c_config c) i = Some shard"
    using Inr unfolding p by (auto simp: MoveShard_lookup_def split: option.splits)
  then obtain shard where shard: "Shards (c_config c) i = Some shard" by blast
  obtain ns1 b1 where 1: "triggerPull net ks ks' (Address tn) (Address sn) i ns = (ns1, b1)" by fastforce
  obtain ns2 b2 where 2: "triggerPull net' ks ks' (Address tn) (Address sn) i ns1 = (ns2, b2)" by fastforce
  have "c' = c \<and> ns' = ns1 \<or> err = CatchupFailed \<and> c' = lock_shard i c \<and> ns' = ns2"
    using assms 1 2 Inr unfolding p by (auto simp: MoveShard_def split: bool.splits)
  moreover have "u \<noteq> ''http://'' @ Address tn \<Longrightarrow> ns1 u = ns u \<and> ns2 u = ns u" for u
    using triggerPull_frame [OF 1, of u] triggerPull_frame [OF 2, of u] by simp
  moreover have "c_config (lock_shard i c) = (c_config c)\<lparr>Epoch := Epoch (c_config c) + 1,
      Shards := (Shards (c_config c))(i \<mapsto> shard\<lparr>shard_Status := ShardStatusLocked\<rparr>)\<rparr>"
    using shard by (simp add: lock_shard_def set_shard_def)
  ultimately show ?thesis using nodes shard by blast
qed

theorem move_shard_error_states_witness:
  "\<exists>c' ns'. MoveShard (\<lambda>_. Delivered) (\<lambda>_. RequestLost) [] [] 0 ''n2'' (move_controller, move_nodes) =
      ((c', ns'), Some CatchupFailed) \<and>
    ns' ''http://a1'' = move_nodes ''http://a1''"
proof -
  have m: "\<exists>c' ns'. MoveShard (\<lambda>_. Delivered) (\<lambda>_. RequestLost) [] [] 0 ''n2'' (move_controller, move_nodes) =
      ((c', ns'), Some CatchupFailed)"
  proof -
    have "triggerPull (\<lambda>_. Delivered) [] [] ''a2'' ''a1'' 0 move_nodes =
        (move_nodes(''http://'' @ ''a2'' \<mapsto> pulled (move_server ''n1'') 0 (move_server ''n2'')), True)"
      by (rule triggerPull_ok) (simp_all add: move_empty, simp_all add: move_defs range_order_def)
    then show ?thesis by (simp add: MoveShard_def MoveShard_lookup_def move_controller_def move_config_def example_topology_def
        triggerPull_def [where net = "\<lambda>_. RequestLost"])
  qed
  then obtain c' ns' where e: "MoveShard (\<lambda>_. Delivered) (\<lambda>_. RequestLost) [] [] 0 ''n2'' (move_controller, move_nodes) =
      ((c', ns'), Some CatchupFailed)" by blast
  have "Nodes (c_config move_controller) ''n2'' = Some tn \<Longrightarrow> Address tn = ''a2''" for tn by (auto simp: move_defs)
  then have "ns' ''http://a1'' = move_nodes ''http://a1''" using move_shard_error_states [OF e] by fastforce
  with e show ?thesis by blast
qed

text \<open>\<open>MoveShard\<close> can lose an acknowledged write. The lock and the new primary are changes of the controller's own
  topology, and nothing waits until the source node has learned of them: after a complete migration, the old primary
  still accepts a put with the old epoch and answers 200, and the new primary never sees it.\<close>
theorem move_loses_acknowledged_write:
  "\<exists>c' ns' ns'' s1 s2. MoveShard (\<lambda>_. Delivered) (\<lambda>_. Delivered) [] [] 0 ''n2'' (move_controller, move_nodes) = ((c', ns'), None) \<and>
     HandlePut 0 (\<lambda>_. Delivered) ''http://a1'' (Some example_write) ns' = Some (ns'', StatusOK) \<and>
     PrimaryID (the (Shards (c_config c') 0)) = ''n2'' \<and>
     ns'' ''http://a1'' = Some s1 \<and> cm_data (store s1) ''k'' = Some ''v'' \<and>
     ns'' ''http://a2'' = Some s2 \<and> cm_data (store s2) ''k'' = None"
proof -
  have pull: "triggerPull (\<lambda>_. Delivered) [] [] ''a2'' ''a1'' 0 move_nodes = (move_nodes, True)"
  proof -
    have "triggerPull (\<lambda>_. Delivered) [] [] ''a2'' ''a1'' 0 move_nodes =
        (move_nodes(''http://'' @ ''a2'' \<mapsto> pulled (move_server ''n1'') 0 (move_server ''n2'')), True)"
      by (rule triggerPull_ok) (simp_all add: move_empty, simp_all add: move_defs range_order_def)
    then show ?thesis unfolding move_empty by (simp add: move_nodes_def fun_upd_idem)
  qed
  have "MoveShard (\<lambda>_. Delivered) (\<lambda>_. Delivered) [] [] 0 ''n2'' (move_controller, move_nodes) =
      ((switch_primary 0 ''n2'' (lock_shard 0 move_controller), move_nodes), None)"
    using pull by (simp add: MoveShard_def MoveShard_lookup_def move_controller_def move_config_def example_topology_def)
  moreover have "HandlePut 0 (\<lambda>_. Delivered) ''http://a1'' (Some example_write) move_nodes =
      Some (move_nodes(''http://a1'' \<mapsto> put_on example_write (move_server ''n1'')), StatusOK)"
    by (simp add: HandlePut_def HandlePut_replicate_def HandlePut_local_def write_checks_def key_shard_id_pos GetEpoch_def
        GetReplicaURLs_def IsActive_def put_on_def example_write_def move_defs status_defs)
  moreover have "PrimaryID (the (Shards (c_config (switch_primary 0 ''n2'' (lock_shard 0 move_controller))) 0)) = ''n2''"
    by (simp add: switch_primary_def lock_shard_def set_shard_def)
  moreover have "cm_data (store (put_on example_write (move_server ''n1''))) ''k'' = Some ''v''"
    "cm_data (store (move_server ''n2'')) ''k'' = None"
    by (simp_all add: put_on_def example_write_def ConcurrentMapCache_Put_def move_defs)
  moreover have "(move_nodes(''http://a1'' \<mapsto> s1)) ''http://a2'' = Some (move_server ''n2'')" for s1
    by (simp add: move_nodes_def)
  ultimately show ?thesis by (metis fun_upd_same)
qed

lemma liveness_loop_eq:
  "distinct nodes \<Longrightarrow> liveness_loop now grace nodes seen =
     (\<lambda>n. if n \<in> set nodes \<and> (\<exists>t. seen n = Some t \<and> grace < time_sub now t) then None else seen n,
      filter (\<lambda>n. \<exists>t. seen n = Some t \<and> grace < time_sub now t) nodes)"
proof (induction nodes arbitrary: seen)
  case (Cons n nodes)
  have "filter (\<lambda>m. \<exists>t. (seen(n := None)) m = Some t \<and> grace < time_sub now t) nodes =
      filter (\<lambda>m. \<exists>t. seen m = Some t \<and> grace < time_sub now t) nodes"
    using Cons.prems by (intro filter_cong) auto
  with Cons show ?case by (auto simp: fun_eq_iff split: option.splits)
qed simp

text \<open>C23: Failure detection is exact: \<open>checkLiveness\<close> reports, once each, the tracked nodes whose last heartbeat is older
  than the grace period, and no other; it forgets them, so that a second check at any time reports none of
  them again, and keeps what it knows of the other nodes.\<close>
theorem checkLiveness_reports:
  assumes "range_order nodes (lastSeen r)" and "checkLiveness now nodes r = (r', dead)"
  shows "distinct dead \<and> set dead = {n. \<exists>t. lastSeen r n = Some t \<and> gracePeriod r < time_sub now t} \<and>
    lastSeen r' = lastSeen r |` (- set dead) \<and>
    (\<forall>nodes' later. range_order nodes' (lastSeen r') \<longrightarrow> set (snd (checkLiveness later nodes' r')) \<inter> set dead = {})"
proof -
  have d: "dead = filter (\<lambda>n. \<exists>t. lastSeen r n = Some t \<and> gracePeriod r < time_sub now t) nodes"
    and l: "lastSeen r' = (\<lambda>n. if n \<in> set nodes \<and> (\<exists>t. lastSeen r n = Some t \<and> gracePeriod r < time_sub now t) then None
      else lastSeen r n)"
    using assms by (auto simp: checkLiveness_def liveness_loop_eq range_order_def)
  have set: "set dead = {n. \<exists>t. lastSeen r n = Some t \<and> gracePeriod r < time_sub now t}"
    using assms(1) by (auto simp: d range_order_def)
  have l': "lastSeen r' = lastSeen r |` (- set dead)"
    by (rule ext) (auto simp: l d restrict_map_def)
  have "set (snd (checkLiveness later nodes' r')) \<inter> set dead = {}" if "range_order nodes' (lastSeen r')" for nodes' later
    using that by (auto simp: checkLiveness_def liveness_loop_eq range_order_def l')
  moreover have "distinct dead" using assms(1) by (simp add: d range_order_def)
  ultimately show ?thesis using set l' by blast
qed

theorem checkLiveness_reports_witness:
  "\<exists>r'. checkLiveness 11 [''n1'', ''n2''] (Track 10 ''n2'' (Track 1 ''n1'' (NewReaper 5))) = (r', [''n1'']) \<and>
     set [''n1''] = {n. \<exists>t. lastSeen (Track 10 ''n2'' (Track 1 ''n1'' (NewReaper 5))) n = Some t \<and> 5 < time_sub 11 t}"
proof -
  let ?r = "Track 10 ''n2'' (Track 1 ''n1'' (NewReaper 5))"
  have o: "range_order [''n1'', ''n2''] (lastSeen ?r)" by (auto simp: range_order_def Track_def NewReaper_def)
  have "\<exists>r'. checkLiveness 11 [''n1'', ''n2''] ?r = (r', [''n1''])"
    by (simp add: checkLiveness_def Track_def NewReaper_def time_sub_def max_duration_def)
  then obtain r' where "checkLiveness 11 [''n1'', ''n2''] ?r = (r', [''n1''])" by blast
  moreover have "gracePeriod ?r = 5" by (simp add: Track_def NewReaper_def)
  ultimately show ?thesis using checkLiveness_reports [OF o, of 11 r' "[''n1'']"] by simp
qed

text \<open>A node that was declared dead cannot come back under its name: after \<open>HandleNodeFailure\<close> a \<open>RegisterNode\<close> command
  for the node is answered with success and changes nothing, so the node stays \<open>DEAD\<close> and gets no shard, although its
  heartbeats are accepted again.\<close>
theorem failed_node_cannot_rejoin:
  assumes "range_order is (Shards (c_config c))" and "Nodes (c_config c) node = Some meta"
  shows "\<not> is_active (c_config (HandleNodeFailure is node c)) node \<and>
    ControllerApp_AppendMessage leader now (Some (HandleNodeFailure is node c)) (RegisterNode_message node address) =
      Some (Some (HandleNodeFailure is node c), True, 0)"
proof -
  have "Nodes (c_config (HandleNodeFailure is node c)) node = Some (meta\<lparr>node_Status := StatusDead, LastHeartbeat := zero_time\<rparr>)"
    using assms by (simp add: HandleNodeFailure_def metadata_Rebalance_simps(3) [OF assms(1)] mark_dead_def)
  then show ?thesis
    by (simp add: is_active_def status_defs ControllerApp_AppendMessage_def RegisterNode_message_def command_message_def
        decode_register_def applyRegisterNode_def)
qed

theorem failed_node_cannot_rejoin_witness:
  "\<not> is_active (c_config (HandleNodeFailure [0] ''n1'' move_controller)) ''n1'' \<and>
   ControllerApp_AppendMessage True 7 (Some (HandleNodeFailure [0] ''n1'' move_controller)) (RegisterNode_message ''n1'' ''a1'') =
     Some (Some (HandleNodeFailure [0] ''n1'' move_controller), True, 0)"
  by (rule failed_node_cannot_rejoin [where meta = "the (Nodes move_config ''n1'')"])
    (auto simp: move_defs range_order_def)

section \<open>Rebalancing against a second failure\<close>

definition race_config :: ClusterConfig where
  "race_config = \<lparr>Epoch = 4, TotalShards = 1,
     Nodes = map_of (map (\<lambda>n. (n, \<lparr>node_ID = n, Address = n, node_Status = StatusActive, LastHeartbeat = 0\<rparr>)) [''n1'', ''n2'', ''n3'']),
     Shards = [0 \<mapsto> \<lparr>shard_ID = 0, PrimaryID = ''n1'', ReplicaIDs = [], shard_Status = ShardStatusActive\<rparr>]\<rparr>"

definition race_controller :: Controller where
  "race_controller = \<lparr>reaper = NewReaper 5000000000, c_config = race_config, rebalances = 0\<rparr>"

text \<open>Two failures in a row can give a shard to a dead node for good. The first failure starts \<open>Rebalance\<close>, which reads the active nodes and gives the mutex up;
  the second node fails; then \<open>Rebalance\<close> makes that node the primary of the shard that has lost its own. From then on the shard has a primary and enough replicas, so that
  every later \<open>Rebalance\<close> finds nothing to do.\<close>
theorem rebalance_race:
  "\<exists>c1 c2 c3 active tasks. HandleNodeFailure [0] ''n1'' race_controller = c1 \<and>
     Rebalance_check [''n1'', ''n2'', ''n3''] [0] (c_config c1) = Some active \<and>
     HandleNodeFailure [0] ''n2'' c1 = c2 \<and>
     Rebalance_apply (Nodes (c_config c1)) active [0] c2 = (c3, tasks) \<and>
     map_option PrimaryID (Shards (c_config c3) 0) = Some ''n2'' \<and> map_option node_Status (Nodes (c_config c3) ''n2'') = Some StatusDead \<and>
     Controller_Rebalance [''n1'', ''n2'', ''n3''] [0] c3 = (c3, None)"
  by (simp add: race_controller_def race_config_def HandleNodeFailure_def metadata_Rebalance_def deepCopyConfig_def mark_dead_def rebalance_shard_def
      Rebalance_check_def Rebalance_apply_def Controller_Rebalance_eq active_list_def needs_update_def desired_replicas_def
      assign_shard_def assign_primary_def assign_replicas_def status_defs go_len_def Let_def)

section \<open>Controllers that apply the same commands agree\<close>

text \<open>
  Each controller applies the commands of the Raft log on its own. What a command does there depends on the log alone, except for the time of a registration and whether
  the controller leads. \<open>local\<close> gives these two for each command, and \<open>rs\<close> are the results.
\<close>

fun apply_commands :: "(nat \<Rightarrow> bool \<times> go_time) \<Rightarrow> Command option Message list \<Rightarrow> Controller option \<Rightarrow> (Controller option \<times> (bool \<times> int) list) option" where
  "apply_commands local [] app = Some (app, [])"
| "apply_commands local (msg # msgs) app = do {
     (app, r) \<leftarrow> ControllerApp_AppendMessage (fst (local 0)) (snd (local 0)) app msg;
     (app, rs) \<leftarrow> apply_commands (\<lambda>n. local (Suc n)) msgs app;
     Some (app, r # rs)
   }"

definition no_time :: "NodeMetadata \<Rightarrow> NodeMetadata" where
  "no_time n = n\<lparr>LastHeartbeat := 0\<rparr>"

definition same_topology :: "ClusterConfig \<Rightarrow> ClusterConfig \<Rightarrow> bool" where
  "same_topology cfg cfg' \<longleftrightarrow> Epoch cfg = Epoch cfg' \<and> TotalShards cfg = TotalShards cfg' \<and> Shards cfg = Shards cfg'
     \<and> (\<forall>n. map_option no_time (Nodes cfg n) = map_option no_time (Nodes cfg' n))"

lemma same_topology_refl [simp]: "same_topology cfg cfg"
  by (simp add: same_topology_def)

lemma same_topology_dom:
  assumes "same_topology cfg cfg'"
  shows "(Nodes cfg n = None) = (Nodes cfg' n = None)"
proof -
  have "map_option no_time (Nodes cfg n) = map_option no_time (Nodes cfg' n)" using assms by (simp add: same_topology_def)
  then show ?thesis by (cases "Nodes cfg n"; cases "Nodes cfg' n") simp_all
qed

lemma applyRegisterNode_same:
  assumes "same_topology (c_config c) (c_config c')"
  shows "same_topology (c_config (applyRegisterNode leader now node address c)) (c_config (applyRegisterNode leader' now' node address c'))"
proof (cases "Nodes (c_config c) node")
  case None
  then have "Nodes (c_config c') node = None" using same_topology_dom [OF assms] by simp
  then show ?thesis using None assms by (simp add: applyRegisterNode_def same_topology_def no_time_def)
next
  case (Some n)
  then obtain n' where "Nodes (c_config c') node = Some n'" using same_topology_dom [OF assms, of node] by auto
  then show ?thesis using Some assms by (simp add: applyRegisterNode_def)
qed

lemma AppendMessage_same:
  assumes "same_topology (c_config c) (c_config c')"
  obtains d d' r where "ControllerApp_AppendMessage leader now (Some c) msg = Some (Some d, r)"
    and "ControllerApp_AppendMessage leader' now' (Some c') msg = Some (Some d', r)" and "same_topology (c_config d) (c_config d')"
proof -
  have "\<exists>d d' r. ControllerApp_AppendMessage leader now (Some c) msg = Some (Some d, r)
    \<and> ControllerApp_AppendMessage leader' now' (Some c') msg = Some (Some d', r) \<and> same_topology (c_config d) (c_config d')"
    using assms applyRegisterNode_same [OF assms]
    by (auto simp: ControllerApp_AppendMessage_def applyUpdateTopology_def split: option.split)
  then show thesis using that by blast
qed

lemma apply_commands_same:
  "same_topology (c_config c) (c_config c') \<Longrightarrow>
   \<exists>d d' rs. apply_commands local msgs (Some c) = Some (Some d, rs) \<and> apply_commands local' msgs (Some c') = Some (Some d', rs)
     \<and> same_topology (c_config d) (c_config d')"
proof (induction msgs arbitrary: local local' c c')
  case (Cons msg msgs)
  obtain e e' r where e: "ControllerApp_AppendMessage (fst (local 0)) (snd (local 0)) (Some c) msg = Some (Some e, r)"
    "ControllerApp_AppendMessage (fst (local' 0)) (snd (local' 0)) (Some c') msg = Some (Some e', r)" "same_topology (c_config e) (c_config e')"
    using AppendMessage_same [OF Cons.prems] by blast
  then show ?case using Cons.IH [OF e(3), of "\<lambda>n. local (Suc n)" "\<lambda>n. local' (Suc n)"] by auto
qed simp

lemma apply_commands_append:
  "apply_commands local (msgs @ msgs') app = do {
     (app, rs) \<leftarrow> apply_commands local msgs app;
     (app, rs') \<leftarrow> apply_commands (\<lambda>n. local (length msgs + n)) msgs' app;
     Some (app, rs @ rs')
   }"
  by (induction msgs arbitrary: local app) (auto split: bind_split prod.split)

lemma restore_snapshot_same:
  "ControllerApp_RestoreFromSnapshot (ControllerApp_GetSnapshot (Some c)) (Some c') = (Some (c'\<lparr>c_config := c_config c\<rparr>), True, 0)"
  by (simp add: ControllerApp_RestoreFromSnapshot_def ControllerApp_GetSnapshot_def decode_config_def applyUpdateTopology_def)

text \<open>Controllers that apply the same commands of the Raft log agree: none panics, they give every command the same result and end with the same epoch, shards and nodes,
  up to the times of the last heartbeats. This also holds for one that starts from the snapshot another made after the first part of the log.
\<close>

theorem controller_replicas_agree:
  "\<exists>c1 c2 rs1 rs2.
     apply_commands local1 msgs1 (Some (NewController grace)) = Some (Some c1, rs1)
     \<and> apply_commands local2 (msgs1 @ msgs2) (Some (NewController grace)) = Some (Some c2, rs1 @ rs2)
     \<and> (\<exists>c3 c4. ControllerApp_RestoreFromSnapshot (ControllerApp_GetSnapshot (Some c1)) (Some c) = (Some c3, True, 0)
          \<and> apply_commands local3 msgs2 (Some c3) = Some (Some c4, rs2) \<and> same_topology (c_config c2) (c_config c4))"
proof -
  obtain c1 c2 rs1 where 1: "apply_commands local1 msgs1 (Some (NewController grace)) = Some (Some c1, rs1)"
    "apply_commands local2 msgs1 (Some (NewController grace)) = Some (Some c2, rs1)" "same_topology (c_config c2) (c_config c1)"
    using apply_commands_same [of "NewController grace" "NewController grace" local2 msgs1 local1] by auto
  from 1(3) have "same_topology (c_config c2) (c_config (c\<lparr>c_config := c_config c1\<rparr>))" by simp
  then obtain d d' rs2 where 2: "apply_commands (\<lambda>n. local2 (length msgs1 + n)) msgs2 (Some c2) = Some (Some d, rs2)"
    "apply_commands local3 msgs2 (Some (c\<lparr>c_config := c_config c1\<rparr>)) = Some (Some d', rs2)" "same_topology (c_config d) (c_config d')"
    using apply_commands_same by blast
  then have "apply_commands local2 (msgs1 @ msgs2) (Some (NewController grace)) = Some (Some d, rs1 @ rs2)"
    by (simp add: apply_commands_append 1(2))
  then show ?thesis using 1(1) 2(2,3) restore_snapshot_same [of c1 c] by blast
qed

end
