(* ===== verification/Client.thy ===== *)
theory Client
  imports Datanode
begin

text \<open>
  The smart client of \<open>pkg/client\<close>: it holds a topology, routes each key to the primary of its shard and retries
  with a fresh topology. Everything outside the client is an environment: controllers that answer with a
  topology, nodes that answer requests, and time that passes while the client sleeps. Its state \<open>'w\<close> is
  threaded through the calls, so that other processes may act between them.

  Keys and values are valid UTF-8, so that JSON carries them unchanged.
\<close>

section \<open>The environment\<close>

text \<open>
  An answer is \<^term>\<open>None\<close> when the request fails. \<open>env_get\<close> gets the key parameter of the request, \<^term>\<open>None\<close> when
  the request line is malformed.
\<close>

record 'w Env =
  env_topology :: "string \<Rightarrow> 'w \<Rightarrow> 'w \<times> (http_status \<times> ClusterConfig option) option"
  env_put :: "string \<Rightarrow> WriteRequest \<Rightarrow> 'w \<Rightarrow> 'w \<times> http_status option"
  env_get :: "string \<Rightarrow> string option \<Rightarrow> 'w \<Rightarrow> 'w \<times> (http_status \<times> string) option"
  env_delete :: "string \<Rightarrow> DeleteRequest \<Rightarrow> 'w \<Rightarrow> 'w \<times> http_status option"
  env_sleep :: "duration \<Rightarrow> 'w \<Rightarrow> 'w"

section \<open>Topology and routing\<close>

record SmartClient =
  cl_config :: "ClusterConfig option"
  controllers :: "string list"
  maxRetries :: int

record RouteResult =
  TargetURL :: string
  route_Epoch :: uint64
  route_ShardID :: int

datatype route_error = NoTopology | NoShards | ShardMissing int | PrimaryMissing string

datatype client_error = NoControllers | NoInitialTopology | MaxRetriesExceeded | UnexpectedStatus http_status | KeyNotFound

fun fetch_loop :: "'w Env \<Rightarrow> string list \<Rightarrow> 'w \<Rightarrow> SmartClient \<Rightarrow> 'w \<times> SmartClient \<times> bool" where
  "fetch_loop env [] w cl = (w, cl, False)"
| "fetch_loop env (controller # cs) w cl =
     (case env_topology env controller w of
        (w', None) \<Rightarrow> fetch_loop env cs w' cl
      | (w', Some (status, body)) \<Rightarrow>
          if status \<noteq> StatusOK then fetch_loop env cs w' cl
          else (case body of
                  None \<Rightarrow> fetch_loop env cs w' cl
                | Some cfg \<Rightarrow> (w', cl\<lparr>cl_config := Some cfg\<rparr>, True)))"

definition FetchTopology :: "'w Env \<Rightarrow> 'w \<Rightarrow> SmartClient \<Rightarrow> 'w \<times> SmartClient \<times> bool" where
  "FetchTopology env w cl = fetch_loop env (controllers cl) w cl"

definition NewSmartClient :: "'w Env \<Rightarrow> string list \<Rightarrow> 'w \<Rightarrow> 'w \<times> (client_error + SmartClient)" where
  "NewSmartClient env cs w =
     (if cs = [] then (w, Inl NoControllers)
      else (case FetchTopology env w \<lparr>cl_config = None, controllers = cs, maxRetries = 5\<rparr> of
              (w', cl, True) \<Rightarrow> (w', Inr cl)
            | (w', cl, False) \<Rightarrow> (w', Inl NoInitialTopology)))"

definition client_GetEpoch :: "SmartClient \<Rightarrow> uint64" where
  "client_GetEpoch cl = (case cl_config cl of None \<Rightarrow> 0 | Some cfg \<Rightarrow> Epoch cfg)"

definition Route :: "string \<Rightarrow> SmartClient \<Rightarrow> (route_error + RouteResult) option" where
  "Route key cl =
     (case cl_config cl of
        None \<Rightarrow> Some (Inl NoTopology)
      | Some cfg \<Rightarrow>
          if TotalShards cfg = 0 then Some (Inl NoShards)
          else do {
            shardID \<leftarrow> key_shard_id key (TotalShards cfg);
            Some (case Shards cfg shardID of
                    None \<Rightarrow> Inl (ShardMissing shardID)
                  | Some shard \<Rightarrow>
                      (case Nodes cfg (PrimaryID shard) of
                         None \<Rightarrow> Inl (PrimaryMissing (PrimaryID shard))
                       | Some node \<Rightarrow> Inr \<lparr>TargetURL = ''http://'' @ Address node, route_Epoch = Epoch cfg, route_ShardID = shardID\<rparr>))
          })"

section \<open>Writing\<close>

text \<open>The argument of the loops is the number of attempts left. Durations are nanoseconds.\<close>

fun put_loop :: "'w Env \<Rightarrow> string \<Rightarrow> string \<Rightarrow> nat \<Rightarrow> 'w \<Rightarrow> SmartClient \<Rightarrow> ('w \<times> SmartClient \<times> client_error option) option" where
  "put_loop env key val 0 w cl = Some (w, cl, Some MaxRetriesExceeded)"
| "put_loop env key val (Suc n) w cl =
     (let refresh = (\<lambda>w. case FetchTopology env w cl of (w', cl', _) \<Rightarrow> put_loop env key val n w' cl')
      in do {
        route \<leftarrow> Route key cl;
        (case route of
           Inl _ \<Rightarrow> refresh w
         | Inr r \<Rightarrow>
             (case env_put env (TargetURL r) \<lparr>w_Key = key, w_Value = val, w_Epoch = route_Epoch r\<rparr> w of
                (w', None) \<Rightarrow> refresh w'
              | (w', Some status) \<Rightarrow>
                  if status = StatusOK then Some (w', cl, None)
                  else if status = StatusBadRequest \<or> status = StatusPreconditionFailed then refresh w'
                  else if status = StatusLocked then refresh (env_sleep env 100000000 w')
                  else if status = StatusServiceUnavailable then refresh (env_sleep env 200000000 w')
                  else if status = StatusInternalServerError then put_loop env key val n (env_sleep env 100000000 w') cl
                  else Some (w', cl, Some (UnexpectedStatus status))))
      })"

definition client_Put :: "'w Env \<Rightarrow> string \<Rightarrow> string \<Rightarrow> 'w \<Rightarrow> SmartClient \<Rightarrow> ('w \<times> SmartClient \<times> client_error option) option" where
  "client_Put env key val w cl = put_loop env key val (nat (maxRetries cl)) w cl"

fun delete_loop :: "'w Env \<Rightarrow> string \<Rightarrow> nat \<Rightarrow> 'w \<Rightarrow> SmartClient \<Rightarrow> ('w \<times> SmartClient \<times> client_error option) option" where
  "delete_loop env key 0 w cl = Some (w, cl, Some MaxRetriesExceeded)"
| "delete_loop env key (Suc n) w cl =
     (let refresh = (\<lambda>w. case FetchTopology env w cl of (w', cl', _) \<Rightarrow> delete_loop env key n w' cl')
      in do {
        route \<leftarrow> Route key cl;
        (case route of
           Inl _ \<Rightarrow> refresh w
         | Inr r \<Rightarrow>
             (case env_delete env (TargetURL r) \<lparr>d_Key = key, d_Epoch = route_Epoch r\<rparr> w of
                (w', None) \<Rightarrow> refresh w'
              | (w', Some status) \<Rightarrow>
                  if status = StatusOK then Some (w', cl, None)
                  else if status = StatusPreconditionFailed then refresh w'
                  else if status = StatusLocked then refresh (env_sleep env 100000000 w')
                  else if status = StatusServiceUnavailable then delete_loop env key n (env_sleep env 200000000 w') cl
                  else if status = StatusInternalServerError then delete_loop env key n (env_sleep env 100000000 w') cl
                  else Some (w', cl, Some (UnexpectedStatus status))))
      })"

definition client_Delete :: "'w Env \<Rightarrow> string \<Rightarrow> 'w \<Rightarrow> SmartClient \<Rightarrow> ('w \<times> SmartClient \<times> client_error option) option" where
  "client_Delete env key w cl = delete_loop env key (nat (maxRetries cl)) w cl"

section \<open>Reading\<close>

text \<open>
  \<open>Get\<close> appends the key to the URL as it is. What arrives goes through \<open>url.Parse\<close>, the request line, and \<open>url.ParseQuery\<close>:
  control bytes make the URL invalid, a fragment is cut off, a blank breaks the request line, pairs
  are separated by ampersands and a pair with a semicolon or a bad escape is dropped.
\<close>

definition is_ctl :: "char \<Rightarrow> bool" where
  "is_ctl c \<longleftrightarrow> (of_char c :: nat) < 32 \<or> (of_char c :: nat) = 127"

definition is_hex :: "char \<Rightarrow> bool" where
  "is_hex c \<longleftrightarrow> c \<in> set ''0123456789abcdefABCDEF''"

definition unhex :: "char \<Rightarrow> nat" where
  "unhex c = (let n = of_char c in if n < 58 then n - 48 else if n < 71 then n - 55 else n - 87)"

fun query_unescape :: "string \<Rightarrow> string option" where
  "query_unescape [] = Some []"
| "query_unescape (c # cs) =
     (if c = CHR ''%'' then
        (case cs of
           a # b # rest \<Rightarrow> if is_hex a \<and> is_hex b then map_option (Cons (char_of (16 * unhex a + unhex b))) (query_unescape rest) else None
         | _ \<Rightarrow> None)
      else if c = CHR ''+'' then map_option (Cons (CHR '' '')) (query_unescape cs)
      else map_option (Cons c) (query_unescape cs))"

fun query_get :: "string \<Rightarrow> string list \<Rightarrow> string" where
  "query_get param [] = []"
| "query_get param (pair # pairs) =
     (if pair = [] \<or> CHR '';'' \<in> set pair then query_get param pairs
      else (case go_cut (CHR ''='') pair of (k, v) \<Rightarrow>
              (case (query_unescape k, query_unescape v) of
                 (Some k', Some v') \<Rightarrow> if k' = param then v' else query_get param pairs
               | _ \<Rightarrow> query_get param pairs)))"

datatype url_key = InvalidURL | MalformedRequest | KeyParam string

definition sent_key :: "string \<Rightarrow> url_key" where
  "sent_key key =
     (case go_cut (CHR ''#'') key of (raw, frag) \<Rightarrow>
        if list_ex is_ctl raw \<or> query_unescape frag = None then InvalidURL
        else if CHR '' '' \<in> set raw then MalformedRequest
        else KeyParam (query_get ''key'' (go_split (CHR ''&'') (''key='' @ raw))))"

definition send_get :: "'w Env \<Rightarrow> string \<Rightarrow> string \<Rightarrow> 'w \<Rightarrow> 'w \<times> (http_status \<times> string) option" where
  "send_get env url key w =
     (case sent_key key of
        InvalidURL \<Rightarrow> (w, None)
      | MalformedRequest \<Rightarrow> env_get env url None w
      | KeyParam k \<Rightarrow> env_get env url (Some k) w)"

fun get_loop :: "'w Env \<Rightarrow> string \<Rightarrow> nat \<Rightarrow> 'w \<Rightarrow> SmartClient \<Rightarrow> ('w \<times> SmartClient \<times> (client_error + string)) option" where
  "get_loop env key 0 w cl = Some (w, cl, Inl MaxRetriesExceeded)"
| "get_loop env key (Suc n) w cl =
     (let refresh = (\<lambda>w. case FetchTopology env w cl of (w', cl', _) \<Rightarrow> get_loop env key n w' cl')
      in do {
        route \<leftarrow> Route key cl;
        (case route of
           Inl _ \<Rightarrow> refresh w
         | Inr r \<Rightarrow>
             (case send_get env (TargetURL r) key w of
                (w', None) \<Rightarrow> refresh w'
              | (w', Some (status, body)) \<Rightarrow>
                  if status = StatusOK then Some (w', cl, Inr body)
                  else if status = StatusNotFound then Some (w', cl, Inl KeyNotFound)
                  else if status = StatusLocked then refresh (env_sleep env 100000000 w')
                  else if status = StatusServiceUnavailable then get_loop env key n (env_sleep env 200000000 w') cl
                  else Some (w', cl, Inl (UnexpectedStatus status))))
      })"

definition client_Get :: "'w Env \<Rightarrow> string \<Rightarrow> 'w \<Rightarrow> SmartClient \<Rightarrow> ('w \<times> SmartClient \<times> (client_error + string)) option" where
  "client_Get env key w cl = get_loop env key (nat (maxRetries cl)) w cl"

section \<open>The loops always answer\<close>

lemma Route_total: "\<exists>r. Route key cl = Some r"
proof (cases "cl_config cl")
  case (Some cfg)
  have "TotalShards cfg \<noteq> 0 \<Longrightarrow> key_shard_id key (TotalShards cfg) \<noteq> None"
    by (simp add: key_shard_id_def go_rem_def)
  then show ?thesis using Some
    by (cases "TotalShards cfg = 0"; cases "key_shard_id key (TotalShards cfg)") (auto simp: Route_def)
qed (simp add: Route_def)

lemma fetch_loop_keeps: "fetch_loop env cs w cl = (w', cl', b) \<Longrightarrow> controllers cl' = controllers cl \<and> maxRetries cl' = maxRetries cl"
  by (induction cs arbitrary: w) (auto split: prod.splits option.splits if_splits)

lemma FetchTopology_keeps:
  "FetchTopology env w cl = (w', cl', b) \<Longrightarrow> controllers cl' = controllers cl \<and> maxRetries cl' = maxRetries cl"
  unfolding FetchTopology_def by (rule fetch_loop_keeps)

text \<open>
  Counting requests: the environment of \<open>counted\<close> also counts the writes it is asked for.
\<close>

definition counted :: "'w Env \<Rightarrow> ('w \<times> nat) Env" where
  "counted env =
     \<lparr>env_topology = (\<lambda>url (w, k). case env_topology env url w of (w', r) \<Rightarrow> ((w', k), r)),
      env_put = (\<lambda>url req (w, k). case env_put env url req w of (w', r) \<Rightarrow> ((w', Suc k), r)),
      env_get = (\<lambda>url key (w, k). case env_get env url key w of (w', r) \<Rightarrow> ((w', k), r)),
      env_delete = (\<lambda>url req (w, k). case env_delete env url req w of (w', r) \<Rightarrow> ((w', k), r)),
      env_sleep = (\<lambda>d (w, k). (env_sleep env d w, k))\<rparr>"

lemma counted_fetch: "FetchTopology (counted env) (w, k) cl = ((w', k'), cl', b) \<Longrightarrow> k' = k"
proof -
  have "fetch_loop (counted env) cs (w, k) cl = ((w', k'), cl', b) \<Longrightarrow> k' = k" for cs
    by (induction cs arbitrary: w) (auto simp: counted_def split: prod.splits option.splits if_splits)
  then show "FetchTopology (counted env) (w, k) cl = ((w', k'), cl', b) \<Longrightarrow> k' = k" by (simp add: FetchTopology_def)
qed

lemma counted_put_loop:
  "\<exists>w' k' cl' r. put_loop (counted env) key val n (w, k) cl = Some ((w', k'), cl', r) \<and> k' \<le> k + n"
proof (induction n arbitrary: w k cl)
  case (Suc n)
  have go: "\<exists>w' k' cl' r. put_loop (counted env) key val n wk cl = Some ((w', k'), cl', r) \<and> k' \<le> k + Suc n"
    if "snd wk \<le> Suc k" for wk cl
  proof -
    obtain w1 k1 where wk: "wk = (w1, k1)" by fastforce
    with Suc.IH [of w1 k1 cl] that show ?thesis by fastforce
  qed
  have refresh: "\<exists>w' k' cl' r. (case FetchTopology (counted env) wk cl of (w', cl', _) \<Rightarrow> put_loop (counted env) key val n w' cl') =
      Some ((w', k'), cl', r) \<and> k' \<le> k + Suc n" if "snd wk \<le> Suc k" for wk
  proof -
    obtain w1 k1 where wk: "wk = (w1, k1)" by fastforce
    obtain wk2 cl2 b where f: "FetchTopology (counted env) wk cl = (wk2, cl2, b)" by (metis prod_cases3)
    then have "snd wk2 = k1" using counted_fetch [of env w1 k1 cl "fst wk2" "snd wk2"] by (simp add: wk)
    then show ?thesis using go [of wk2 cl2] that f by (simp add: wk)
  qed
  obtain route where route: "Route key cl = Some route" using Route_total by blast
  show ?case
  proof (cases route)
    case (Inl e)
    then show ?thesis using route refresh [of "(w, k)"] by simp
  next
    case (Inr r)
    obtain w1 ans where e: "env_put env (TargetURL r) \<lparr>w_Key = key, w_Value = val, w_Epoch = route_Epoch r\<rparr> w = (w1, ans)"
      by fastforce
    have sl: "env_sleep (counted env) d (w1, Suc k) = (env_sleep env d w1, Suc k)" for d by (simp add: counted_def)
    have p: "env_put (counted env) (TargetURL r) \<lparr>w_Key = key, w_Value = val, w_Epoch = route_Epoch r\<rparr> (w, k) = ((w1, Suc k), ans)"
      using e by (simp add: counted_def)
    show ?thesis
      using route Inr p refresh [of "(w1, Suc k)"] refresh [of "(env_sleep env 100000000 w1, Suc k)"]
        refresh [of "(env_sleep env 200000000 w1, Suc k)"] go [of "(env_sleep env 100000000 w1, Suc k)" cl]
      by (cases ans) (simp_all add: sl)
  qed
qed simp

section \<open>Keys in URLs\<close>

text \<open>Bytes that stand for themselves in a query.\<close>

definition plain_key :: "string \<Rightarrow> bool" where
  "plain_key key \<longleftrightarrow> list_all (\<lambda>c. \<not> is_ctl c \<and> c \<notin> set '' #&+;%'') key"

lemma query_unescape_plain: "CHR ''%'' \<notin> set s \<Longrightarrow> CHR ''+'' \<notin> set s \<Longrightarrow> query_unescape s = Some s"
  by (induction s) auto

lemma plain_key_bytes:
  assumes "plain_key key"
  shows "CHR ''#'' \<notin> set key" "CHR ''&'' \<notin> set key" "CHR ''+'' \<notin> set key" "CHR '';'' \<notin> set key" "CHR ''%'' \<notin> set key"
    "CHR '' '' \<notin> set key" "\<not> list_ex is_ctl key"
  using assms by (auto simp: plain_key_def list_all_iff list_ex_iff)

lemma sent_key_plain:
  assumes "plain_key key"
  shows "sent_key key = KeyParam key"
proof -
  note b = plain_key_bytes [OF assms]
  have split: "go_split (CHR ''&'') (''key='' @ key) = [''key='' @ key]" using b by (intro go_split_no_sep) auto
  have cut: "go_cut (CHR ''='') (''key='' @ key) = (''key'', key)"
    using go_cut_append [of "CHR ''=''" "''key''" key] by simp
  have "query_get ''key'' [''key='' @ key] = key"
    using b cut query_unescape_plain [of key] query_unescape_plain [of "''key''"] by simp
  with b split show ?thesis by (simp add: sent_key_def go_cut_no_sep)
qed

section \<open>A service that does not change under the client\<close>

text \<open>
  What the client relies on when the cluster is stable: every controller it knows answers with the current topology
  \<open>cfg\<close>, that topology routes every key, a write routed by it is answered with 200 and recorded, and a write that
  was routed by an older topology is either recorded as well or refused without effect. \<open>inv cfg\<close> holds of
  the stable states, and \<open>recorded\<close> is the state after a write.
\<close>

locale stable_service =
  fixes env :: "'w Env"
    and inv :: "ClusterConfig \<Rightarrow> string list \<Rightarrow> 'w \<Rightarrow> bool"
    and recorded :: "ClusterConfig \<Rightarrow> string \<Rightarrow> string \<Rightarrow> 'w \<Rightarrow> 'w"
  assumes topology: "inv cfg cs w \<Longrightarrow> c \<in> set cs \<Longrightarrow> env_topology env c w = (w, Some (StatusOK, Some cfg))"
    and some_controller: "inv cfg cs w \<Longrightarrow> cs \<noteq> []"
    and routes: "inv cfg cs w \<Longrightarrow> cl_config cl = Some cfg \<Longrightarrow> \<exists>r. Route key cl = Some (Inr r)"
    and put_current: "inv cfg cs w \<Longrightarrow> cl_config cl = Some cfg \<Longrightarrow> Route key cl = Some (Inr r) \<Longrightarrow>
      env_put env (TargetURL r) \<lparr>w_Key = key, w_Value = val, w_Epoch = route_Epoch r\<rparr> w = (recorded cfg key val w, Some StatusOK)"
    and put_old: "inv cfg cs w \<Longrightarrow> epoch < Epoch cfg \<Longrightarrow>
      \<exists>ans. env_put env url \<lparr>w_Key = key, w_Value = val, w_Epoch = epoch\<rparr> w = (w, ans) \<and>
        ans \<in> {None, Some StatusPreconditionFailed}"
    and inv_recorded: "inv cfg cs w \<Longrightarrow> inv cfg cs (recorded cfg key val w)"
    and get_current: "inv cfg cs w \<Longrightarrow> cl_config cl = Some cfg \<Longrightarrow> Route key cl = Some (Inr r) \<Longrightarrow> key \<noteq> [] \<Longrightarrow> val \<noteq> [] \<Longrightarrow>
      env_get env (TargetURL r) (Some key) (recorded cfg key val w) = (recorded cfg key val w, Some (StatusOK, val))"
begin

lemma fetch: "inv cfg (controllers cl) w \<Longrightarrow> FetchTopology env w cl = (w, cl\<lparr>cl_config := Some cfg\<rparr>, True)"
  using topology [of cfg "controllers cl" w] some_controller [of cfg "controllers cl" w]
  by (cases "controllers cl") (simp_all add: FetchTopology_def)

lemma put_with_current:
  assumes "inv cfg (controllers cl) w" and "cl_config cl = Some cfg"
  shows "put_loop env key val (Suc n) w cl = Some (recorded cfg key val w, cl, None)"
proof -
  from routes [OF assms] obtain r where r: "Route key cl = Some (Inr r)" by blast
  with put_current [OF assms r] show ?thesis by simp
qed

text \<open>The client's topology is missing, current or older, and two attempts are enough.\<close>

lemma put_succeeds:
  assumes "inv cfg (controllers cl) w" and "2 \<le> n"
    and "cl_config cl = None \<or> cl_config cl = Some cfg \<or> (\<exists>old. cl_config cl = Some old \<and> Epoch old < Epoch cfg)"
  shows "put_loop env key val n w cl = Some (recorded cfg key val w, cl\<lparr>cl_config := Some cfg\<rparr>, None)"
proof -
  obtain m where n: "n = Suc (Suc m)" using assms(2) by (metis Suc_le_D Suc_le_mono numeral_2_eq_2)
  have refreshed: "(case FetchTopology env w cl of (w', cl', _) \<Rightarrow> put_loop env key val (Suc m) w' cl') =
      Some (recorded cfg key val w, cl\<lparr>cl_config := Some cfg\<rparr>, None)"
    using fetch [OF assms(1)] put_with_current [of cfg "cl\<lparr>cl_config := Some cfg\<rparr>" w key val m] assms(1) by simp
  obtain route where route: "Route key cl = Some route" using Route_total by blast
  show ?thesis
  proof (cases "cl_config cl = Some cfg")
    case True
    then show ?thesis using put_with_current [OF assms(1) True, of key val "Suc m"] by (simp add: n)
  next
    case False
    show ?thesis
    proof (cases route)
      case (Inl e)
      then show ?thesis using route refreshed unfolding n by (simp only: put_loop.simps Let_def bind.bind_lunit sum.case)
    next
      case (Inr r)
      with route False assms(3) have "route_Epoch r < Epoch cfg"
        by (auto simp: Route_def split: option.splits if_splits bind_splits)
      from put_old [OF assms(1) this] obtain ans where
        "env_put env (TargetURL r) \<lparr>w_Key = key, w_Value = val, w_Epoch = route_Epoch r\<rparr> w = (w, ans)"
        "ans \<in> {None, Some StatusPreconditionFailed}" by blast
      with route Inr refreshed show ?thesis unfolding n put_loop.simps(2) [of _ _ _ "Suc m"] Let_def by auto
    qed
  qed
qed

lemma get_after_put:
  assumes "inv cfg (controllers cl) w" and "cl_config cl = Some cfg" and "plain_key key" and "key \<noteq> []" and "val \<noteq> []" and "0 < n"
  shows "get_loop env key n (recorded cfg key val w) cl = Some (recorded cfg key val w, cl, Inr val)"
proof -
  obtain m where n: "n = Suc m" using assms(6) by (cases n) auto
  from routes [OF assms(1,2)] obtain r where r: "Route key cl = Some (Inr r)" by blast
  show ?thesis
    using r get_current [OF assms(1,2) r assms(4,5)] sent_key_plain [OF assms(3)] by (simp add: n send_get_def)
qed

end

section \<open>Properties\<close>

text \<open>\<open>Put\<close> always comes to an end: whatever the controllers and nodes answer, and whatever happens meanwhile, it
  returns without a panic after at most \<open>maxRetries\<close> write requests.\<close>
theorem client_put_bounded:
  "\<exists>w' k cl' r. client_Put (counted env) key val (w, 0) cl = Some ((w', k), cl', r) \<and> k \<le> nat (maxRetries cl)"
  using counted_put_loop [of env key val "nat (maxRetries cl)" w 0 cl] by (simp add: client_Put_def)

text \<open>\<open>Get\<close> puts the key into the URL as it is. A key without reserved bytes arrives at the node unchanged; other keys do not:
  a plus sign arrives as a blank, what follows an ampersand or a number sign is cut off, and with a
  semicolon or a lone percent sign the node sees no key at all.\<close>
theorem get_key_in_url:
  "(\<forall>key. plain_key key \<longrightarrow> sent_key key = KeyParam key) \<and>
   sent_key ''a+b'' = KeyParam ''a b'' \<and> sent_key ''a&b'' = KeyParam ''a'' \<and> sent_key ''a#b'' = KeyParam ''a'' \<and>
   sent_key ''a;b'' = KeyParam [] \<and> sent_key ''100%'' = KeyParam [] \<and> sent_key ''a b'' = MalformedRequest"
proof -
  have "sent_key ''a+b'' = KeyParam ''a b''" "sent_key ''a&b'' = KeyParam ''a''" "sent_key ''a#b'' = KeyParam ''a''"
    "sent_key ''a;b'' = KeyParam []" "sent_key ''100%'' = KeyParam []" "sent_key ''a b'' = MalformedRequest"
    by (simp_all add: sent_key_def go_cut_def is_ctl_def)
  then show ?thesis using sent_key_plain by blast
qed

theorem get_key_in_url_witness: "sent_key ''user-42'' = KeyParam ''user-42''"
proof -
  have "plain_key ''user-42''" by (simp add: plain_key_def is_ctl_def)
  with get_key_in_url show ?thesis by blast
qed

end
