(* ===== verification/Services.thy ===== *)
theory Services
  imports Controller Client
begin

text \<open>
  The executables: the HTTP services of \<open>cmd/datanode\<close> and \<open>cmd/controller\<close>, the registration loop, the renewal of a
  lease as a conversation between a node and the controller, and the command line client of \<open>cmd/raftcli\<close>. Together with the data nodes
  they are the environment of the smart client.

  A request is its method, its path, its query parameters and what each handler's decoder makes of its body. Paths are matched
  exactly; \<open>http.ServeMux\<close> answers 404 to the others.
\<close>

section \<open>Requests\<close>

record Request =
  rq_Method :: string
  rq_Path :: string
  rq_Query :: "string \<Rightarrow> string"
  rq_Write :: "WriteRequest option"
  rq_Delete :: "DeleteRequest option"
  rq_Import :: "kv option"
  rq_Node :: "(string \<times> string) option"
  rq_Config :: "ClusterConfig option"

datatype response = NoBody | TextBody string | DataBody kv | EpochBody uint64 | TopologyBody ClusterConfig

definition request :: "string \<Rightarrow> string \<Rightarrow> Request" where
  "request method path = \<lparr>rq_Method = method, rq_Path = path, rq_Query = (\<lambda>_. []), rq_Write = None, rq_Delete = None,
     rq_Import = None, rq_Node = None, rq_Config = None\<rparr>"

section \<open>The data node's service\<close>

definition on_node :: "string \<Rightarrow> (Server \<Rightarrow> Server \<times> http_status) \<Rightarrow> nodes \<Rightarrow> (nodes \<times> http_status) option" where
  "on_node u handler ns = do { s \<leftarrow> ns u; (case handler s of (s', status) \<Rightarrow> Some (ns(u \<mapsto> s'), status)) }"

definition no_body :: "(nodes \<times> http_status) option \<Rightarrow> (nodes \<times> http_status \<times> response) option" where
  "no_body r = map_option (\<lambda>(ns, status). (ns, status, NoBody)) r"

definition datanode_mux :: "go_time \<Rightarrow> (string \<Rightarrow> delivery) \<Rightarrow> string list \<Rightarrow> string list \<Rightarrow> string \<Rightarrow> Request \<Rightarrow> nodes \<Rightarrow>
    (nodes \<times> http_status \<times> response) option" where
  "datanode_mux now net ks ks' u rq ns =
     (let notAllowed = Some (ns, StatusMethodNotAllowed, NoBody);
          post = rq_Method rq = ''POST''
      in if rq_Path rq = ''/health'' then Some (ns, StatusOK, TextBody ''OK'')
         else if rq_Path rq = ''/data'' then
           (if post \<or> rq_Method rq = ''PUT'' then no_body (HandlePut now net u (rq_Write rq) ns)
            else if rq_Method rq = ''GET'' then
              do { s \<leftarrow> ns u; (case HandleGet now (rq_Query rq ''key'') s of (status, body) \<Rightarrow> Some (ns, status, TextBody body)) }
            else if rq_Method rq = ''DELETE'' then no_body (HandleDelete now net u (rq_Delete rq) ns)
            else notAllowed)
         else if rq_Path rq = ''/internal/replicate'' then
           (if post then no_body (on_node u (HandleReplicate (rq_Write rq)) ns) else notAllowed)
         else if rq_Path rq = ''/internal/replicate-delete'' then
           (if post then no_body (on_node u (HandleDeleteReplicate (rq_Delete rq)) ns) else notAllowed)
         else if rq_Path rq = ''/internal/export'' then
           (if rq_Method rq = ''GET'' then
              do { s \<leftarrow> ns u; (status, data) \<leftarrow> HandleExport ks (rq_Query rq ''shard'') s; Some (ns, status, DataBody data) }
            else notAllowed)
         else if rq_Path rq = ''/internal/import'' then
           (if post then no_body (on_node u (HandleImport ks' (rq_Import rq)) ns) else notAllowed)
         else if rq_Path rq = ''/internal/pull'' then
           (if post then no_body (HandlePull net ks ks' u (rq_Query rq ''source'') (rq_Query rq ''shard'') ns) else notAllowed)
         else Some (ns, StatusNotFound, NoBody))"

section \<open>The controller's service\<close>

text \<open>\<open>outcome\<close> is what \<open>BroadcastSync\<close> yields for the command of the request, if there is one.\<close>

definition controller_mux :: "go_time \<Rightarrow> bool \<times> int \<times> string option \<Rightarrow> Request \<Rightarrow> Controller \<Rightarrow> Controller \<times> http_status \<times> response" where
  "controller_mux now outcome rq c =
     (if rq_Path rq = ''/cluster/heartbeat'' then
        (if rq_Method rq \<noteq> ''POST'' then (c, StatusMethodNotAllowed, NoBody)
         else (case rq_Node rq of
                 None \<Rightarrow> (c, StatusBadRequest, NoBody)
               | Some (node, _) \<Rightarrow> (Heartbeat now node c, StatusOK, EpochBody (Epoch (c_config c)))))
      else if rq_Path rq = ''/cluster/register'' then
        (if rq_Method rq \<noteq> ''POST'' then (c, StatusMethodNotAllowed, NoBody)
         else (case rq_Node rq of
                 None \<Rightarrow> (c, StatusBadRequest, NoBody)
               | Some (node, address) \<Rightarrow>
                   if node = [] \<or> address = [] then (c, StatusBadRequest, NoBody)
                   else if RegisterNode (\<lambda>_. outcome) node address \<noteq> None then (c, StatusInternalServerError, NoBody)
                   else (c, StatusOK, NoBody)))
      else if rq_Path rq = ''/topology'' then (c, StatusOK, TopologyBody (c_config c))
      else if rq_Path rq = ''/debug/config'' then
        (if rq_Method rq \<noteq> ''POST'' then (c, StatusMethodNotAllowed, NoBody)
         else (case rq_Config rq of
                 None \<Rightarrow> (c, StatusBadRequest, NoBody)
               | Some cfg \<Rightarrow> (SetTopology cfg c, StatusOK, NoBody)))
      else if rq_Path rq = ''/debug/raft_noop'' then
        (c, if NoOp (\<lambda>_. outcome) \<noteq> None then StatusInternalServerError else StatusOK, NoBody)
      else (c, StatusNotFound, NoBody))"

text \<open>The command that a request hands to Raft before it answers.\<close>

definition controller_command :: "Request \<Rightarrow> Command option Message option" where
  "controller_command rq =
     (if rq_Path rq = ''/cluster/register'' \<and> rq_Method rq = ''POST'' then
        (case rq_Node rq of
           Some (node, address) \<Rightarrow> if node = [] \<or> address = [] then None else Some (RegisterNode_message node address)
         | None \<Rightarrow> None)
      else if rq_Path rq = ''/debug/raft_noop'' then Some NoOp_message
      else None)"

section \<open>A cluster with its controllers\<close>

record World =
  clock :: go_time
  w_nodes :: nodes
  w_controllers :: "string \<rightharpoonup> Controller"

text \<open>A request to the controller at a URL, and one to a data node. \<open>outcome\<close> and the key orders are those of the mux.\<close>

definition ask_controller :: "(string \<Rightarrow> delivery) \<Rightarrow> bool \<times> int \<times> string option \<Rightarrow> string \<Rightarrow> Request \<Rightarrow> World \<Rightarrow> World \<times> (http_status \<times> response) option" where
  "ask_controller net outcome url rq w =
     (if net url = RequestLost then (w, None)
      else (case w_controllers w url of
              None \<Rightarrow> (w, None)
            | Some c \<Rightarrow> (case controller_mux (clock w) outcome rq c of (c', status, body) \<Rightarrow>
                (w\<lparr>w_controllers := (w_controllers w)(url \<mapsto> c')\<rparr>,
                 if net url = Delivered then Some (status, body) else None))))"

definition ask_node :: "(string \<Rightarrow> delivery) \<Rightarrow> string list \<Rightarrow> string list \<Rightarrow> string \<Rightarrow> Request \<Rightarrow> World \<Rightarrow> World \<times> (http_status \<times> response) option" where
  "ask_node net ks ks' url rq w =
     (if net url = RequestLost \<or> w_nodes w url = None then (w, None)
      else (case datanode_mux (clock w) net ks ks' url rq (w_nodes w) of
              None \<Rightarrow> (w, None)
            | Some (ns, status, body) \<Rightarrow>
                (w\<lparr>w_nodes := ns\<rparr>, if net url = Delivered then Some (status, body) else None)))"

definition topology_of :: "response \<Rightarrow> ClusterConfig option" where
  "topology_of r = (case r of TopologyBody cfg \<Rightarrow> Some cfg | _ \<Rightarrow> None)"

definition text_of :: "response \<Rightarrow> string" where
  "text_of r = (case r of TextBody s \<Rightarrow> s | _ \<Rightarrow> [])"

text \<open>The smart client's environment when nothing else happens: requests go to the services, sleeping moves the clock.\<close>

definition cluster_env :: "(string \<Rightarrow> delivery) \<Rightarrow> World Env" where
  "cluster_env net =
     \<lparr>env_topology = (\<lambda>url w. case ask_controller net (True, 0, None) url (request ''GET'' ''/topology'') w of
        (w', r) \<Rightarrow> (w', map_option (\<lambda>(status, body). (status, topology_of body)) r)),
      env_put = (\<lambda>url req w. case ask_node net [] [] url ((request ''POST'' ''/data'')\<lparr>rq_Write := Some req\<rparr>) w of
        (w', r) \<Rightarrow> (w', map_option fst r)),
      env_get = (\<lambda>url key w. case key of
        None \<Rightarrow> (w, if net url = Delivered \<and> w_nodes w url \<noteq> None then Some (StatusBadRequest, []) else None)
      | Some k \<Rightarrow> (case ask_node net [] [] url ((request ''GET'' ''/data'')\<lparr>rq_Query := (\<lambda>p. if p = ''key'' then k else [])\<rparr>) w of
          (w', r) \<Rightarrow> (w', map_option (\<lambda>(status, body). (status, text_of body)) r))),
      env_delete = (\<lambda>url req w. case ask_node net [] [] url ((request ''DELETE'' ''/data'')\<lparr>rq_Delete := Some req\<rparr>) w of
        (w', r) \<Rightarrow> (w', map_option fst r)),
      env_sleep = (\<lambda>d w. w\<lparr>clock := clock w + d\<rparr>)\<rparr>"

text \<open>
  One renewal of the lease of the node at \<open>u\<close>: the heartbeat, the topology if the controller's epoch is newer, and the
  extension of the lease. A \<open>GET\<close> of the topology has no effect on the controller.
\<close>

definition epoch_of :: "response \<Rightarrow> uint64 option" where
  "epoch_of r = (case r of EpochBody e \<Rightarrow> Some e | _ \<Rightarrow> None)"

definition node_renew :: "(string \<Rightarrow> delivery) \<Rightarrow> string \<Rightarrow> string \<Rightarrow> World \<Rightarrow> World" where
  "node_renew net controllerURL u w =
     (case w_nodes w u of
        None \<Rightarrow> w
      | Some s \<Rightarrow>
          (case ask_controller net (True, 0, None) controllerURL
                  ((request ''POST'' ''/cluster/heartbeat'')\<lparr>rq_Node := Some (lease_nodeID (lease s), [])\<rparr>) w of
             (w1, heartbeat) \<Rightarrow>
               let topo = snd (ask_controller net (True, 0, None) controllerURL (request ''GET'' ''/topology'') w1);
                   s' = lease_tick (clock w1) (map_option (\<lambda>(status, body). (status, epoch_of body)) heartbeat)
                          (map_option (\<lambda>(status, body). (status, topology_of body)) topo) s
               in w1\<lparr>w_nodes := (w_nodes w1)(u \<mapsto> s')\<rparr>))"

text \<open>
  \<open>registerWithController\<close> repeats its request until it is answered with 200. Over the answers it gets, in order, the number of
  requests it makes; \<^term>\<open>None\<close> when it is still trying after the last of them.
\<close>

fun register_loop :: "http_status option list \<Rightarrow> nat option" where
  "register_loop [] = None"
| "register_loop (answer # answers) =
     (if answer = Some StatusOK then Some 1 else map_option Suc (register_loop answers))"

section \<open>The command line client\<close>

text \<open>Lines are ASCII. Blanks separate the fields of a line.\<close>

definition is_space :: "char \<Rightarrow> bool" where
  "is_space c \<longleftrightarrow> c = CHR '' '' \<or> (9 \<le> (of_char c :: nat) \<and> (of_char c :: nat) \<le> 13)"

function go_fields :: "string \<Rightarrow> string list" where
  "go_fields s =
     (case dropWhile is_space s of
        [] \<Rightarrow> []
      | c # cs \<Rightarrow> (c # takeWhile (\<lambda>x. \<not> is_space x) cs) # go_fields (dropWhile (\<lambda>x. \<not> is_space x) cs))"
  by pat_completeness auto

termination
proof (relation "measure length", goal_cases)
  case (2 s c cs)
  have "length (dropWhile (\<lambda>x. \<not> is_space x) cs) \<le> length cs" by (rule length_dropWhile_le)
  also have "\<dots> < length (dropWhile is_space s)" using 2 by simp
  also have "\<dots> \<le> length s" by (rule length_dropWhile_le)
  finally show ?case by simp
qed simp

declare go_fields.simps [simp del]

datatype cli_error = Usage | CommandFailed client_error | InvalidCount | UnknownCommand string

datatype cli_result = CliOk | CliValue string | CliHelp | CliExit | CliError cli_error

definition cli_put :: "'w Env \<Rightarrow> string list \<Rightarrow> 'w \<Rightarrow> SmartClient \<Rightarrow> ('w \<times> SmartClient \<times> cli_result) option" where
  "cli_put env args w cl =
     (case args of
        [key, val] \<Rightarrow> do {
          (w', cl', err) \<leftarrow> client_Put env key val w cl;
          Some (w', cl', case err of None \<Rightarrow> CliOk | Some e \<Rightarrow> CliError (CommandFailed e))
        }
      | _ \<Rightarrow> Some (w, cl, CliError Usage))"

definition cli_get :: "'w Env \<Rightarrow> string list \<Rightarrow> 'w \<Rightarrow> SmartClient \<Rightarrow> ('w \<times> SmartClient \<times> cli_result) option" where
  "cli_get env args w cl =
     (case args of
        key # _ \<Rightarrow> do {
          (w', cl', r) \<leftarrow> client_Get env key w cl;
          Some (w', cl', case r of Inr val \<Rightarrow> CliValue val | Inl e \<Rightarrow> CliError (CommandFailed e))
        }
      | [] \<Rightarrow> Some (w, cl, CliError Usage))"

definition cli_delete :: "'w Env \<Rightarrow> string list \<Rightarrow> 'w \<Rightarrow> SmartClient \<Rightarrow> ('w \<times> SmartClient \<times> cli_result) option" where
  "cli_delete env args w cl =
     (case args of
        key # _ \<Rightarrow> do {
          (w', cl', err) \<leftarrow> client_Delete env key w cl;
          Some (w', cl', case err of None \<Rightarrow> CliOk | Some e \<Rightarrow> CliError (CommandFailed e))
        }
      | [] \<Rightarrow> Some (w, cl, CliError Usage))"

text \<open>\<open>load\<close> puts \<open>count\<close> keys and goes on after a failure; the argument is the list of indices left.\<close>

fun load_loop :: "'w Env \<Rightarrow> int list \<Rightarrow> 'w \<Rightarrow> SmartClient \<Rightarrow> ('w \<times> SmartClient) option" where
  "load_loop env [] w cl = Some (w, cl)"
| "load_loop env (i # is) w cl = do {
     (w', cl', _) \<leftarrow> client_Put env (''key-'' @ itoa i) (''val-'' @ itoa i) w cl;
     load_loop env is w' cl'
   }"

definition cli_load :: "'w Env \<Rightarrow> string list \<Rightarrow> 'w \<Rightarrow> SmartClient \<Rightarrow> ('w \<times> SmartClient \<times> cli_result) option" where
  "cli_load env args w cl =
     (case args of
        [arg] \<Rightarrow>
          (case sscanf_d arg of
             None \<Rightarrow> Some (w, cl, CliError InvalidCount)
           | Some count \<Rightarrow> do {
               (w', cl') \<leftarrow> load_loop env [0..count - 1] w cl;
               Some (w', cl', CliOk)
             })
      | _ \<Rightarrow> Some (w, cl, CliError Usage))"

definition executeCommand :: "'w Env \<Rightarrow> string \<Rightarrow> 'w \<Rightarrow> SmartClient \<Rightarrow> ('w \<times> SmartClient \<times> cli_result) option" where
  "executeCommand env line w cl =
     (case go_fields line of
        [] \<Rightarrow> Some (w, cl, CliOk)
      | name # args \<Rightarrow>
          let cmd = to_lower name
          in if cmd = ''put'' then cli_put env args w cl
             else if cmd = ''get'' then cli_get env args w cl
             else if cmd = ''delete'' \<or> cmd = ''del'' then cli_delete env args w cl
             else if cmd = ''load'' then cli_load env args w cl
             else if cmd = ''help'' then Some (w, cl, CliHelp)
             else if cmd = ''exit'' \<or> cmd = ''quit'' then Some (w, cl, CliExit)
             else Some (w, cl, CliError (UnknownCommand cmd)))"

text \<open>\<open>Run\<close> reads lines until the input ends or a command exits, and goes on after an error.\<close>

fun cli_Run :: "'w Env \<Rightarrow> string list \<Rightarrow> 'w \<Rightarrow> SmartClient \<Rightarrow> ('w \<times> SmartClient) option" where
  "cli_Run env [] w cl = Some (w, cl)"
| "cli_Run env (line # lines) w cl = do {
     (w', cl', r) \<leftarrow> executeCommand env line w cl;
     if r = CliExit then Some (w', cl') else cli_Run env lines w' cl'
   }"

section \<open>The cluster as a stable service\<close>

text \<open>
  A cluster is stable at a topology when the controllers that the client knows and all nodes hold it, all leases are valid,
  every shard is unlocked, and its primary and replicas are there under their addresses.
\<close>

definition stable :: "ClusterConfig \<Rightarrow> string list \<Rightarrow> World \<Rightarrow> bool" where
  "stable cfg cs w \<longleftrightarrow> cs \<noteq> [] \<and> (\<forall>c \<in> set cs. \<exists>ctl. w_controllers w c = Some ctl \<and> c_config ctl = cfg) \<and>
     (\<forall>u s. w_nodes w u = Some s \<longrightarrow> config s = cfg \<and> IsActive (clock w) (lease s)) \<and> 0 < TotalShards cfg \<and>
     (\<forall>i. 0 \<le> i \<and> i < TotalShards cfg \<longrightarrow>
        (\<exists>shard node s. Shards cfg i = Some shard \<and> shard_Status shard \<noteq> ShardStatusLocked \<and> shard_Status shard \<noteq> ShardStatusMigrating \<and>
           Nodes cfg (PrimaryID shard) = Some node \<and> w_nodes w (''http://'' @ Address node) = Some s \<and> nodeID s = PrimaryID shard \<and>
           (\<forall>url \<in> set (replica_urls (Nodes cfg) (ReplicaIDs shard)). w_nodes w url \<noteq> None)))"

definition shard_urls :: "ClusterConfig \<Rightarrow> string \<Rightarrow> string set" where
  "shard_urls cfg key =
     (case Shards cfg (shard_of key (TotalShards cfg)) of
        None \<Rightarrow> {}
      | Some shard \<Rightarrow> set (replica_urls (Nodes cfg) (PrimaryID shard # ReplicaIDs shard)))"

definition recorded :: "ClusterConfig \<Rightarrow> string \<Rightarrow> string \<Rightarrow> World \<Rightarrow> World" where
  "recorded cfg key val w = w\<lparr>w_nodes := (\<lambda>u. if u \<in> shard_urls cfg key
     then map_option (put_on \<lparr>w_Key = key, w_Value = val, w_Epoch = Epoch cfg\<rparr>) (w_nodes w u) else w_nodes w u)\<rparr>"

text \<open>Requests of the smart client at a node that is there.\<close>

lemma env_put_node:
  assumes "w_nodes w url = Some s"
  shows "env_put (cluster_env (\<lambda>_. Delivered)) url req w =
    (case HandlePut (clock w) (\<lambda>_. Delivered) url (Some req) (w_nodes w) of
       None \<Rightarrow> (w, None) | Some (ns, status) \<Rightarrow> (w\<lparr>w_nodes := ns\<rparr>, Some status))"
  using assms by (simp add: cluster_env_def ask_node_def datanode_mux_def request_def no_body_def split: option.splits prod.splits)

lemma env_get_node:
  assumes "w_nodes w url = Some s"
  shows "env_get (cluster_env (\<lambda>_. Delivered)) url (Some key) w = (w, Some (HandleGet (clock w) key s))"
  using assms by (simp add: cluster_env_def ask_node_def datanode_mux_def request_def text_of_def split: prod.splits)

lemma env_topology_controller:
  assumes "w_controllers w url = Some c"
  shows "env_topology (cluster_env (\<lambda>_. Delivered)) url w = (w, Some (StatusOK, Some (c_config c)))"
  using assms by (simp add: cluster_env_def ask_controller_def controller_mux_def request_def topology_of_def fun_upd_idem)

text \<open>What a stable cluster has for the shard of a key.\<close>

lemma stable_shard:
  assumes "stable cfg cs w"
  obtains shard node s where "Shards cfg (shard_of key (TotalShards cfg)) = Some shard" "Nodes cfg (PrimaryID shard) = Some node"
    "w_nodes w (''http://'' @ Address node) = Some s" "nodeID s = PrimaryID shard" "config s = cfg" "IsActive (clock w) (lease s)"
    "shard_Status shard \<noteq> ShardStatusLocked" "shard_Status shard \<noteq> ShardStatusMigrating"
    "\<forall>url \<in> set (replica_urls (Nodes cfg) (ReplicaIDs shard)). w_nodes w url \<noteq> None"
    "shard_urls cfg key = insert (''http://'' @ Address node) (set (replica_urls (Nodes cfg) (ReplicaIDs shard)))"
proof -
  have n: "0 < TotalShards cfg" using assms by (simp add: stable_def)
  then have "0 \<le> shard_of key (TotalShards cfg)" "shard_of key (TotalShards cfg) < TotalShards cfg"
    by (simp_all add: key_shard_id_pos)
  with assms obtain shard node s where
    *: "Shards cfg (shard_of key (TotalShards cfg)) = Some shard" "Nodes cfg (PrimaryID shard) = Some node"
    "w_nodes w (''http://'' @ Address node) = Some s" "nodeID s = PrimaryID shard"
    "shard_Status shard \<noteq> ShardStatusLocked" "shard_Status shard \<noteq> ShardStatusMigrating"
    "\<forall>url \<in> set (replica_urls (Nodes cfg) (ReplicaIDs shard)). w_nodes w url \<noteq> None"
    unfolding stable_def by blast
  moreover have "config s = cfg" "IsActive (clock w) (lease s)" using assms *(3) unfolding stable_def by blast+
  moreover have "shard_urls cfg key = insert (''http://'' @ Address node) (set (replica_urls (Nodes cfg) (ReplicaIDs shard)))"
    using *(1,2) by (simp add: shard_urls_def)
  ultimately show ?thesis using that by blast
qed

lemma Route_current:
  assumes "stable cfg cs w" and "cl_config cl = Some cfg"
  shows "\<exists>shard node. Shards cfg (shard_of key (TotalShards cfg)) = Some shard \<and> Nodes cfg (PrimaryID shard) = Some node \<and>
    Route key cl = Some (Inr \<lparr>TargetURL = ''http://'' @ Address node, route_Epoch = Epoch cfg, route_ShardID = shard_of key (TotalShards cfg)\<rparr>)"
proof (rule stable_shard [OF assms(1), of key])
  fix shard node s
  assume "Shards cfg (shard_of key (TotalShards cfg)) = Some shard" "Nodes cfg (PrimaryID shard) = Some node"
  moreover have "0 < TotalShards cfg" using assms(1) by (simp add: stable_def)
  ultimately show ?thesis using assms(2) by (simp add: Route_def key_shard_id_pos)
qed

lemma put_at_primary:
  assumes "stable cfg cs w" and "Shards cfg (shard_of key (TotalShards cfg)) = Some shard" and "Nodes cfg (PrimaryID shard) = Some node"
  shows "env_put (cluster_env (\<lambda>_. Delivered)) (''http://'' @ Address node) \<lparr>w_Key = key, w_Value = val, w_Epoch = Epoch cfg\<rparr> w =
    (recorded cfg key val w, Some StatusOK)"
proof (rule stable_shard [OF assms(1), of key])
  let ?req = "\<lparr>w_Key = key, w_Value = val, w_Epoch = Epoch cfg\<rparr>"
  fix shard' node' s
  assume "Shards cfg (shard_of key (TotalShards cfg)) = Some shard'" and "Nodes cfg (PrimaryID shard') = Some node'"
    and s': "w_nodes w (''http://'' @ Address node') = Some s" and id: "nodeID s = PrimaryID shard'" and cfg: "config s = cfg"
    and act: "IsActive (clock w) (lease s)" and st: "shard_Status shard' \<noteq> ShardStatusLocked" "shard_Status shard' \<noteq> ShardStatusMigrating"
    and reps: "\<forall>url \<in> set (replica_urls (Nodes cfg) (ReplicaIDs shard')). w_nodes w url \<noteq> None"
    and urls: "shard_urls cfg key = insert (''http://'' @ Address node') (set (replica_urls (Nodes cfg) (ReplicaIDs shard')))"
  then have eq: "shard' = shard" "node' = node" using assms(2,3) by auto
  note s = s' [unfolded eq]
  have n: "0 < TotalShards cfg" using assms(1) by (simp add: stable_def)
  have checks: "write_checks s (w_Key ?req) (w_Epoch ?req) = Some (Inr (shard_of key (TotalShards cfg)))"
    using cfg n id st assms(2) eq by (simp add: write_checks_def GetEpoch_def key_shard_id_pos)
  have "GetReplicaURLs s (shard_of key (TotalShards cfg)) = replica_urls (Nodes cfg) (ReplicaIDs shard)"
    using cfg assms(2) by (simp add: GetReplicaURLs_def)
  moreover have "\<forall>url \<in> set (replica_urls (Nodes cfg) (ReplicaIDs shard)). \<exists>s. w_nodes w url = Some s \<and> GetEpoch s \<le> w_Epoch ?req"
  proof
    fix url
    assume "url \<in> set (replica_urls (Nodes cfg) (ReplicaIDs shard))"
    then obtain s1 where "w_nodes w url = Some s1" using reps eq by blast
    moreover have "config s1 = cfg" using assms(1) \<open>w_nodes w url = Some s1\<close> unfolding stable_def by blast
    ultimately show "\<exists>s. w_nodes w url = Some s \<and> GetEpoch s \<le> w_Epoch ?req" by (simp add: GetEpoch_def)
  qed
  ultimately show ?thesis
    using HandlePut_succeeds [of "w_nodes w" _ s "clock w" ?req, OF s act checks, of "\<lambda>_. Delivered"] urls eq
    unfolding env_put_node [OF s] by (simp add: recorded_def)
qed

lemma put_with_old_epoch:
  assumes "stable cfg cs w" and "w_Epoch req < Epoch cfg"
  shows "\<exists>ans. env_put (cluster_env (\<lambda>_. Delivered)) url req w = (w, ans) \<and> ans \<in> {None, Some StatusPreconditionFailed}"
proof (cases "w_nodes w url")
  case None
  then show ?thesis by (simp add: cluster_env_def ask_node_def)
next
  case (Some s)
  then have "config s = cfg" "IsActive (clock w) (lease s)" using assms(1) unfolding stable_def by blast+
  then have "HandlePut (clock w) (\<lambda>_. Delivered) url (Some req) (w_nodes w) = Some (w_nodes w, StatusPreconditionFailed)"
    using Some assms(2) by (simp add: HandlePut_def HandlePut_replicate_def write_checks_def GetEpoch_def)
  then show ?thesis by (simp add: env_put_node [OF Some])
qed

lemma stable_recorded: "stable cfg cs w \<Longrightarrow> stable cfg cs (recorded cfg key val w)"
proof -
  assume st: "stable cfg cs w"
  let ?w = "recorded cfg key val w"
  have n: "w_nodes ?w u = w_nodes w u \<or> w_nodes ?w u = map_option (put_on \<lparr>w_Key = key, w_Value = val, w_Epoch = Epoch cfg\<rparr>) (w_nodes w u)" for u
    by (simp add: recorded_def)
  have some: "w_nodes ?w u \<noteq> None \<longleftrightarrow> w_nodes w u \<noteq> None" for u using n [of u] by (cases "w_nodes w u") auto
  have keeps: "\<exists>s'. w_nodes ?w u = Some s' \<and> nodeID s' = nodeID s" if "w_nodes w u = Some s" for u s
    using n [of u] that by auto
  have cfg: "config s = cfg \<and> IsActive (clock w) (lease s)" if "w_nodes ?w u = Some s" for u s
    using n [of u] that st unfolding stable_def by fastforce
  have "\<exists>shard node s. Shards cfg i = Some shard \<and> shard_Status shard \<noteq> ShardStatusLocked \<and> shard_Status shard \<noteq> ShardStatusMigrating \<and>
      Nodes cfg (PrimaryID shard) = Some node \<and> w_nodes ?w (''http://'' @ Address node) = Some s \<and> nodeID s = PrimaryID shard \<and>
      (\<forall>url \<in> set (replica_urls (Nodes cfg) (ReplicaIDs shard)). w_nodes ?w url \<noteq> None)" if "0 \<le> i \<and> i < TotalShards cfg" for i
    using st that some keeps unfolding stable_def by metis
  moreover have "clock ?w = clock w" "w_controllers ?w = w_controllers w" by (simp_all add: recorded_def)
  ultimately show ?thesis using st cfg unfolding stable_def by metis
qed

interpretation cluster: stable_service "cluster_env (\<lambda>_. Delivered)" stable recorded
proof unfold_locales
  fix cfg cs w c
  assume "stable cfg cs w" and "c \<in> set cs"
  then obtain ctl where "w_controllers w c = Some ctl" "c_config ctl = cfg" unfolding stable_def by blast
  then show "env_topology (cluster_env (\<lambda>_. Delivered)) c w = (w, Some (StatusOK, Some cfg))"
    using env_topology_controller by blast
next
  fix cfg cs w
  assume "stable cfg cs w"
  then show "cs \<noteq> []" by (simp add: stable_def)
next
  fix cfg cs w key and cl :: SmartClient
  assume "stable cfg cs w" and "cl_config cl = Some cfg"
  from Route_current [OF this, of key] show "\<exists>r. Route key cl = Some (Inr r)" by blast
next
  fix cfg cs w key r val and cl :: SmartClient
  assume st: "stable cfg cs w" and cl: "cl_config cl = Some cfg" and "Route key cl = Some (Inr r)"
  with Route_current [OF st cl, of key] put_at_primary [OF st]
  show "env_put (cluster_env (\<lambda>_. Delivered)) (TargetURL r) \<lparr>w_Key = key, w_Value = val, w_Epoch = route_Epoch r\<rparr> w =
      (recorded cfg key val w, Some StatusOK)" by fastforce
next
  fix cfg cs w epoch url key val
  assume "stable cfg cs w" and "epoch < Epoch cfg"
  then show "\<exists>ans. env_put (cluster_env (\<lambda>_. Delivered)) url \<lparr>w_Key = key, w_Value = val, w_Epoch = epoch\<rparr> w = (w, ans) \<and>
      ans \<in> {None, Some StatusPreconditionFailed}"
    by (intro put_with_old_epoch) simp_all
next
  fix cfg cs w key val
  assume "stable cfg cs w"
  then show "stable cfg cs (recorded cfg key val w)" by (rule stable_recorded)
next
  fix cfg cs w r and key val :: string and cl :: SmartClient
  assume st: "stable cfg cs w" and cl: "cl_config cl = Some cfg" and r: "Route key cl = Some (Inr r)" and k: "key \<noteq> []" and v: "val \<noteq> []"
  let ?w = "recorded cfg key val w"
  from Route_current [OF st cl, of key] r obtain shard node where
    sh: "Shards cfg (shard_of key (TotalShards cfg)) = Some shard" "Nodes cfg (PrimaryID shard) = Some node"
    and url: "TargetURL r = ''http://'' @ Address node" by fastforce
  obtain s where s: "w_nodes w (TargetURL r) = Some s" and act: "IsActive (clock w) (lease s)" and u: "TargetURL r \<in> shard_urls cfg key"
    using stable_shard [OF st, of key] sh url by (metis insertI1 option.inject)
  have s': "w_nodes ?w (TargetURL r) = Some (put_on \<lparr>w_Key = key, w_Value = val, w_Epoch = Epoch cfg\<rparr> s)"
    using s u by (simp add: recorded_def)
  have "clock ?w = clock w" by (simp add: recorded_def)
  then show "env_get (cluster_env (\<lambda>_. Delivered)) (TargetURL r) (Some key) ?w = (?w, Some (StatusOK, val))"
    using act k v by (simp add: env_get_node [OF s'] HandleGet_def ConcurrentMapCache_Get_def str_at_def)
qed

section \<open>Properties\<close>

text \<open>C6: Read your writes. In a stable cluster, a client that has no topology, the current one or an older one writes any key
  successfully with two attempts, every copy of the key's shard then holds the value, and the same client reads it
  back, provided the key is not empty and has no byte that is special in a URL and the value is not empty.\<close>
theorem client_put_then_get:
  assumes "stable cfg (controllers cl) w" and "2 \<le> maxRetries cl"
    and "cl_config cl = None \<or> cl_config cl = Some cfg \<or> (\<exists>old. cl_config cl = Some old \<and> Epoch old < Epoch cfg)"
    and "plain_key key" and "key \<noteq> []" and "val \<noteq> []"
  shows "\<exists>w' cl'. client_Put (cluster_env (\<lambda>_. Delivered)) key val w cl = Some (w', cl', None) \<and>
    client_Get (cluster_env (\<lambda>_. Delivered)) key w' cl' = Some (w', cl', Inr val) \<and>
    (\<forall>u \<in> shard_urls cfg key. \<exists>s. w_nodes w' u = Some s \<and> cm_data (store s) key = Some val)"
proof -
  let ?w = "recorded cfg key val w" and ?cl = "cl\<lparr>cl_config := Some cfg\<rparr>"
  have "client_Put (cluster_env (\<lambda>_. Delivered)) key val w cl = Some (?w, ?cl, None)"
    unfolding client_Put_def using assms(2) by (intro cluster.put_succeeds [OF assms(1) _ assms(3)]) simp
  moreover have "client_Get (cluster_env (\<lambda>_. Delivered)) key ?w ?cl = Some (?w, ?cl, Inr val)"
    unfolding client_Get_def using assms(1,2) by (intro cluster.get_after_put [OF _ _ assms(4-6)]) simp_all
  moreover have "\<exists>s. w_nodes ?w u = Some s \<and> cm_data (store s) key = Some val" if "u \<in> shard_urls cfg key" for u
  proof -
    have "w_nodes w u \<noteq> None" using stable_shard [OF assms(1), of key] that by (metis insert_iff option.distinct(1))
    then show ?thesis using that by (auto simp: recorded_def)
  qed
  ultimately show ?thesis by blast
qed

definition example_world :: World where
  "example_world = \<lparr>clock = 0, w_nodes = example_nodes,
     w_controllers = [''http://c'' \<mapsto> \<lparr>reaper = NewReaper 5000000000, c_config = example_config, rebalances = 0\<rparr>]\<rparr>"

lemma example_world_stable: "stable example_config [''http://c''] example_world"
  by (auto simp: stable_def example_world_def example_node_defs IsActive_def status_defs split: if_splits)

theorem client_put_then_get_witness:
  "\<exists>w' cl'. client_Put (cluster_env (\<lambda>_. Delivered)) ''k'' ''v'' example_world
      \<lparr>cl_config = None, controllers = [''http://c''], maxRetries = 5\<rparr> = Some (w', cl', None) \<and>
    client_Get (cluster_env (\<lambda>_. Delivered)) ''k'' w' cl' = Some (w', cl', Inr ''v'')"
  using client_put_then_get [of example_config "\<lparr>cl_config = None, controllers = [''http://c''], maxRetries = 5\<rparr>" example_world "''k''" "''v''"]
    example_world_stable
  by (auto simp: plain_key_def is_ctl_def)

text \<open>The first node was the primary and has an old value; now all nodes have the topology in which the second node is.\<close>

definition moved_config :: ClusterConfig where
  "moved_config = move_config\<lparr>Epoch := 3, Shards :=
     [0 \<mapsto> \<lparr>shard_ID = 0, PrimaryID = ''n2'', ReplicaIDs = [], shard_Status = ShardStatusActive\<rparr>]\<rparr>"

definition moved_world :: World where
  "moved_world = \<lparr>clock = 0, w_nodes =
     [''http://a1'' \<mapsto> (put_on \<lparr>w_Key = ''k'', w_Value = ''old'', w_Epoch = 1\<rparr> (move_server ''n1''))\<lparr>config := moved_config\<rparr>,
      ''http://a2'' \<mapsto> (put_on \<lparr>w_Key = ''k'', w_Value = ''old'', w_Epoch = 1\<rparr> (move_server ''n2''))\<lparr>config := moved_config\<rparr>],
     w_controllers = [''http://c'' \<mapsto> \<lparr>reaper = NewReaper 5000000000, c_config = moved_config, rebalances = 0\<rparr>]\<rparr>"

lemma moved_world_stable: "stable moved_config [''http://c''] moved_world"
  by (auto simp: stable_def moved_world_def moved_config_def move_defs IsActive_def status_defs put_on_def split: if_splits)

text \<open>A client with an old topology can read an old value although the write of a newer one was acknowledged before: \<open>HandleGet\<close> checks
  neither the epoch nor whether the node is the primary, so after a migration the former primary goes on to answer reads from
  its old copy, also when it knows the new topology.\<close>
theorem stale_client_reads_old_value:
  "\<exists>w' cl' cl''. client_Put (cluster_env (\<lambda>_. Delivered)) ''k'' ''new'' moved_world
      \<lparr>cl_config = None, controllers = [''http://c''], maxRetries = 5\<rparr> = Some (w', cl', None) \<and>
    client_Get (cluster_env (\<lambda>_. Delivered)) ''k'' w' \<lparr>cl_config = Some move_config, controllers = [''http://c''], maxRetries = 5\<rparr> =
      Some (w', cl'', Inr ''old'')"
proof -
  let ?cl = "\<lparr>cl_config = Some move_config, controllers = [''http://c''], maxRetries = 5\<rparr>"
  let ?w = "recorded moved_config ''k'' ''new'' moved_world"
  have "shard_urls moved_config ''k'' = {''http://a2''}"
    by (simp add: shard_urls_def moved_config_def move_config_def example_topology_def key_shard_id_pos)
  then have n1: "w_nodes ?w ''http://a1'' =
      Some ((put_on \<lparr>w_Key = ''k'', w_Value = ''old'', w_Epoch = 1\<rparr> (move_server ''n1''))\<lparr>config := moved_config\<rparr>)"
    by (simp add: recorded_def moved_world_def)
  have put: "client_Put (cluster_env (\<lambda>_. Delivered)) ''k'' ''new'' moved_world
      \<lparr>cl_config = None, controllers = [''http://c''], maxRetries = 5\<rparr> =
      Some (?w, \<lparr>cl_config = Some moved_config, controllers = [''http://c''], maxRetries = 5\<rparr>, None)"
    unfolding client_Put_def using moved_world_stable
      cluster.put_succeeds [of moved_config "\<lparr>cl_config = None, controllers = [''http://c''], maxRetries = 5\<rparr>" moved_world 5 "''k''" "''new''"]
    by simp
  have "Route ''k'' ?cl = Some (Inr \<lparr>TargetURL = ''http://a1'', route_Epoch = 1, route_ShardID = 0\<rparr>)"
    by (simp add: Route_def key_shard_id_pos move_config_def example_topology_def)
  moreover have "send_get (cluster_env (\<lambda>_. Delivered)) ''http://a1'' ''k'' ?w = (?w, Some (StatusOK, ''old''))"
  proof -
    have "sent_key ''k'' = KeyParam ''k''" by (intro sent_key_plain) (simp add: plain_key_def is_ctl_def)
    moreover have "clock ?w = 0" by (simp add: recorded_def moved_world_def)
    ultimately show ?thesis
      by (simp add: send_get_def env_get_node [OF n1] HandleGet_def IsActive_def ConcurrentMapCache_Get_def str_at_def move_server_def NewServer_def)
  qed
  ultimately have "client_Get (cluster_env (\<lambda>_. Delivered)) ''k'' ?w ?cl = Some (?w, ?cl, Inr ''old'')"
    by (simp add: client_Get_def numeral_eq_Suc)
  with put show ?thesis by blast
qed

end
