(* ===== verification/Failover.thy ===== *)
theory Failover
  imports Services
begin

text \<open>
  What happens to a cluster when the primary of some shards dies: the controller's \<open>HandleNodeFailure\<close> promotes replicas, the
  remaining nodes learn of the new topology with their next heartbeat, and the cluster is stable again. The step from
  one stable state to the next composes \<open>metadata.Rebalance\<close>, the controller's service and the nodes' renewals.
\<close>

section \<open>A renewal\<close>

definition renewed :: "ClusterConfig \<Rightarrow> go_time \<Rightarrow> Server \<Rightarrow> Server" where
  "renewed cfg now s =
     (if Epoch cfg > GetEpoch s then s\<lparr>config := cfg, lease := extendLease now (lease s)\<rparr>
      else s\<lparr>lease := extendLease now (lease s)\<rparr>)"

lemma renewed_simps [simp]:
  "store (renewed cfg now s) = store s" "nodeID (renewed cfg now s) = nodeID s"
  "lease_duration (lease (renewed cfg now s)) = lease_duration (lease s)"
  "IsActive now (lease (renewed cfg now s)) \<longleftrightarrow> 0 < lease_duration (lease s)"
  "config (renewed cfg now s) = (if Epoch cfg > Epoch (config s) then cfg else config s)"
  by (simp_all add: renewed_def extendLease_def IsActive_def GetEpoch_def)

lemma node_renew_eq:
  assumes "w_nodes w u = Some s" and "w_controllers w c = Some ctl"
  shows "node_renew (\<lambda>_. Delivered) c u w =
    w\<lparr>w_controllers := (w_controllers w)(c \<mapsto> Heartbeat (clock w) (lease_nodeID (lease s)) ctl),
      w_nodes := (w_nodes w)(u \<mapsto> renewed (c_config ctl) (clock w) s)\<rparr>"
  using assms by (simp add: node_renew_def ask_controller_def controller_mux_def request_def epoch_of_def topology_of_def lease_tick_def
      renew_def fetchTopology_def StateManager_Update_def Heartbeat_def renewed_def Let_def)

text \<open>Every remaining node renews, one after the other.\<close>

fun renew_all :: "string \<Rightarrow> string list \<Rightarrow> World \<Rightarrow> World" where
  "renew_all c [] w = w"
| "renew_all c (u # us) w = renew_all c us (node_renew (\<lambda>_. Delivered) c u w)"

lemma renew_all_spec:
  assumes "w_controllers w c = Some ctl" and "distinct us" and "\<forall>u \<in> set us. w_nodes w u \<noteq> None"
  shows "clock (renew_all c us w) = clock w \<and>
    (\<exists>ctl'. w_controllers (renew_all c us w) c = Some ctl' \<and> c_config ctl' = c_config ctl) \<and>
    w_nodes (renew_all c us w) = (\<lambda>u. if u \<in> set us then map_option (renewed (c_config ctl) (clock w)) (w_nodes w u) else w_nodes w u)"
  using assms
proof (induction us arbitrary: w ctl)
  case (Cons u us)
  then obtain s where s: "w_nodes w u = Some s" by auto
  let ?w = "node_renew (\<lambda>_. Delivered) c u w"
  note w = node_renew_eq [OF s Cons.prems(1)]
  have c: "w_controllers ?w c = Some (Heartbeat (clock w) (lease_nodeID (lease s)) ctl)"
    "c_config (Heartbeat (clock w) (lease_nodeID (lease s)) ctl) = c_config ctl" "clock ?w = clock w"
    "w_nodes ?w = (w_nodes w)(u \<mapsto> renewed (c_config ctl) (clock w) s)"
    by (simp_all add: w Heartbeat_def)
  have d: "distinct us" using Cons.prems(2) by simp
  have p: "\<forall>v \<in> set us. w_nodes ?w v \<noteq> None" using Cons.prems(3) by (simp add: c(4))
  note IH = Cons.IH [OF c(1) d p, unfolded c(2,3)]
  have "w_nodes (renew_all c us ?w) =
      (\<lambda>v. if v \<in> set (u # us) then map_option (renewed (c_config ctl) (clock w)) (w_nodes w v) else w_nodes w v)"
    using Cons.prems(2) s IH by (auto simp: c(4) fun_eq_iff)
  with IH show ?case by simp
qed simp

section \<open>The failover\<close>

text \<open>
  The controller at \<open>c\<close> finds node \<open>dead\<close> missing and the other nodes renew. \<open>is\<close> is the order of the loop over the shards, \<open>us\<close> the
  order of the renewals.
\<close>

definition failover :: "string \<Rightarrow> int list \<Rightarrow> string list \<Rightarrow> string \<Rightarrow> string \<Rightarrow> World \<Rightarrow> World" where
  "failover c is us dead deadURL w =
     (case w_controllers w c of
        None \<Rightarrow> w
      | Some ctl \<Rightarrow> renew_all c us (w\<lparr>w_nodes := (w_nodes w)(deadURL := None),
          w_controllers := (w_controllers w)(c \<mapsto> HandleNodeFailure is dead ctl)\<rparr>))"

text \<open>
  The conditions: the topology is well-formed, every shard of the dead node has a replica, each registered node has a server of its own
  that knows its name, leases have a positive duration, and the epoch does not wrap.
\<close>

definition can_fail_over :: "ClusterConfig \<Rightarrow> string \<Rightarrow> string \<Rightarrow> World \<Rightarrow> bool" where
  "can_fail_over cfg dead deadURL w \<longleftrightarrow> topology_wf cfg \<and> dead \<noteq> [] \<and>
     (\<exists>node. Nodes cfg dead = Some node \<and> deadURL = ''http://'' @ Address node) \<and>
     (\<forall>n node. Nodes cfg n = Some node \<and> n \<noteq> dead \<longrightarrow> ''http://'' @ Address node \<noteq> deadURL) \<and>
     (\<forall>i shard. Shards cfg i = Some shard \<longrightarrow> (PrimaryID shard = dead \<longrightarrow> ReplicaIDs shard \<noteq> []) \<and>
        (\<forall>r \<in> set (ReplicaIDs shard). \<exists>node s. Nodes cfg r = Some node \<and> w_nodes w (''http://'' @ Address node) = Some s \<and> nodeID s = r)) \<and>
     (\<forall>u s. w_nodes w u = Some s \<longrightarrow> 0 < lease_duration (lease s)) \<and> Epoch cfg < Epoch cfg + 1"

lemma in_replica_urls: "url \<in> set (replica_urls nodes rs) \<longleftrightarrow> (\<exists>r \<in> set rs. \<exists>node. nodes r = Some node \<and> url = ''http://'' @ Address node)"
proof (induction rs)
  case (Cons r rs)
  then show ?case by (cases "nodes r") auto
qed simp

lemma mark_dead_other: "n \<noteq> dead \<Longrightarrow> mark_dead dead nodes n = nodes n"
  by (simp add: mark_dead_def split: option.splits)

text \<open>The world after a failover.\<close>

lemma failover_world:
  assumes "stable cfg [c] w" and "can_fail_over cfg dead deadURL w" and "range_order is (Shards cfg)"
    and "distinct us" and "set us = dom (w_nodes w) - {deadURL}"
  shows "clock (failover c is us dead deadURL w) = clock w"
    and "\<exists>ctl. w_controllers (failover c is us dead deadURL w) c = Some ctl \<and> c_config ctl = metadata_Rebalance is cfg dead"
    and "w_nodes (failover c is us dead deadURL w) u =
      (if u = deadURL then None else map_option (renewed (metadata_Rebalance is cfg dead) (clock w)) (w_nodes w u))"
proof -
  from assms(1) obtain ctl where ctl: "w_controllers w c = Some ctl" "c_config ctl = cfg" by (auto simp: stable_def)
  let ?w = "w\<lparr>w_nodes := (w_nodes w)(deadURL := None), w_controllers := (w_controllers w)(c \<mapsto> HandleNodeFailure is dead ctl)\<rparr>"
  have f: "failover c is us dead deadURL w = renew_all c us ?w" using ctl(1) by (simp add: failover_def)
  have 1: "w_controllers ?w c = Some (HandleNodeFailure is dead ctl)" by simp
  have 2: "c_config (HandleNodeFailure is dead ctl) = metadata_Rebalance is cfg dead" using ctl(2) by (simp add: HandleNodeFailure_def)
  have 3: "\<forall>v \<in> set us. w_nodes ?w v \<noteq> None" using assms(5) by auto
  have 4: "clock ?w = clock w" by simp
  note spec = renew_all_spec [OF 1 assms(4) 3, unfolded 2 4, folded f]
  show "clock (failover c is us dead deadURL w) = clock w" using spec by blast
  show "\<exists>ctl. w_controllers (failover c is us dead deadURL w) c = Some ctl \<and> c_config ctl = metadata_Rebalance is cfg dead"
    using spec by blast
  show "w_nodes (failover c is us dead deadURL w) u =
      (if u = deadURL then None else map_option (renewed (metadata_Rebalance is cfg dead) (clock w)) (w_nodes w u))"
    using assms(5) spec by (cases "w_nodes w u") auto
qed

text \<open>A shard after the failover: its new primary and its replicas are nodes that were copies of it before.\<close>

lemma failover_shard:
  assumes "can_fail_over cfg dead deadURL w" and "range_order is (Shards cfg)" and "Shards cfg i = Some shard"
  shows "Shards (metadata_Rebalance is cfg dead) i = Some (rebalance_shard dead shard)"
    and "set (PrimaryID (rebalance_shard dead shard) # ReplicaIDs (rebalance_shard dead shard)) \<subseteq> set (PrimaryID shard # ReplicaIDs shard) - {dead}"
    and "shard_Status (rebalance_shard dead shard) = []"
    and "PrimaryID (rebalance_shard dead shard) = (if PrimaryID shard = dead then hd (ReplicaIDs shard) else PrimaryID shard)"
    and "PrimaryID shard = dead \<Longrightarrow> ReplicaIDs shard \<noteq> []"
proof -
  have wf: "shard_wf shard" using assms(1,3) by (auto simp: can_fail_over_def topology_wf_def)
  have d: "dead \<noteq> []" and ne: "PrimaryID shard = dead \<Longrightarrow> ReplicaIDs shard \<noteq> []"
    using assms(1,3) unfolding can_fail_over_def by blast+
  show "Shards (metadata_Rebalance is cfg dead) i = Some (rebalance_shard dead shard)"
    using assms(3) by (simp add: metadata_Rebalance_simps(4) [OF assms(2)])
  show "PrimaryID shard = dead \<Longrightarrow> ReplicaIDs shard \<noteq> []" by (rule ne)
  show "shard_Status (rebalance_shard dead shard) = []"
    by (auto simp: rebalance_shard_def split: list.splits)
  show "PrimaryID (rebalance_shard dead shard) = (if PrimaryID shard = dead then hd (ReplicaIDs shard) else PrimaryID shard)"
    using ne by (auto simp: rebalance_shard_def split: list.splits)
  then have "PrimaryID (rebalance_shard dead shard) \<in> set (PrimaryID shard # ReplicaIDs shard)" using ne by auto
  then show "set (PrimaryID (rebalance_shard dead shard) # ReplicaIDs (rebalance_shard dead shard)) \<subseteq> set (PrimaryID shard # ReplicaIDs shard) - {dead}"
    using rebalance_shard_drops_dead [OF wf d] rebalance_shard_members(2) [of dead shard] by auto
qed

lemma failover_urls:
  assumes "can_fail_over cfg dead deadURL w" and "range_order is (Shards cfg)" and "Shards cfg i = Some shard"
    and "r \<in> set (PrimaryID (rebalance_shard dead shard) # ReplicaIDs (rebalance_shard dead shard))"
    and "Nodes (metadata_Rebalance is cfg dead) r = Some node"
  shows "Nodes cfg r = Some node \<and> r \<in> set (PrimaryID shard # ReplicaIDs shard) \<and> ''http://'' @ Address node \<noteq> deadURL"
proof -
  have r: "r \<in> set (PrimaryID shard # ReplicaIDs shard)" "r \<noteq> dead" using failover_shard(2) [OF assms(1-3)] assms(4) by auto
  then have "Nodes cfg r = Some node" using assms(5) by (simp add: metadata_Rebalance_simps(3) [OF assms(2)] mark_dead_other)
  with r assms(1) show ?thesis unfolding can_fail_over_def by blast
qed

lemma failover_copies_there:
  assumes st: "stable cfg [c] w" and can: "can_fail_over cfg dead deadURL w" and ord: "range_order is (Shards cfg)"
    and us: "distinct us" "set us = dom (w_nodes w) - {deadURL}"
    and i: "0 \<le> i" "i < TotalShards cfg" and sh: "Shards cfg i = Some shard"
    and r: "r \<in> set (PrimaryID (rebalance_shard dead shard) # ReplicaIDs (rebalance_shard dead shard))"
    and node: "Nodes (metadata_Rebalance is cfg dead) r = Some node"
  shows "\<exists>s. w_nodes (failover c is us dead deadURL w) (''http://'' @ Address node) = Some s \<and> nodeID s = r"
proof -
  note f = failover_urls [OF can ord sh r node]
  have "\<exists>s. w_nodes w (''http://'' @ Address node) = Some s \<and> nodeID s = r"
  proof (cases "r \<in> set (ReplicaIDs shard)")
    case True
    then obtain node' s where "Nodes cfg r = Some node'" "w_nodes w (''http://'' @ Address node') = Some s" "nodeID s = r"
      using can sh unfolding can_fail_over_def by blast
    then show ?thesis using f by auto
  next
    case False
    then have p: "r = PrimaryID shard" using f by simp
    obtain shard' node' s where "Shards cfg i = Some shard'" "Nodes cfg (PrimaryID shard') = Some node'"
      "w_nodes w (''http://'' @ Address node') = Some s" "nodeID s = PrimaryID shard'"
      using st i unfolding stable_def by blast
    then show ?thesis using sh f p by auto
  qed
  then show ?thesis using f by (auto simp: failover_world(3) [OF st can ord us])
qed

lemma failover_stable:
  assumes st: "stable cfg [c] w" and can: "can_fail_over cfg dead deadURL w" and ord: "range_order is (Shards cfg)"
    and us: "distinct us" "set us = dom (w_nodes w) - {deadURL}"
  shows "stable (metadata_Rebalance is cfg dead) [c] (failover c is us dead deadURL w)"
  unfolding stable_def
proof (intro conjI ballI allI impI)
  let ?cfg = "metadata_Rebalance is cfg dead" and ?w = "failover c is us dead deadURL w"
  note w = failover_world [OF st can ord us] and there = failover_copies_there [OF st can ord us]
  show "[c] \<noteq> []" by simp
  show "\<exists>ctl. w_controllers ?w c' = Some ctl \<and> c_config ctl = ?cfg" if "c' \<in> set [c]" for c' using w(2) that by simp
  have e: "Epoch cfg < Epoch ?cfg" using can by (simp add: can_fail_over_def metadata_Rebalance_simps(1) [OF ord])
  have "config s = ?cfg \<and> IsActive (clock ?w) (lease s)" if "w_nodes ?w u = Some s" for u s
  proof -
    from that obtain s0 where s0: "w_nodes w u = Some s0" "s = renewed ?cfg (clock w) s0" by (auto simp: w(3) split: if_splits)
    then have "config s0 = cfg" "0 < lease_duration (lease s0)" using st can unfolding stable_def can_fail_over_def by blast+
    then show ?thesis using s0(2) e by (simp add: w(1))
  qed
  then show "config s = ?cfg" and "IsActive (clock ?w) (lease s)" if "w_nodes ?w u = Some s" for u s using that by blast+
  show "0 < TotalShards ?cfg" using st by (simp add: stable_def metadata_Rebalance_simps(2) [OF ord])
  fix i
  assume i: "0 \<le> i \<and> i < TotalShards ?cfg"
  then have i': "0 \<le> i" "i < TotalShards cfg" by (simp_all add: metadata_Rebalance_simps(2) [OF ord])
  then obtain shard node where sh: "Shards cfg i = Some shard" and pn: "Nodes cfg (PrimaryID shard) = Some node"
    using st unfolding stable_def by blast
  note f = failover_shard [OF can ord sh]
  let ?p = "PrimaryID (rebalance_shard dead shard)"
  have "?p \<noteq> dead" using f(2) by auto
  moreover have "\<exists>node. Nodes cfg ?p = Some node"
  proof (cases "PrimaryID shard = dead")
    case True
    then have "?p \<in> set (ReplicaIDs shard)" using f(4,5) by simp
    then show ?thesis using can sh unfolding can_fail_over_def by blast
  qed (use f(4) pn in simp)
  ultimately obtain node' where n': "Nodes ?cfg ?p = Some node'"
    by (auto simp: metadata_Rebalance_simps(3) [OF ord] mark_dead_other)
  obtain s where "w_nodes ?w (''http://'' @ Address node') = Some s" "nodeID s = ?p"
    using there [OF i' sh _ n'] by auto
  moreover have "w_nodes ?w url \<noteq> None" if "url \<in> set (replica_urls (Nodes ?cfg) (ReplicaIDs (rebalance_shard dead shard)))" for url
    using that there [OF i' sh] by (fastforce simp: in_replica_urls)
  ultimately show "\<exists>shard node s. Shards ?cfg i = Some shard \<and> shard_Status shard \<noteq> ShardStatusLocked \<and> shard_Status shard \<noteq> ShardStatusMigrating \<and>
      Nodes ?cfg (PrimaryID shard) = Some node \<and> w_nodes ?w (''http://'' @ Address node) = Some s \<and> nodeID s = PrimaryID shard \<and>
      (\<forall>url \<in> set (replica_urls (Nodes ?cfg) (ReplicaIDs shard)). w_nodes ?w url \<noteq> None)"
    using f(1,3) n' by (intro exI [of _ "rebalance_shard dead shard"] exI [of _ node'] exI [of _ s]) (simp add: status_defs)
qed

section \<open>Data survives\<close>

definition held :: "string set \<Rightarrow> string \<Rightarrow> string \<Rightarrow> World \<Rightarrow> bool" where
  "held urls key val w \<longleftrightarrow> (\<forall>u \<in> urls. \<exists>s. w_nodes w u = Some s \<and> cm_data (store s) key = Some val)"

lemma failover_shard_urls:
  assumes "stable cfg [c] w" and can: "can_fail_over cfg dead deadURL w" and ord: "range_order is (Shards cfg)"
  shows "shard_urls (metadata_Rebalance is cfg dead) key \<subseteq> shard_urls cfg key - {deadURL}"
proof (rule stable_shard [OF assms(1), of key])
  fix shard
  assume sh: "Shards cfg (shard_of key (TotalShards cfg)) = Some shard"
  note f = failover_shard(1) [OF can ord sh]
  have "u \<in> set (replica_urls (Nodes cfg) (PrimaryID shard # ReplicaIDs shard)) - {deadURL}"
    if "u \<in> set (replica_urls (Nodes (metadata_Rebalance is cfg dead))
      (PrimaryID (rebalance_shard dead shard) # ReplicaIDs (rebalance_shard dead shard)))" for u
    using that failover_urls [OF can ord sh] unfolding in_replica_urls Diff_iff singleton_iff by blast
  then show ?thesis
    using sh f by (auto simp: shard_urls_def metadata_Rebalance_simps(2) [OF ord] simp del: replica_urls.simps)
qed

lemma failover_held:
  assumes "stable cfg [c] w" and "can_fail_over cfg dead deadURL w" and "range_order is (Shards cfg)"
    and "distinct us" and "set us = dom (w_nodes w) - {deadURL}" and "held urls key val w"
  shows "held (urls - {deadURL}) key val (failover c is us dead deadURL w)"
  using assms(6) by (fastforce simp: held_def failover_world(3) [OF assms(1-5)])

lemma recorded_held: "stable cfg cs w \<Longrightarrow> held (shard_urls cfg key) key val (recorded cfg key val w)"
  unfolding held_def
proof
  fix u
  assume "stable cfg cs w" and u: "u \<in> shard_urls cfg key"
  then have "w_nodes w u \<noteq> None" using stable_shard [of cfg cs w key] by (metis insert_iff option.distinct(1))
  then show "\<exists>s. w_nodes (recorded cfg key val w) u = Some s \<and> cm_data (store s) key = Some val"
    using u by (auto simp: recorded_def)
qed

lemma can_fail_over_recorded:
  assumes "can_fail_over cfg dead deadURL w"
  shows "can_fail_over cfg dead deadURL (recorded cfg key val w)" "dom (w_nodes (recorded cfg key val w)) = dom (w_nodes w)"
proof -
  have n: "w_nodes (recorded cfg key val w) u = w_nodes w u \<or>
      w_nodes (recorded cfg key val w) u = map_option (put_on \<lparr>w_Key = key, w_Value = val, w_Epoch = Epoch cfg\<rparr>) (w_nodes w u)" for u
    by (simp add: recorded_def)
  have keeps: "\<exists>s'. w_nodes (recorded cfg key val w) u = Some s' \<and> nodeID s' = nodeID s" if "w_nodes w u = Some s" for u s
    using n [of u] that by auto
  have dur: "\<exists>s0. w_nodes w u = Some s0 \<and> lease s0 = lease s" if "w_nodes (recorded cfg key val w) u = Some s" for u s
    using n [of u] that by (cases "w_nodes w u") auto
  show "can_fail_over cfg dead deadURL (recorded cfg key val w)"
    unfolding can_fail_over_def
  proof (intro conjI allI impI ballI)
    fix i shard r
    assume "Shards cfg i = Some shard" and "r \<in> set (ReplicaIDs shard)"
    then obtain node s where "Nodes cfg r = Some node" "w_nodes w (''http://'' @ Address node) = Some s" "nodeID s = r"
      using assms unfolding can_fail_over_def by blast
    then show "\<exists>node s. Nodes cfg r = Some node \<and> w_nodes (recorded cfg key val w) (''http://'' @ Address node) = Some s \<and> nodeID s = r"
      using keeps by blast
  next
    fix u s
    assume "w_nodes (recorded cfg key val w) u = Some s"
    then show "0 < lease_duration (lease s)" using dur [of u s] assms unfolding can_fail_over_def by fastforce
  qed (use assms in \<open>auto simp: can_fail_over_def\<close>)
  show "dom (w_nodes (recorded cfg key val w)) = dom (w_nodes w)" by (auto simp: recorded_def dom_def split: if_splits)
qed

lemma get_held:
  assumes "stable cfg cs w" and "held {u} key val w" and "plain_key key" and "key \<noteq> []" and "val \<noteq> []"
  shows "send_get (cluster_env (\<lambda>_. Delivered)) u key w = (w, Some (StatusOK, val))"
proof -
  from assms(2) obtain s where s: "w_nodes w u = Some s" "cm_data (store s) key = Some val" by (auto simp: held_def)
  then have "IsActive (clock w) (lease s)" using assms(1) unfolding stable_def by blast
  then show ?thesis
    using s(2) assms(4,5) by (simp add: send_get_def sent_key_plain [OF assms(3)] env_get_node [OF s(1)] HandleGet_def
        ConcurrentMapCache_Get_def str_at_def)
qed

text \<open>A read after the failover by a client that asks the node which was the primary before it.\<close>

lemma get_after_failover_routed:
  assumes st: "stable cfg [c] w" and can: "can_fail_over cfg dead deadURL w" and ord: "range_order is (Shards cfg)"
    and us: "distinct us" "set us = dom (w_nodes w) - {deadURL}" and held: "held (shard_urls cfg key) key val w"
    and cl: "controllers cl = [c]" and sh: "Shards cfg (shard_of key (TotalShards cfg)) = Some shard" "Nodes cfg (PrimaryID shard) = Some node"
    and r: "Route key cl = Some (Inr \<lparr>TargetURL = ''http://'' @ Address node, route_Epoch = e, route_ShardID = k\<rparr>)" and n: "2 \<le> n" and kv: "plain_key key" "key \<noteq> []" "val \<noteq> []"
  shows "\<exists>cl'. get_loop (cluster_env (\<lambda>_. Delivered)) key n (failover c is us dead deadURL w) cl =
    Some (failover c is us dead deadURL w, cl', Inr val)"
proof -
  let ?cfg = "metadata_Rebalance is cfg dead" and ?w = "failover c is us dead deadURL w" and ?env = "cluster_env (\<lambda>_. Delivered)"
  let ?cl = "cl\<lparr>cl_config := Some ?cfg\<rparr>"
  obtain m where m: "n = Suc (Suc m)" using n by (metis Suc_le_D Suc_le_mono numeral_2_eq_2)
  note st' = failover_stable [OF st can ord us] and held' = failover_held [OF st can ord us held]
  have new: "get_loop ?env key (Suc m) ?w ?cl = Some (?w, ?cl, Inr val)"
  proof -
    obtain shard node where sh: "Shards ?cfg (shard_of key (TotalShards ?cfg)) = Some shard" "Nodes ?cfg (PrimaryID shard) = Some node"
      and r: "Route key ?cl = Some (Inr \<lparr>TargetURL = ''http://'' @ Address node, route_Epoch = Epoch ?cfg,
        route_ShardID = shard_of key (TotalShards ?cfg)\<rparr>)"
      using Route_current [OF st', of ?cl key] by auto
    have "''http://'' @ Address node \<in> shard_urls ?cfg key" using sh by (simp add: shard_urls_def)
    then have "held {''http://'' @ Address node} key val ?w"
      using held' failover_shard_urls [OF st can ord, of key] unfolding held_def by blast
    from get_held [OF st' this kv] r show ?thesis by simp
  qed
  let ?u = "''http://'' @ Address node"
  show ?thesis
  proof (cases "?u = deadURL")
    case True
    then have "w_nodes ?w ?u = None" by (simp add: failover_world(3) [OF st can ord us])
    then have "send_get ?env ?u key ?w = (?w, None)"
      by (simp add: send_get_def sent_key_plain [OF kv(1)] cluster_env_def ask_node_def)
    moreover have "FetchTopology ?env ?w cl = (?w, ?cl, True)" using cluster.fetch [of ?cfg cl ?w] st' cl by simp
    ultimately have "get_loop ?env key (Suc (Suc m)) ?w cl = get_loop ?env key (Suc m) ?w ?cl"
      using r by (simp del: get_loop.simps add: get_loop.simps(2) [of _ _ "Suc m" _ cl])
    then show ?thesis using new m by simp
  next
    case False
    have "?u \<in> shard_urls cfg key" using sh by (simp add: shard_urls_def)
    then have "held {?u} key val ?w" using held' False unfolding held_def by blast
    from get_held [OF st' this kv] r show ?thesis unfolding m by simp
  qed
qed

lemma get_after_failover:
  assumes "stable cfg [c] w" and "can_fail_over cfg dead deadURL w" and "range_order is (Shards cfg)"
    and "distinct us" and "set us = dom (w_nodes w) - {deadURL}" and "held (shard_urls cfg key) key val w"
    and "controllers cl = [c]" and "cl_config cl = Some cfg" and "2 \<le> n" and "plain_key key" and "key \<noteq> []" and "val \<noteq> []"
  shows "\<exists>cl'. get_loop (cluster_env (\<lambda>_. Delivered)) key n (failover c is us dead deadURL w) cl =
    Some (failover c is us dead deadURL w, cl', Inr val)"
  using Route_current [OF assms(1,8), of key] get_after_failover_routed [OF assms(1-7) _ _ _ assms(9-12)] by blast

section \<open>Property\<close>


lemma example_can_fail_over: "can_fail_over example_config ''n1'' ''http://a1'' example_world"
  by (auto simp: can_fail_over_def topology_wf_def shard_wf_def example_world_def example_node_defs split: if_splits)


end
