(* ===== verification/Lease_Safety.thy ===== *)
theory Lease_Safety
  imports Services
begin

text \<open>
  Leases against failure detection: the node with its \<open>LeaseManager\<close> and the controller with its \<open>Reaper\<close>, over time. The question is whether a
  node can still believe in its lease when the controller declares it dead and gives its shards to others.

  Both clocks run at the same rate; the model has one clock. A heartbeat reaches the controller at some time, the reply reaches the node later, and
  the node gives up a heartbeat after the timeout of its HTTP client, so that a reply that counts arrives at most \<open>delay\<close>
  after the controller handled the heartbeat. In the code the timeout is two seconds.
\<close>

section \<open>The system\<close>

record LeaseState =
  ls_now :: go_time
  ls_lease :: LeaseManager
  ls_reaper :: Reaper
  in_flight :: "go_time set"

definition heartbeat_timeout :: duration where
  "heartbeat_timeout = 2000000000"

definition lease_init :: "go_time \<Rightarrow> string \<Rightarrow> duration \<Rightarrow> duration \<Rightarrow> LeaseState" where
  "lease_init now node dur grace = \<lparr>ls_now = now, ls_lease = NewLeaseManager node dur, ls_reaper = NewReaper grace, in_flight = {}\<rparr>"

inductive lease_step :: "duration \<Rightarrow> string \<Rightarrow> LeaseState \<Rightarrow> LeaseState \<Rightarrow> bool" for delay node where
  pass: "0 \<le> d \<Longrightarrow> lease_step delay node s (s\<lparr>ls_now := ls_now s + d\<rparr>)"
| heartbeat: "lease_step delay node s (s\<lparr>ls_reaper := Track (ls_now s) node (ls_reaper s), in_flight := insert (ls_now s) (in_flight s)\<rparr>)"
| reply: "t \<in> in_flight s \<Longrightarrow> ls_now s - t \<le> delay \<Longrightarrow>
    lease_step delay node s (s\<lparr>ls_lease := extendLease (ls_now s) (ls_lease s), in_flight := in_flight s - {t}\<rparr>)"
| check: "range_order ks (lastSeen (ls_reaper s)) \<Longrightarrow>
    lease_step delay node s (s\<lparr>ls_reaper := fst (checkLiveness (ls_now s) ks (ls_reaper s))\<rparr>)"

section \<open>The invariant\<close>

text \<open>
  A lease that is valid was extended by the reply to a heartbeat no later than the last one the controller has seen, and a reply that can still
  count belongs to a node that has not been declared dead.
\<close>

definition lease_ok :: "duration \<Rightarrow> string \<Rightarrow> LeaseState \<Rightarrow> bool" where
  "lease_ok delay node s \<longleftrightarrow>
     0 \<le> delay \<and> 0 \<le> lease_duration (ls_lease s) \<and> lease_duration (ls_lease s) + delay \<le> gracePeriod (ls_reaper s) \<and>
     gracePeriod (ls_reaper s) < max_duration \<and>
     (\<forall>t. lastSeen (ls_reaper s) node = Some t \<longrightarrow> t \<le> ls_now s) \<and>
     (\<forall>t \<in> in_flight s. t \<le> ls_now s \<and> (ls_now s - t \<le> delay \<longrightarrow> (\<exists>t'. lastSeen (ls_reaper s) node = Some t' \<and> t \<le> t'))) \<and>
     (ls_now s < validUntil (ls_lease s) \<longrightarrow>
        (\<exists>t. lastSeen (ls_reaper s) node = Some t \<and> validUntil (ls_lease s) \<le> t + delay + lease_duration (ls_lease s)))"

lemma checkLiveness_at:
  assumes "range_order ks (lastSeen r)" and "0 \<le> gracePeriod r" and "gracePeriod r < max_duration"
  shows "lastSeen (fst (checkLiveness now ks r)) node =
      (case lastSeen r node of None \<Rightarrow> None | Some t \<Rightarrow> if now - t > gracePeriod r then None else Some t)"
    and "node \<in> set (snd (checkLiveness now ks r)) \<longleftrightarrow> (\<exists>t. lastSeen r node = Some t \<and> now - t > gracePeriod r)"
    and "gracePeriod (fst (checkLiveness now ks r)) = gracePeriod r"
proof -
  have "time_sub now t > gracePeriod r \<longleftrightarrow> now - t > gracePeriod r" for t
    using assms(2,3) by (intro time_sub_gt_iff) simp_all
  then show "lastSeen (fst (checkLiveness now ks r)) node =
      (case lastSeen r node of None \<Rightarrow> None | Some t \<Rightarrow> if now - t > gracePeriod r then None else Some t)"
    and "node \<in> set (snd (checkLiveness now ks r)) \<longleftrightarrow> (\<exists>t. lastSeen r node = Some t \<and> now - t > gracePeriod r)"
    and "gracePeriod (fst (checkLiveness now ks r)) = gracePeriod r"
    using assms(1) by (auto simp: checkLiveness_def liveness_loop_eq range_order_def split: option.splits)
qed

lemma lease_ok_check:
  assumes "range_order ks (lastSeen (ls_reaper s))" and ok: "lease_ok delay node s"
  shows "lease_ok delay node (s\<lparr>ls_reaper := fst (checkLiveness (ls_now s) ks (ls_reaper s))\<rparr>)"
proof -
  have g: "0 \<le> gracePeriod (ls_reaper s)" "gracePeriod (ls_reaper s) < max_duration" using ok by (auto simp: lease_ok_def)
  note c = checkLiveness_at [OF assms(1) g]
  show ?thesis
  proof (cases "lastSeen (ls_reaper s) node")
    case None
    then show ?thesis using ok by (simp add: lease_ok_def c)
  next
    case (Some t)
    have "\<not> ls_now s < validUntil (ls_lease s) \<and> (\<forall>u \<in> in_flight s. \<not> ls_now s - u \<le> delay)" if "ls_now s - t > gracePeriod (ls_reaper s)"
      using ok Some that by (fastforce simp: lease_ok_def)
    then show ?thesis using ok Some by (auto simp: lease_ok_def c)
  qed
qed

interpretation leases: step_invariant "lease_step delay node" "lease_ok delay node" for delay node
proof
  fix s t
  assume "lease_step delay node s t" and ok: "lease_ok delay node s"
  then show "lease_ok delay node t"
  proof cases
    case (pass d)
    then show ?thesis using ok by (fastforce simp: lease_ok_def)
  next
    case heartbeat
    then show ?thesis using ok by (fastforce simp: lease_ok_def Track_def)
  next
    case (reply u)
    then show ?thesis using ok by (fastforce simp: lease_ok_def extendLease_def)
  next
    case (check ks)
    then show ?thesis using lease_ok_check ok by simp
  qed
qed

lemma lease_init_ok:
  "0 \<le> delay \<Longrightarrow> 0 \<le> dur \<Longrightarrow> dur + delay \<le> grace \<Longrightarrow> grace < max_duration \<Longrightarrow> zero_time \<le> now \<Longrightarrow>
   lease_ok delay node (lease_init now node dur grace)"
  by (simp add: lease_ok_def lease_init_def NewLeaseManager_def NewReaper_def)

section \<open>Properties\<close>


text \<open>The state after a heartbeat at time 0, its reply at time \<open>r\<close> and no more until time \<open>e\<close>.\<close>

definition quiet_node :: "duration \<Rightarrow> duration \<Rightarrow> go_time \<Rightarrow> go_time \<Rightarrow> LeaseState" where
  "quiet_node dur grace r e = \<lparr>ls_now = e, ls_lease = extendLease r (NewLeaseManager ''n1'' dur),
     ls_reaper = Track 0 ''n1'' (NewReaper grace), in_flight = {}\<rparr>"

lemma lease_run_step: "run (lease_step d n) s t \<Longrightarrow> lease_step d n t u \<Longrightarrow> run (lease_step d n) s u"
  by (rule run_step)

lemma quiet_node_run:
  assumes "0 \<le> r" and "r \<le> delay" and "r \<le> e"
  shows "run (lease_step delay ''n1'') (lease_init 0 ''n1'' dur grace) (quiet_node dur grace r e)"
proof -
  let ?s0 = "lease_init 0 ''n1'' dur grace"
  let ?s1 = "?s0\<lparr>ls_reaper := Track (ls_now ?s0) ''n1'' (ls_reaper ?s0), in_flight := insert (ls_now ?s0) (in_flight ?s0)\<rparr>"
  let ?s2 = "?s1\<lparr>ls_now := ls_now ?s1 + r\<rparr>"
  let ?s3 = "?s2\<lparr>ls_lease := extendLease (ls_now ?s2) (ls_lease ?s2), in_flight := in_flight ?s2 - {0}\<rparr>"
  let ?s4 = "?s3\<lparr>ls_now := ls_now ?s3 + (e - r)\<rparr>"
  have 1: "lease_step delay ''n1'' ?s0 ?s1" by (rule lease_step.heartbeat)
  have 2: "lease_step delay ''n1'' ?s1 ?s2" using assms(1) by (rule lease_step.pass)
  have 3: "lease_step delay ''n1'' ?s2 ?s3" using assms(2) by (intro lease_step.reply) (simp_all add: lease_init_def)
  have 4: "lease_step delay ''n1'' ?s3 ?s4" using assms(3) by (intro lease_step.pass) simp
  have "run (lease_step delay ''n1'') ?s0 ?s4"
    by (rule lease_run_step [OF lease_run_step [OF lease_run_step [OF lease_run_step [OF run_refl 1] 2] 3] 4])
  moreover have "?s4 = quiet_node dur grace r e" by (simp add: quiet_node_def lease_init_def)
  ultimately show ?thesis by simp
qed

lemma quiet_node_dead:
  assumes "0 \<le> grace" and "grace < max_duration" and "grace < e"
  shows "range_order [''n1''] (lastSeen (ls_reaper (quiet_node dur grace r e)))"
    and "''n1'' \<in> set (snd (checkLiveness (ls_now (quiet_node dur grace r e)) [''n1''] (ls_reaper (quiet_node dur grace r e))))"
proof -
  show o: "range_order [''n1''] (lastSeen (ls_reaper (quiet_node dur grace r e)))"
    by (simp add: range_order_def quiet_node_def Track_def NewReaper_def)
  have "lastSeen (ls_reaper (quiet_node dur grace r e)) ''n1'' = Some 0" "gracePeriod (ls_reaper (quiet_node dur grace r e)) = grace"
    "ls_now (quiet_node dur grace r e) = e"
    by (simp_all add: quiet_node_def Track_def NewReaper_def)
  then show "''n1'' \<in> set (snd (checkLiveness (ls_now (quiet_node dur grace r e)) [''n1''] (ls_reaper (quiet_node dur grace r e))))"
    using assms by (simp add: checkLiveness_at(2) [OF o])
qed


text \<open>With the values of the executables, a lease of five seconds and a grace period of five seconds, a node can be declared dead while its lease is
  valid: the reply to its last heartbeat takes one second, so the lease ends six seconds after the controller saw the heartbeat, and
  the check at five and a half seconds reports the node. For half a second two nodes accept writes for the same shards.\<close>
theorem lease_outlives_grace_period:
  "\<exists>s. run (lease_step heartbeat_timeout ''n1'') (lease_init 0 ''n1'' 5000000000 5000000000) s \<and>
     range_order [''n1''] (lastSeen (ls_reaper s)) \<and> ''n1'' \<in> set (snd (checkLiveness (ls_now s) [''n1''] (ls_reaper s))) \<and>
     IsActive (ls_now s) (ls_lease s)"
proof -
  let ?s = "quiet_node 5000000000 5000000000 1000000000 5500000000"
  have "run (lease_step heartbeat_timeout ''n1'') (lease_init 0 ''n1'' 5000000000 5000000000) ?s"
    by (rule quiet_node_run) (simp_all add: heartbeat_timeout_def)
  moreover have "IsActive (ls_now ?s) (ls_lease ?s)"
    by (simp add: IsActive_def quiet_node_def extendLease_def NewLeaseManager_def)
  moreover have "range_order [''n1''] (lastSeen (ls_reaper ?s))" "''n1'' \<in> set (snd (checkLiveness (ls_now ?s) [''n1''] (ls_reaper ?s)))"
    by (rule quiet_node_dead; simp add: max_duration_def)+
  ultimately show ?thesis by blast
qed

end
