(* ===== verification/Sha256.thy ===== *)
theory Sha256
  imports Prelude
begin

text \<open>
  The hash function of \<open>crypto/sha256\<close> and the encoder of \<open>encoding/hex\<close>, which \<open>pkg/api\<close> uses to derive idempotency tokens: SHA-256 as in
  FIPS 180-4, on bytes.
\<close>

section \<open>Functions and constants\<close>

type_synonym word32 = "32 word"

definition sha_Ch :: "word32 \<Rightarrow> word32 \<Rightarrow> word32 \<Rightarrow> word32" where
  "sha_Ch x y z = (x AND y) XOR (NOT x AND z)"

definition sha_Maj :: "word32 \<Rightarrow> word32 \<Rightarrow> word32 \<Rightarrow> word32" where
  "sha_Maj x y z = (x AND y) XOR (x AND z) XOR (y AND z)"

definition sha_Sigma0 :: "word32 \<Rightarrow> word32" where
  "sha_Sigma0 x = word_rotr 2 x XOR word_rotr 13 x XOR word_rotr 22 x"

definition sha_Sigma1 :: "word32 \<Rightarrow> word32" where
  "sha_Sigma1 x = word_rotr 6 x XOR word_rotr 11 x XOR word_rotr 25 x"

definition sha_sigma0 :: "word32 \<Rightarrow> word32" where
  "sha_sigma0 x = word_rotr 7 x XOR word_rotr 18 x XOR drop_bit 3 x"

definition sha_sigma1 :: "word32 \<Rightarrow> word32" where
  "sha_sigma1 x = word_rotr 17 x XOR word_rotr 19 x XOR drop_bit 10 x"

text \<open>
  The constants are the first 32 bits of the fractional parts of roots of the first primes: cube roots of 64 primes for the rounds, square roots of eight primes for the
  initial hash. \<open>floor_root e b n r\<close> finds the bits below \<open>b\<close> of the largest number whose power \<open>e\<close> is at most \<open>n\<close>.
\<close>

fun floor_root :: "nat \<Rightarrow> nat \<Rightarrow> int \<Rightarrow> int \<Rightarrow> int" where
  "floor_root e 0 n r = r"
| "floor_root e (Suc b) n r = floor_root e b n (if (r + 2 ^ b) ^ e \<le> n then r + 2 ^ b else r)"

definition small_primes :: "int list" where
  "small_primes = filter (\<lambda>p. list_all (\<lambda>d. p mod d \<noteq> 0) [2..p - 1]) [2..311]"

definition root_fraction :: "nat \<Rightarrow> int \<Rightarrow> word32" where
  "root_fraction e p = word_of_int (floor_root e 36 (p * 2 ^ (32 * e)) 0)"

definition sha_K :: "word32 list" where
  "sha_K = map (root_fraction 3) small_primes"

section \<open>Padding and blocks\<close>

text \<open>\<open>be_bytes n x\<close> is the number \<open>x\<close> in \<open>n\<close> bytes, the most significant first.\<close>

fun be_bytes :: "nat \<Rightarrow> int \<Rightarrow> byte list" where
  "be_bytes 0 x = []"
| "be_bytes (Suc n) x = be_bytes n (x div 256) @ [word_of_int (x mod 256)]"

definition sha_pad :: "byte list \<Rightarrow> byte list" where
  "sha_pad msg = msg @ [0x80] @ replicate (nat ((55 - int (length msg)) mod 64)) 0 @ be_bytes 8 (8 * int (length msg))"

fun be_words :: "byte list \<Rightarrow> word32 list" where
  "be_words (a # b # c # d # rest) = word_of_int (((uint a * 256 + uint b) * 256 + uint c) * 256 + uint d) # be_words rest"
| "be_words _ = []"

function chunks :: "nat \<Rightarrow> 'a list \<Rightarrow> 'a list list" where
  "chunks n xs = (if n = 0 \<or> xs = [] then [] else take n xs # chunks n (drop n xs))"
  by pat_completeness auto

termination by (relation "measure (\<lambda>(n, xs). length xs)") auto

declare chunks.simps [simp del]

section \<open>The compression function\<close>

text \<open>The message schedule, the last word first.\<close>

fun schedule :: "nat \<Rightarrow> word32 list \<Rightarrow> word32 list" where
  "schedule 0 ws = ws"
| "schedule (Suc n) ws = schedule n ((sha_sigma1 (ws ! 1) + ws ! 6 + sha_sigma0 (ws ! 14) + ws ! 15) # ws)"

text \<open>The eight working variables.\<close>

datatype sha_state = Sha word32 word32 word32 word32 word32 word32 word32 word32

fun sha_round :: "sha_state \<Rightarrow> word32 \<times> word32 \<Rightarrow> sha_state" where
  "sha_round (Sha a b c d e f g h) (k, w) =
     (let t1 = h + sha_Sigma1 e + sha_Ch e f g + k + w; t2 = sha_Sigma0 a + sha_Maj a b c
      in Sha (t1 + t2) a b c (d + t1) e f g)"

fun sha_add :: "sha_state \<Rightarrow> sha_state \<Rightarrow> sha_state" where
  "sha_add (Sha a b c d e f g h) (Sha a' b' c' d' e' f' g' h') =
     Sha (a + a') (b + b') (c + c') (d + d') (e + e') (f + f') (g + g') (h + h')"

definition sha_H0 :: sha_state where
  "sha_H0 = (let H = (\<lambda>i. root_fraction 2 (small_primes ! i)) in Sha (H 0) (H 1) (H 2) (H 3) (H 4) (H 5) (H 6) (H 7))"

definition compress :: "sha_state \<Rightarrow> word32 list \<Rightarrow> sha_state" where
  "compress s block = sha_add s (foldl sha_round s (zip sha_K (rev (schedule 48 (rev block)))))"

fun sha_words :: "sha_state \<Rightarrow> word32 list" where
  "sha_words (Sha a b c d e f g h) = [a, b, c, d, e, f, g, h]"

definition sha256_words :: "byte list \<Rightarrow> word32 list" where
  "sha256_words msg = sha_words (foldl compress sha_H0 (chunks 16 (be_words (sha_pad msg))))"

definition sha256 :: "byte list \<Rightarrow> byte list" where
  "sha256 msg = concat (map (\<lambda>w. be_bytes 4 (uint w)) (sha256_words msg))"

section \<open>Hexadecimal\<close>

definition hex_digit :: "nat \<Rightarrow> char" where
  "hex_digit n = ''0123456789abcdef'' ! n"

definition hex_encode :: "byte list \<Rightarrow> string" where
  "hex_encode bs = concat (map (\<lambda>b. [hex_digit (nat (uint b div 16)), hex_digit (nat (uint b mod 16))]) bs)"

section \<open>Shape\<close>

lemma be_bytes_length [simp]: "length (be_bytes n x) = n"
  by (induction n arbitrary: x) auto

text \<open>The padded message consists of whole blocks of 64 bytes.\<close>

lemma sha_pad_length: "length (sha_pad msg) mod 64 = 0"
proof -
  have "int (length (sha_pad msg)) = int (length msg) + 9 + (55 - int (length msg)) mod 64"
    by (simp add: sha_pad_def)
  also have "\<dots> mod 64 = (int (length msg) + 9 + (55 - int (length msg))) mod 64" by (rule mod_add_right_eq)
  finally have "int (length (sha_pad msg) mod 64) = 0" by (simp add: zmod_int)
  then show ?thesis by simp
qed

lemma schedule_length: "length (schedule n ws) = n + length ws"
  by (induction n arbitrary: ws) auto

lemma sha256_length: "length (sha256 msg) = 32"
proof -
  have "length (sha_words st) = 8" for st by (cases st) simp
  then have "length (sha256_words msg) = 8" by (simp add: sha256_words_def)
  moreover have "length (concat (map (\<lambda>w. be_bytes 4 (uint w)) ws)) = 4 * length ws" for ws :: "word32 list"
    by (induction ws) auto
  ultimately show ?thesis by (simp add: sha256_def)
qed

lemma hex_encode_length: "length (hex_encode bs) = 2 * length bs"
  by (induction bs) (auto simp: hex_encode_def)

end
