(* ===== verification/Api.thy ===== *)
theory Api
  imports Raft_Node Sha256
begin

text \<open>
  The HTTP API of \<open>pkg/api\<close> in front of a Raft node: the cache of completed requests, the cache of the leader, the retry loop and the
  handlers. The Raft node is an environment with a state \<open>'w\<close>: \<open>Forward\<close> and \<open>ForwardGet\<close> of \<open>Raft_Node\<close> as calls with an
  outcome, the local application, and the clock. Errors are their texts.

  The delays of the retry loop are random; they are an argument.
\<close>

section \<open>Completed requests\<close>

record IdempotencyCacheEntry =
  ic_Response :: BroadcastResponse
  CompletedAt :: go_time

record IdempotencyCache =
  ic_entries :: "string \<rightharpoonup> IdempotencyCacheEntry"
  ic_ttl :: duration

definition NewIdempotencyCache :: "duration \<Rightarrow> IdempotencyCache" where
  "NewIdempotencyCache ttl = \<lparr>ic_entries = Map.empty, ic_ttl = ttl\<rparr>"

definition IdempotencyCache_Get :: "go_time \<Rightarrow> string \<Rightarrow> IdempotencyCache \<Rightarrow> BroadcastResponse option" where
  "IdempotencyCache_Get now token c =
     (case ic_entries c token of
        None \<Rightarrow> None
      | Some entry \<Rightarrow> if time_sub now (CompletedAt entry) > ic_ttl c then None else Some (ic_Response entry))"

definition IdempotencyCache_Set :: "go_time \<Rightarrow> string \<Rightarrow> BroadcastResponse \<Rightarrow> IdempotencyCache \<Rightarrow> IdempotencyCache" where
  "IdempotencyCache_Set now token response c =
     c\<lparr>ic_entries := (ic_entries c)(token \<mapsto> \<lparr>ic_Response = response, CompletedAt = now\<rparr>)\<rparr>"

text \<open>One round of \<open>cleanupExpired\<close>, over the tokens in the order of the loop.\<close>

fun cleanup_loop :: "go_time \<Rightarrow> duration \<Rightarrow> string list \<Rightarrow> (string \<rightharpoonup> IdempotencyCacheEntry) \<Rightarrow> (string \<rightharpoonup> IdempotencyCacheEntry)" where
  "cleanup_loop now ttl [] entries = entries"
| "cleanup_loop now ttl (token # tokens) entries = cleanup_loop now ttl tokens
     (case entries token of
        None \<Rightarrow> entries
      | Some entry \<Rightarrow> if time_sub now (CompletedAt entry) > ttl then entries(token := None) else entries)"

definition cleanupExpired :: "go_time \<Rightarrow> string list \<Rightarrow> IdempotencyCache \<Rightarrow> IdempotencyCache" where
  "cleanupExpired now tokens c = c\<lparr>ic_entries := cleanup_loop now (ic_ttl c) tokens (ic_entries c)\<rparr>"

section \<open>The leader\<close>

record LeaderCache =
  lc_leaderID :: int
  lc_leaderAddr :: string
  lc_lastUpdate :: go_time
  lc_ttl :: duration

definition NewLeaderCache :: "duration \<Rightarrow> LeaderCache" where
  "NewLeaderCache ttl = \<lparr>lc_leaderID = -1, lc_leaderAddr = [], lc_lastUpdate = zero_time, lc_ttl = ttl\<rparr>"

definition LeaderCache_Get :: "go_time \<Rightarrow> LeaderCache \<Rightarrow> int \<times> string \<times> bool" where
  "LeaderCache_Get now lc =
     (if time_sub now (lc_lastUpdate lc) > lc_ttl lc then (-1, [], False) else (lc_leaderID lc, lc_leaderAddr lc, True))"

definition LeaderCache_Set :: "go_time \<Rightarrow> int \<Rightarrow> string \<Rightarrow> LeaderCache \<Rightarrow> LeaderCache" where
  "LeaderCache_Set now leaderID leaderAddr lc = lc\<lparr>lc_leaderID := leaderID, lc_leaderAddr := leaderAddr, lc_lastUpdate := now\<rparr>"

definition LeaderCache_Invalidate :: "LeaderCache \<Rightarrow> LeaderCache" where
  "LeaderCache_Invalidate lc = lc\<lparr>lc_lastUpdate := zero_time\<rparr>"

section \<open>Retries\<close>

definition isRetryableError :: "string \<Rightarrow> bool" where
  "isRetryableError err =
     (let errStr = to_lower err
      in if list_ex (\<lambda>pattern. go_contains pattern errStr)
           [''timeout'', ''no leader'', ''election in progress'', ''leader unavailable'', ''network'', ''connection refused'', ''eof'',
            ''deadline exceeded''] then True
         else if list_ex (\<lambda>pattern. go_contains pattern errStr) [''invalid'', ''bad request'', ''not found'', ''conflict''] then False
         else True)"

record 'w RaftEnv =
  re_Forward :: "byte list pb_Message \<Rightarrow> 'w \<Rightarrow> 'w \<times> (string + ForwardResponse)"
  re_ForwardGet :: "int \<Rightarrow> 'w \<Rightarrow> 'w \<times> (string + int \<times> bool)"
  re_GetValue :: "int \<Rightarrow> 'w \<Rightarrow> int"
  re_clock :: "'w \<Rightarrow> go_time"
  re_sleep :: "duration \<Rightarrow> 'w \<Rightarrow> 'w"

datatype retry_error = NotRetryable string | DeadlineExceeded | MaxAttemptsExceeded string

text \<open>
  \<open>ExecuteWithRetry\<close>: \<open>fn\<close> is one attempt, with the text of its error. The loop sleeps between attempts, and wakes up at the deadline of the context
  if that comes first. The argument \<open>n\<close> is the number of attempts left, \<open>attempt\<close> the number of those made.
\<close>

fun retry_loop :: "'w RaftEnv \<Rightarrow> (nat \<Rightarrow> duration) \<Rightarrow> go_time \<Rightarrow> ('w \<Rightarrow> 'w \<times> string option) \<Rightarrow> nat \<Rightarrow> nat \<Rightarrow> string \<Rightarrow> 'w \<Rightarrow>
    'w \<times> retry_error option" where
  "retry_loop env delays deadline fn attempt 0 lastErr w = (w, Some (MaxAttemptsExceeded lastErr))"
| "retry_loop env delays deadline fn attempt (Suc n) lastErr w =
     (case fn w of
        (w', None) \<Rightarrow> (w', None)
      | (w', Some err) \<Rightarrow>
          if \<not> isRetryableError err then (w', Some (NotRetryable err))
          else if n = 0 then retry_loop env delays deadline fn (Suc attempt) n err w'
          else if re_clock env w' + delays attempt < deadline
          then retry_loop env delays deadline fn (Suc attempt) n err (re_sleep env (delays attempt) w')
          else (re_sleep env (max 0 (deadline - re_clock env w')) w', Some DeadlineExceeded))"

definition ExecuteWithRetry :: "'w RaftEnv \<Rightarrow> (nat \<Rightarrow> duration) \<Rightarrow> int \<Rightarrow> go_time \<Rightarrow> ('w \<Rightarrow> 'w \<times> string option) \<Rightarrow> 'w \<Rightarrow>
    'w \<times> retry_error option" where
  "ExecuteWithRetry env delays maxAttempts deadline fn w = retry_loop env delays deadline fn 0 (nat maxAttempts) [] w"

text \<open>The configuration of the server's retrier, for puts and deletes.\<close>

definition put_MaxAttempts :: int where
  "put_MaxAttempts = 3"

section \<open>Handlers\<close>

record PutRequest =
  pr_Key :: int
  pr_Value :: int

text \<open>\<open>key\<close> is the header \<open>Idempotency-Key\<close>, \<open>client\<close> the header \<open>X-Client-ID\<close> and \<open>remote\<close> the peer's address; missing headers are empty.\<close>

record api_headers =
  h_Idempotency :: string
  h_Client :: string
  h_Remote :: string

definition getClientID :: "api_headers \<Rightarrow> string" where
  "getClientID h = (if h_Client h = [] then h_Remote h else h_Client h)"

definition generateIdempotencyToken :: "PutRequest \<Rightarrow> string \<Rightarrow> string" where
  "generateIdempotencyToken req clientID =
     hex_encode (sha256 (bytes_of (clientID @ '':'' @ itoa (pr_Key req) @ '':'' @ itoa (pr_Value req))))"

definition put_token :: "PutRequest \<Rightarrow> api_headers \<Rightarrow> string" where
  "put_token req h = (if h_Idempotency h = [] then generateIdempotencyToken req (getClientID h) else h_Idempotency h)"

definition delete_token :: "int \<Rightarrow> api_headers \<Rightarrow> string" where
  "delete_token key h =
     (if h_Idempotency h = [] then hex_encode (sha256 (bytes_of (''DELETE:'' @ getClientID h @ '':'' @ itoa key))) else h_Idempotency h)"

text \<open>The body of an answer: success and whether it came from the cache, a value, or none.\<close>

datatype api_body = Stored bool bool | Found int int bool | ErrorBody

definition put_message :: "PutRequest \<Rightarrow> api_headers \<Rightarrow> byte list pb_Message" where
  "put_message req h = \<lparr>pb_Type = 1, pb_Key = int32 (pr_Key req), pb_Value = Some (int32 (pr_Value req)), pb_CommandPayload = [],
     pb_IdempotencyToken = put_token req h, pb_ClientId = getClientID h\<rparr>"

definition delete_message :: "int \<Rightarrow> api_headers \<Rightarrow> byte list pb_Message" where
  "delete_message key h = \<lparr>pb_Type = 2, pb_Key = int32 key, pb_Value = None, pb_CommandPayload = [],
     pb_IdempotencyToken = delete_token key h, pb_ClientId = getClientID h\<rparr>"

text \<open>
  What \<open>handlePut\<close> and \<open>handleDelete\<close> do with a token and a message: answer from the cache, or forward with retries, remember the outcome and
  answer. The success of the last attempt travels in a variable of the handler, which is the first component of the state of the attempts.
\<close>

definition forward_attempt :: "'w RaftEnv \<Rightarrow> byte list pb_Message \<Rightarrow> bool \<times> 'w \<Rightarrow> (bool \<times> 'w) \<times> string option" where
  "forward_attempt env msg st =
     (case re_Forward env msg (snd st) of
        (w', Inl err) \<Rightarrow> ((fst st, w'), Some err)
      | (w', Inr resp) \<Rightarrow> ((fw_Success resp, w'), None))"

definition lift_env :: "'w RaftEnv \<Rightarrow> (bool \<times> 'w) RaftEnv" where
  "lift_env env =
     \<lparr>re_Forward = (\<lambda>m (b, w). case re_Forward env m w of (w', r) \<Rightarrow> ((b, w'), r)),
      re_ForwardGet = (\<lambda>k (b, w). case re_ForwardGet env k w of (w', r) \<Rightarrow> ((b, w'), r)),
      re_GetValue = (\<lambda>k (b, w). re_GetValue env k w), re_clock = (\<lambda>(b, w). re_clock env w),
      re_sleep = (\<lambda>d (b, w). (b, re_sleep env d w))\<rparr>"

definition error_text :: "retry_error \<Rightarrow> string" where
  "error_text e = (case e of NotRetryable s \<Rightarrow> s | MaxAttemptsExceeded s \<Rightarrow> s | DeadlineExceeded \<Rightarrow> [])"

definition forward_request :: "'w RaftEnv \<Rightarrow> (nat \<Rightarrow> duration) \<Rightarrow> string \<Rightarrow> byte list pb_Message \<Rightarrow> IdempotencyCache \<Rightarrow> 'w \<Rightarrow>
    'w \<times> IdempotencyCache \<times> http_status \<times> api_body" where
  "forward_request env delays token msg c w =
     (case IdempotencyCache_Get (re_clock env w) token c of
        Some cached \<Rightarrow> (w, c, StatusOK, Stored (br_Success cached) True)
      | None \<Rightarrow>
          let deadline = re_clock env w + 15000000000
          in (case ExecuteWithRetry (lift_env env) delays put_MaxAttempts deadline (forward_attempt env msg) (False, w) of
                ((success, w'), Some err) \<Rightarrow>
                  (w', c,
                   if err = DeadlineExceeded \<or> deadline \<le> re_clock env w' then StatusGatewayTimeout
                   else if go_contains ''no leader'' (error_text err) then StatusServiceUnavailable
                   else StatusInternalServerError, ErrorBody)
              | ((success, w'), None) \<Rightarrow>
                  (w', IdempotencyCache_Set (re_clock env w') token \<lparr>br_Success = success, br_Value = 0, br_Error = None\<rparr> c,
                   StatusOK, Stored success False)))"

definition handlePut :: "'w RaftEnv \<Rightarrow> (nat \<Rightarrow> duration) \<Rightarrow> PutRequest option \<Rightarrow> api_headers \<Rightarrow> IdempotencyCache \<Rightarrow> 'w \<Rightarrow>
    'w \<times> IdempotencyCache \<times> http_status \<times> api_body" where
  "handlePut env delays body h c w =
     (case body of
        None \<Rightarrow> (w, c, StatusBadRequest, ErrorBody)
      | Some req \<Rightarrow> forward_request env delays (put_token req h) (put_message req h) c w)"

definition handleDelete :: "'w RaftEnv \<Rightarrow> (nat \<Rightarrow> duration) \<Rightarrow> int \<Rightarrow> api_headers \<Rightarrow> IdempotencyCache \<Rightarrow> 'w \<Rightarrow>
    'w \<times> IdempotencyCache \<times> http_status \<times> api_body" where
  "handleDelete env delays key h c w = forward_request env delays (delete_token key h) (delete_message key h) c w"

definition handleGet :: "'w RaftEnv \<Rightarrow> int \<Rightarrow> bool \<Rightarrow> 'w \<Rightarrow> 'w \<times> http_status \<times> api_body" where
  "handleGet env key stale w =
     (if stale then (w, StatusOK, Found key (re_GetValue env key w) True)
      else
        let deadline = re_clock env w + 2000000000
        in (case re_ForwardGet env (int32 key) w of
              (w', Inl err) \<Rightarrow> (w', if deadline \<le> re_clock env w' then StatusGatewayTimeout else StatusInternalServerError, ErrorBody)
            | (w', Inr (val, found)) \<Rightarrow> (w', StatusOK, Found key val found)))"

definition handleKV :: "'w RaftEnv \<Rightarrow> (nat \<Rightarrow> duration) \<Rightarrow> string \<Rightarrow> PutRequest option \<Rightarrow> api_headers \<Rightarrow> IdempotencyCache \<Rightarrow> 'w \<Rightarrow>
    'w \<times> IdempotencyCache \<times> http_status \<times> api_body" where
  "handleKV env delays method body h c w =
     (if method = ''POST'' then handlePut env delays body h c w else (w, c, StatusMethodNotAllowed, ErrorBody))"

definition trim_prefix :: "string \<Rightarrow> string \<Rightarrow> string" where
  "trim_prefix p s = (if has_prefix p s then drop (length p) s else s)"

definition handleKVWithKey :: "'w RaftEnv \<Rightarrow> (nat \<Rightarrow> duration) \<Rightarrow> string \<Rightarrow> string \<Rightarrow> string \<Rightarrow> api_headers \<Rightarrow> IdempotencyCache \<Rightarrow> 'w \<Rightarrow>
    'w \<times> IdempotencyCache \<times> http_status \<times> api_body" where
  "handleKVWithKey env delays method path stale h c w =
     (case atoi (trim_prefix ''/kv/'' path) of
        None \<Rightarrow> (w, c, StatusBadRequest, ErrorBody)
      | Some key \<Rightarrow>
          if method = ''GET'' then (case handleGet env key (stale = ''true'') w of (w', status, body) \<Rightarrow> (w', c, status, body))
          else if method = ''DELETE'' then handleDelete env delays key h c w
          else (w, c, StatusMethodNotAllowed, ErrorBody))"

section \<open>Status\<close>

record StatusResponse =
  st_NodeID :: int
  st_Role :: Role
  st_Term :: int
  st_LeaderID :: int
  st_TotalNodes :: int

definition GetStatus :: "('d, 'a) Raft \<Rightarrow> StatusResponse" where
  "GetStatus r = \<lparr>st_NodeID = raft_id r, st_Role = currentRole r, st_Term = currentTerm r, st_LeaderID = currentLeaderId r,
     st_TotalNodes = totalNodes r\<rparr>"

definition handleStatus :: "('d, 'a) Raft \<Rightarrow> StatusResponse" where
  "handleStatus r = GetStatus r"

definition handleLeader :: "('d, 'a) Raft \<Rightarrow> bool \<times> int" where
  "handleLeader r = (IsLeader r, st_LeaderID (GetStatus r))"

text \<open>
  The routes of \<open>Start\<close>, for a path in the normal form to which \<open>http.ServeMux\<close> redirects other ones. \<open>raft\<close> is the node of the server in a state
  of the world; \<open>stale\<close> is the query parameter of that name.
\<close>

datatype api_reply = KVReply http_status api_body | HealthReply string | StatusReply StatusResponse | LeaderReply "bool \<times> int" | NoRoute

definition api_mux :: "'w RaftEnv \<Rightarrow> ('w \<Rightarrow> ('d, 'a) Raft) \<Rightarrow> (nat \<Rightarrow> duration) \<Rightarrow> string \<Rightarrow> string \<Rightarrow> string \<Rightarrow> PutRequest option \<Rightarrow> api_headers \<Rightarrow>
    IdempotencyCache \<Rightarrow> 'w \<Rightarrow> 'w \<times> IdempotencyCache \<times> api_reply" where
  "api_mux env raft delays method path stale body h c w =
     (if path = ''/kv'' then (case handleKV env delays method body h c w of (w', c', status, reply) \<Rightarrow> (w', c', KVReply status reply))
      else if has_prefix ''/kv/'' path then
        (case handleKVWithKey env delays method path stale h c w of (w', c', status, reply) \<Rightarrow> (w', c', KVReply status reply))
      else if path = ''/health'' then (w, c, HealthReply ''healthy'')
      else if path = ''/status'' then (w, c, StatusReply (handleStatus (raft w)))
      else if path = ''/leader'' then (w, c, LeaderReply (handleLeader (raft w)))
      else (w, c, NoRoute))"

text \<open>The caches of a new server.\<close>

definition api_NewServer :: "IdempotencyCache \<times> LeaderCache" where
  "api_NewServer = (NewIdempotencyCache 300000000000, NewLeaderCache 1000000000)"

section \<open>The cache of completed requests\<close>

lemma cleanup_loop_eq:
  "distinct tokens \<Longrightarrow> cleanup_loop now ttl tokens entries token =
     (case entries token of
        None \<Rightarrow> None
      | Some entry \<Rightarrow> if token \<in> set tokens \<and> time_sub now (CompletedAt entry) > ttl then None else Some entry)"
proof (induction tokens arbitrary: entries)
  case (Cons t tokens)
  show ?case
  proof (cases "t = token")
    case True
    then have "token \<notin> set tokens" using Cons.prems by simp
    with Cons True show ?thesis by (auto split: option.splits)
  next
    case False
    with Cons show ?thesis by (auto split: option.splits)
  qed
qed (simp split: option.splits)

lemma Get_Set_same: "time_sub now' now \<le> ic_ttl c \<Longrightarrow> IdempotencyCache_Get now' token (IdempotencyCache_Set now token r c) = Some r"
  by (simp add: IdempotencyCache_Get_def IdempotencyCache_Set_def)

lemma Get_Set_other: "token' \<noteq> token \<Longrightarrow> IdempotencyCache_Get now' token' (IdempotencyCache_Set now token r c) = IdempotencyCache_Get now' token' c"
  by (simp add: IdempotencyCache_Get_def IdempotencyCache_Set_def split: option.splits)

lemma forward_request_cached:
  "IdempotencyCache_Get (re_clock env w) token c = Some r \<Longrightarrow>
   forward_request env delays token msg c w = (w, c, StatusOK, Stored (br_Success r) True)"
  by (simp add: forward_request_def)

lemma forward_request_fresh:
  assumes "forward_request env delays token msg c w = (w', c', StatusOK, Stored b False)"
  shows "IdempotencyCache_Get (re_clock env w) token c = None \<and>
    c' = IdempotencyCache_Set (re_clock env w') token \<lparr>br_Success = b, br_Value = 0, br_Error = None\<rparr> c"
  using assms by (auto simp: forward_request_def Let_def split: option.splits prod.splits)

section \<open>Properties\<close>

text \<open>A write that repeats an earlier one is swallowed. When a client puts a value, puts something else, and then puts the first
  value again within the time to live of the cache, the third request is answered with the first one's success from the cache and nothing is forwarded
  to Raft: the state is the one after the second request. Without the header \<open>Idempotency-Key\<close> the token is the hash of client, key
  and value, so that writing a value, overwriting it and writing it again is such a case.\<close>
theorem repeated_put_is_swallowed:
  assumes "handlePut env delays (Some req) h c w1 = (w2, c2, StatusOK, Stored b False)"
    and "handlePut env delays' (Some req') h' c2 w2 = (w3, c3, StatusOK, Stored b' False)"
    and "0 \<le> ic_ttl c" and "time_sub (re_clock env w3) (re_clock env w2) \<le> ic_ttl c"
  shows "handlePut env delays'' (Some req) h c3 w3 = (w3, c3, StatusOK, Stored b True)"
proof -
  let ?t = "put_token req h" and ?t' = "put_token req' h'" and ?r = "\<lparr>br_Success = b, br_Value = 0, br_Error = None\<rparr>"
  from assms(1) have f: "forward_request env delays ?t (put_message req h) c w1 = (w2, c2, StatusOK, Stored b False)"
    by (simp add: handlePut_def)
  from assms(2) have f': "forward_request env delays' ?t' (put_message req' h') c2 w2 = (w3, c3, StatusOK, Stored b' False)"
    by (simp add: handlePut_def)
  have c2: "c2 = IdempotencyCache_Set (re_clock env w2) ?t ?r c" using forward_request_fresh [OF f] by blast
  have 3: "IdempotencyCache_Get (re_clock env w2) ?t' c2 = None"
    "c3 = IdempotencyCache_Set (re_clock env w3) ?t' \<lparr>br_Success = b', br_Value = 0, br_Error = None\<rparr> c2"
    using forward_request_fresh [OF f'] by blast+
  have "time_sub (re_clock env w2) (re_clock env w2) \<le> ic_ttl c" using assms(3) by (simp add: time_sub_def max_duration_def)
  then have "?t' \<noteq> ?t" using 3(1) Get_Set_same [of "re_clock env w2" "re_clock env w2" c ?t ?r] by (auto simp: c2)
  then have "IdempotencyCache_Get (re_clock env w3) ?t c3 = Some ?r"
    using Get_Set_same [OF assms(4)] by (simp add: 3(2) Get_Set_other c2)
  from forward_request_cached [OF this] show ?thesis by (simp add: handlePut_def)
qed

text \<open>An environment that stores what is forwarded in a map.\<close>

definition map_env :: "(int \<rightharpoonup> int) RaftEnv" where
  "map_env = \<lparr>re_Forward = (\<lambda>m w. (if pb_Type m = 1 then w(pb_Key m := pb_Value m) else w(pb_Key m := None), Inr \<lparr>fw_Success = True, fw_Value = 0\<rparr>)),
     re_ForwardGet = (\<lambda>k w. (w, Inr (case w k of None \<Rightarrow> (0, False) | Some v \<Rightarrow> (v, True)))),
     re_GetValue = (\<lambda>k w. case w k of None \<Rightarrow> 0 | Some v \<Rightarrow> v), re_clock = (\<lambda>_. 0), re_sleep = (\<lambda>_ w. w)\<rparr>"

lemma map_env_put:
  assumes "IdempotencyCache_Get 0 (put_token req h) c = None"
  shows "handlePut map_env delays (Some req) h c w = (w(int32 (pr_Key req) \<mapsto> int32 (pr_Value req)),
    IdempotencyCache_Set 0 (put_token req h) \<lparr>br_Success = True, br_Value = 0, br_Error = None\<rparr> c, StatusOK, Stored True False)"
  using assms by (simp add: handlePut_def forward_request_def ExecuteWithRetry_def put_MaxAttempts_def forward_attempt_def map_env_def
      put_message_def numeral_eq_Suc)

theorem repeated_put_is_swallowed_witness:
  "\<exists>w3 c3. handlePut map_env (\<lambda>_. 0) (Some \<lparr>pr_Key = 5, pr_Value = 1\<rparr>) \<lparr>h_Idempotency = [], h_Client = ''c'', h_Remote = []\<rparr> c3 w3 =
     (w3, c3, StatusOK, Stored True True) \<and> w3 5 = Some 2"
proof -
  let ?h = "\<lparr>h_Idempotency = [], h_Client = ''c'', h_Remote = []\<rparr>" and ?h' = "\<lparr>h_Idempotency = ''x'', h_Client = ''c'', h_Remote = []\<rparr>"
  let ?req = "\<lparr>pr_Key = 5, pr_Value = 1\<rparr>" and ?req' = "\<lparr>pr_Key = 5, pr_Value = 2\<rparr>"
  let ?c = "NewIdempotencyCache 300000000000" let ?r = "\<lparr>br_Success = True, br_Value = 0, br_Error = None\<rparr>"
  have i: "int32 5 = 5" "int32 1 = 1" "int32 2 = 2" by (simp_all add: int32_eq_iff in_int32_def)
  have t': "put_token ?req' ?h' = ''x''" by (simp add: put_token_def)
  have "length (put_token ?req ?h) = 64" by (simp add: put_token_def generateIdempotencyToken_def hex_encode_length sha256_length)
  then have ne: "put_token ?req ?h \<noteq> ''x''" by auto
  let ?c2 = "IdempotencyCache_Set 0 (put_token ?req ?h) ?r ?c"
  have 1: "handlePut map_env (\<lambda>_. 0) (Some ?req) ?h ?c Map.empty = ([5 \<mapsto> 1], ?c2, StatusOK, Stored True False)"
    using map_env_put [of ?req ?h ?c "\<lambda>_. 0" Map.empty] i by (simp add: IdempotencyCache_Get_def NewIdempotencyCache_def)
  have 2: "handlePut map_env (\<lambda>_. 0) (Some ?req') ?h' ?c2 [5 \<mapsto> 1] =
      ([5 \<mapsto> 2], IdempotencyCache_Set 0 ''x'' ?r ?c2, StatusOK, Stored True False)"
    using map_env_put [of ?req' ?h' ?c2 "\<lambda>_. 0" "[5 \<mapsto> 1]"] i ne t'
    by (simp add: IdempotencyCache_Get_def IdempotencyCache_Set_def NewIdempotencyCache_def)
  have "handlePut map_env (\<lambda>_. 0) (Some ?req) ?h (IdempotencyCache_Set 0 ''x'' ?r ?c2) [5 \<mapsto> 2] =
      ([5 \<mapsto> 2], IdempotencyCache_Set 0 ''x'' ?r ?c2, StatusOK, Stored True True)"
    by (rule repeated_put_is_swallowed [OF 1 2]) (simp_all add: map_env_def time_sub_def max_duration_def NewIdempotencyCache_def)
  then show ?thesis by (intro exI [of _ "[5 \<mapsto> 2]"]) auto
qed

text \<open>Keys and values are cut to 32 bits on the way to Raft: with the same idempotency key, a put of a key and value that differ from another's by
  multiples of two to the thirty-second is the same request, so that it overwrites the other key.\<close>
theorem put_keys_alias:
  assumes "h_Idempotency h \<noteq> []" and "pr_Key req' = pr_Key req + 2 ^ 32 * m" and "pr_Value req' = pr_Value req + 2 ^ 32 * n"
  shows "handlePut env delays (Some req') h c w = handlePut env delays (Some req) h c w"
proof -
  have "int32 (x + 2 ^ 32 * k) = int32 x" for x k
    by (simp add: int32_def signed_take_bit_eq_iff_take_bit_eq take_bit_eq_mod)
  then have "put_message req' h = put_message req h" using assms by (simp add: put_message_def put_token_def)
  then show ?thesis using assms(1) by (simp add: handlePut_def put_token_def)
qed

theorem put_keys_alias_witness:
  "handlePut map_env (\<lambda>_. 0) (Some \<lparr>pr_Key = 4294967301, pr_Value = 7\<rparr>) \<lparr>h_Idempotency = ''t'', h_Client = [], h_Remote = []\<rparr> (NewIdempotencyCache 5) Map.empty =
   handlePut map_env (\<lambda>_. 0) (Some \<lparr>pr_Key = 5, pr_Value = 7\<rparr>) \<lparr>h_Idempotency = ''t'', h_Client = [], h_Remote = []\<rparr> (NewIdempotencyCache 5) Map.empty"
  by (rule put_keys_alias [where m = 1 and n = 0]) simp_all

text \<open>The clean-up of the cache is invisible: whatever the order in which it visits the entries, a request at the same or a later time finds
  the same cached answer with and without it.\<close>
theorem cleanup_is_invisible:
  assumes "range_order tokens (ic_entries c)" and "now \<le> later"
  shows "IdempotencyCache_Get later token (cleanupExpired now tokens c) = IdempotencyCache_Get later token c"
proof -
  have "ic_ttl c < time_sub later t" if "ic_ttl c < time_sub now t" for t
    using that assms(2) by (auto simp: time_sub_def)
  then show ?thesis
    using assms(1) by (auto simp: IdempotencyCache_Get_def cleanupExpired_def cleanup_loop_eq range_order_def split: option.splits)
qed

theorem cleanup_is_invisible_witness:
  "IdempotencyCache_Get 30 ''t'' (cleanupExpired 20 [''t''] (IdempotencyCache_Set 1 ''t'' \<lparr>br_Success = True, br_Value = 0, br_Error = None\<rparr> (NewIdempotencyCache 5))) = None"
proof -
  let ?c = "IdempotencyCache_Set 1 ''t'' \<lparr>br_Success = True, br_Value = 0, br_Error = None\<rparr> (NewIdempotencyCache 5)"
  have "range_order [''t''] (ic_entries ?c)" by (simp add: range_order_def IdempotencyCache_Set_def NewIdempotencyCache_def)
  from cleanup_is_invisible [OF this, of 20 30 "''t''"] show ?thesis
    by (simp add: IdempotencyCache_Get_def IdempotencyCache_Set_def NewIdempotencyCache_def time_sub_def max_duration_def)
qed

end
