(* ===== verification/Connection.thy ===== *)
theory Connection
  imports Prelude
begin

text \<open>
  Configuration and connections of a Raft node: \<open>config.go\<close> and \<open>connection_manager.go\<close> of \<open>pkg/raft\<close>.

  The gRPC library is outside the repository: a connection is a number, and its connectivity state is an argument wherever the code asks for it. Floating-point numbers occur only
  as the multiplier of the backoff; they are a type \<open>'f\<close>, and what is done with them (\<open>strconv.ParseFloat\<close>, scaling a duration) is an argument, as
  is \<open>time.ParseDuration\<close>, whose fractions are computed in floating point.
\<close>

section \<open>Configuration\<close>

datatype StartupMode = StartAlways | WaitForQuorum | WaitForAnyPeer

record 'f RetryConfig =
  InitialBackoff :: duration
  MaxBackoff :: duration
  Multiplier :: 'f
  MaxRetries :: int

record 'f Config =
  logsFilename :: string
  metadataFilename :: string
  snapshotFilename :: string
  cfg_totalNodes :: int
  cfg_raftId :: int
  cfg_raftAddrs :: "string list"
  cfg_snapshotThreshold :: int
  connectionRetryConfig :: "'f RetryConfig"
  connectionTimeout :: duration
  healthCheckInterval :: duration
  startupMode :: StartupMode
  artificialDelay :: duration

text \<open>The environment variables; \<open>os.Getenv\<close> yields the empty string for one that is not set.\<close>

type_synonym environment = "string \<rightharpoonup> string"

definition getenv :: "environment \<Rightarrow> string \<Rightarrow> string" where
  "getenv e key = str_at e key"

definition getEnvWith :: "(string \<Rightarrow> 'x option) \<Rightarrow> environment \<Rightarrow> string \<Rightarrow> 'x \<Rightarrow> 'x" where
  "getEnvWith parse e key defaultVal =
     (if getenv e key = [] then defaultVal else (case parse (getenv e key) of Some x \<Rightarrow> x | None \<Rightarrow> defaultVal))"

definition getEnvDuration :: "(string \<Rightarrow> duration option) \<Rightarrow> environment \<Rightarrow> string \<Rightarrow> duration \<Rightarrow> duration" where
  "getEnvDuration parseDuration e key defaultVal = getEnvWith parseDuration e key defaultVal"

definition getEnvFloat :: "(string \<Rightarrow> 'f option) \<Rightarrow> environment \<Rightarrow> string \<Rightarrow> 'f \<Rightarrow> 'f" where
  "getEnvFloat parseFloat e key defaultVal = getEnvWith parseFloat e key defaultVal"

definition getEnvInt :: "environment \<Rightarrow> string \<Rightarrow> int \<Rightarrow> int" where
  "getEnvInt e key defaultVal = getEnvWith atoi e key defaultVal"

text \<open>Go's division of integers truncates towards zero. \<open>rand.Intn(n)\<close> panics unless \<open>n\<close> is positive; its result is an argument.\<close>

definition go_quot :: "int \<Rightarrow> int \<Rightarrow> int" where
  "go_quot a b = sgn a * sgn b * (\<bar>a\<bar> div \<bar>b\<bar>)"

definition rand_Intn :: "nat \<Rightarrow> int \<Rightarrow> int option" where
  "rand_Intn r n = (if n \<le> 0 then None else Some (int r mod n))"

text \<open>A required number: \<^term>\<open>None\<close> is one of the panics of \<open>LoadConfig\<close>.\<close>

definition required_int :: "environment \<Rightarrow> string \<Rightarrow> int option" where
  "required_int e key =
     (case e key of
        None \<Rightarrow> None
      | Some str \<Rightarrow> if str = [] then None else atoi str)"

definition snapshot_threshold :: "nat \<Rightarrow> int \<Rightarrow> int option" where
  "snapshot_threshold r t = do {
     d \<leftarrow> rand_Intn r (go_quot t 10);
     Some (t + d - go_quot t 20)
   }"

definition LoadConfig :: "(string \<Rightarrow> duration option) \<Rightarrow> (string \<Rightarrow> 'f option) \<Rightarrow> 'f \<Rightarrow> nat \<Rightarrow> environment \<Rightarrow> 'f Config option" where
  "LoadConfig parseDuration parseFloat two r e = do {
     filename \<leftarrow> (case e ''FILENAME'' of None \<Rightarrow> None | Some f \<Rightarrow> if f = [] then None else Some f);
     totalNodes \<leftarrow> required_int e ''TOTAL_NODES'';
     threshold \<leftarrow> required_int e ''SNAPSHOT_THRESHOLD'';
     snapshotThreshold \<leftarrow> snapshot_threshold r threshold;
     raftId \<leftarrow> required_int e ''RAFT_ID'';
     raftAddrs \<leftarrow> (if getenv e ''RAFT_ADDRS'' = [] then None else Some (go_split (CHR '','') (getenv e ''RAFT_ADDRS'')));
     if go_len raftAddrs \<noteq> totalNodes then None
     else Some
       \<lparr>logsFilename = filename @ ''.logs'', metadataFilename = filename @ ''.meta'', snapshotFilename = filename @ ''.snap'',
        cfg_totalNodes = totalNodes, cfg_raftId = raftId, cfg_raftAddrs = raftAddrs, cfg_snapshotThreshold = snapshotThreshold,
        connectionRetryConfig =
          \<lparr>InitialBackoff = getEnvDuration parseDuration e ''RAFT_INITIAL_BACKOFF'' 1000000000,
           MaxBackoff = getEnvDuration parseDuration e ''RAFT_MAX_BACKOFF'' 30000000000,
           Multiplier = getEnvFloat parseFloat e ''RAFT_BACKOFF_MULTIPLIER'' two,
           MaxRetries = getEnvInt e ''RAFT_MAX_RETRIES'' (-1)\<rparr>,
        connectionTimeout = getEnvDuration parseDuration e ''RAFT_CONN_TIMEOUT'' 5000000000,
        healthCheckInterval = getEnvDuration parseDuration e ''RAFT_HEALTH_CHECK_INTERVAL'' 10000000000,
        startupMode = StartAlways,
        artificialDelay = getEnvDuration parseDuration e ''RAFT_ARTIFICIAL_DELAY'' 0\<rparr>
   }"

section \<open>Connections\<close>

datatype connectivity = Idle | Connecting | Ready | TransientFailure | Shutdown

text \<open>A goroutine that connects to a peer: its backoff and the number of its attempts.\<close>

record connecting =
  co_backoff :: duration
  co_attempts :: int

datatype dial_error = DialFailed | ConnectionFailed connectivity | DialTimeout

record 'f ConnectionManager =
  cm_conns :: "nat option list"
  cm_peers :: "nat option list"
  peerAvailable :: "bool list"
  lastContact :: "go_time list"
  cm_selfID :: int
  cm_totalNodes :: int
  cm_addrs :: "string list"
  retryCfg :: "'f RetryConfig"
  healthInterval :: duration
  cancelled :: bool
  goroutines :: "nat \<rightharpoonup> connecting"
  closed_conns :: "nat list"

text \<open>
  \<^item> \<^const>\<open>cancelled\<close> is the state of the manager's context;
  \<^item> \<^const>\<open>goroutines\<close> are the running instances of \<open>connectPeerAsync\<close>, by peer;
  \<^item> \<^const>\<open>closed_conns\<close> are the connections on which \<open>Close\<close> has been called.

  Making the slices panics when the number of nodes is negative.
\<close>

definition start_connecting :: "'f RetryConfig \<Rightarrow> connecting" where
  "start_connecting rc = \<lparr>co_backoff = InitialBackoff rc, co_attempts = 0\<rparr>"

definition NewConnectionManager :: "int \<Rightarrow> int \<Rightarrow> string list \<Rightarrow> 'f Config \<Rightarrow> 'f ConnectionManager option" where
  "NewConnectionManager selfID totalNodes addrs cfg =
     (if totalNodes < 0 then None
      else Some
        \<lparr>cm_conns = replicate (nat totalNodes) None, cm_peers = replicate (nat totalNodes) None,
         peerAvailable = map (\<lambda>i. int i = selfID) [0..<nat totalNodes], lastContact = replicate (nat totalNodes) zero_time,
         cm_selfID = selfID, cm_totalNodes = totalNodes, cm_addrs = addrs,
         retryCfg = connectionRetryConfig cfg, healthInterval = healthCheckInterval cfg, cancelled = False,
         goroutines = (\<lambda>i. if i < nat totalNodes \<and> int i \<noteq> selfID then Some (start_connecting (connectionRetryConfig cfg)) else None),
         closed_conns = []\<rparr>)"

text \<open>
  \<open>dialPeer\<close> makes a connection and watches its state: \<open>states\<close> are the states it sees, one after the other, and the wait for the next change times out where
  they end. \<^const>\<open>DialFailed\<close> is an error of \<open>grpc.NewClient\<close>, which the caller supplies as \<^const>\<open>None\<close>.
\<close>

fun dial_loop :: "connectivity list \<Rightarrow> dial_error + unit" where
  "dial_loop [] = Inl DialTimeout"
| "dial_loop (state # states) =
     (if state = Ready \<or> state = Idle then Inr ()
      else if state = TransientFailure \<or> state = Shutdown then Inl (ConnectionFailed state)
      else dial_loop states)"

definition dialPeer :: "(nat \<times> connectivity list) option \<Rightarrow> nat \<Rightarrow> 'f ConnectionManager \<Rightarrow> ((dial_error + nat) \<times> 'f ConnectionManager) option" where
  "dialPeer new_client peerID cm = do {
     addr \<leftarrow> go_index (cm_addrs cm) (int peerID);
     Some (case new_client of
             None \<Rightarrow> (Inl DialFailed, cm)
           | Some (conn, states) \<Rightarrow>
               (case dial_loop states of
                  Inr _ \<Rightarrow> (Inr conn, cm)
                | Inl err \<Rightarrow> (Inl err, cm\<lparr>closed_conns := closed_conns cm @ [conn]\<rparr>)))
   }"

definition next_backoff :: "(duration \<Rightarrow> 'f \<Rightarrow> duration) \<Rightarrow> 'f RetryConfig \<Rightarrow> duration \<Rightarrow> duration" where
  "next_backoff scale rc backoff =
     (let backoff = scale backoff (Multiplier rc) in if backoff > MaxBackoff rc then MaxBackoff rc else backoff)"

text \<open>One round of the loop of \<open>connectPeerAsync\<close>, the wait of a failed one included; a goroutine that returns leaves the map.\<close>

definition connectPeerAsync ::
  "(duration \<Rightarrow> 'f \<Rightarrow> duration) \<Rightarrow> go_time \<Rightarrow> (nat \<times> connectivity list) option \<Rightarrow> nat \<Rightarrow> 'f ConnectionManager \<Rightarrow> 'f ConnectionManager option" where
  "connectPeerAsync scale now new_client peerID cm =
     (case goroutines cm peerID of
        None \<Rightarrow> Some cm
      | Some g \<Rightarrow>
          if cancelled cm \<or> MaxRetries (retryCfg cm) > 0 \<and> co_attempts g \<ge> MaxRetries (retryCfg cm)
          then Some (cm\<lparr>goroutines := (goroutines cm)(peerID := None)\<rparr>)
          else do {
            (res, cm) \<leftarrow> dialPeer new_client peerID cm;
            Some (case res of
                    Inl err \<Rightarrow> cm\<lparr>goroutines := (goroutines cm)(peerID \<mapsto>
                      \<lparr>co_backoff = next_backoff scale (retryCfg cm) (co_backoff g), co_attempts = co_attempts g + 1\<rparr>)\<rparr>
                  | Inr conn \<Rightarrow> cm\<lparr>cm_conns := (cm_conns cm)[peerID := Some conn], cm_peers := (cm_peers cm)[peerID := Some conn],
                      lastContact := (lastContact cm)[peerID := now], peerAvailable := (peerAvailable cm)[peerID := True],
                      goroutines := (goroutines cm)(peerID := None)\<rparr>)
          })"

definition reconnectPeer :: "nat \<Rightarrow> 'f ConnectionManager \<Rightarrow> 'f ConnectionManager" where
  "reconnectPeer peerID cm =
     cm\<lparr>cm_conns := (cm_conns cm)[peerID := None], cm_peers := (cm_peers cm)[peerID := None],
        closed_conns := closed_conns cm @ (case cm_conns cm ! peerID of None \<Rightarrow> [] | Some oldConn \<Rightarrow> [oldConn]),
        peerAvailable := (peerAvailable cm)[peerID := False],
        goroutines := (goroutines cm)(peerID \<mapsto> start_connecting (retryCfg cm))\<rparr>"

text \<open>The body of the health check for one peer; \<open>getState\<close> yields the state of a connection.\<close>

definition check_peer :: "go_time \<Rightarrow> (nat \<Rightarrow> connectivity) \<Rightarrow> nat \<Rightarrow> 'f ConnectionManager \<Rightarrow> 'f ConnectionManager" where
  "check_peer now getState i cm =
     (if int i = cm_selfID cm then cm
      else (case cm_conns cm ! i of
              None \<Rightarrow> cm\<lparr>peerAvailable := (peerAvailable cm)[i := False]\<rparr>
            | Some conn \<Rightarrow>
                (let state = getState conn in
                 if state = Ready \<or> state = Idle
                 then cm\<lparr>peerAvailable := (peerAvailable cm)[i := True], lastContact := (lastContact cm)[i := now]\<rparr>
                 else if state = TransientFailure then cm\<lparr>peerAvailable := (peerAvailable cm)[i := False]\<rparr>
                 else if state = Shutdown then reconnectPeer i (cm\<lparr>peerAvailable := (peerAvailable cm)[i := False]\<rparr>)
                 else cm)))"

fun health_loop :: "go_time \<Rightarrow> (nat \<Rightarrow> connectivity) \<Rightarrow> nat list \<Rightarrow> 'f ConnectionManager \<Rightarrow> 'f ConnectionManager" where
  "health_loop now getState [] cm = cm"
| "health_loop now getState (i # is) cm = health_loop now getState is (check_peer now getState i cm)"

definition performHealthCheck :: "go_time \<Rightarrow> (nat \<Rightarrow> connectivity) \<Rightarrow> 'f ConnectionManager \<Rightarrow> 'f ConnectionManager" where
  "performHealthCheck now getState cm = health_loop now getState [0..<nat (cm_totalNodes cm)] cm"

definition healthCheckLoop :: "go_time \<Rightarrow> (nat \<Rightarrow> connectivity) \<Rightarrow> 'f ConnectionManager \<Rightarrow> 'f ConnectionManager" where
  "healthCheckLoop now getState cm = (if healthInterval cm \<le> 0 \<or> cancelled cm then cm else performHealthCheck now getState cm)"

definition GetPeer :: "int \<Rightarrow> 'f ConnectionManager \<Rightarrow> nat option" where
  "GetPeer peerID cm = (if peerID < 0 \<or> peerID \<ge> cm_totalNodes cm then None else cm_peers cm ! nat peerID)"

definition GetPeers :: "'f ConnectionManager \<Rightarrow> nat option list" where
  "GetPeers cm = take (nat (cm_totalNodes cm)) (cm_peers cm)"

definition IsPeerAvailable :: "int \<Rightarrow> 'f ConnectionManager \<Rightarrow> bool" where
  "IsPeerAvailable peerID cm = (if peerID < 0 \<or> peerID \<ge> cm_totalNodes cm then False else peerAvailable cm ! nat peerID)"

fun count_available :: "nat list \<Rightarrow> 'f ConnectionManager \<Rightarrow> int" where
  "count_available [] cm = 0"
| "count_available (i # is) cm =
     (if int i = cm_selfID cm then 0 else if peerAvailable cm ! i then 1 else 0) + count_available is cm"

definition GetAvailablePeerCount :: "'f ConnectionManager \<Rightarrow> int" where
  "GetAvailablePeerCount cm = count_available [0..<nat (cm_totalNodes cm)] cm"

text \<open>\<open>Close\<close> cancels the context, waits for the goroutines and closes the connections.\<close>

fun open_conns :: "int \<Rightarrow> nat \<Rightarrow> nat option list \<Rightarrow> nat list" where
  "open_conns selfID i [] = []"
| "open_conns selfID i (c # cs) =
     (case c of None \<Rightarrow> [] | Some conn \<Rightarrow> if int i \<noteq> selfID then [conn] else []) @ open_conns selfID (Suc i) cs"

definition Close :: "'f ConnectionManager \<Rightarrow> 'f ConnectionManager" where
  "Close cm = cm\<lparr>cancelled := True, goroutines := (\<lambda>_. None),
     closed_conns := closed_conns cm @ open_conns (cm_selfID cm) 0 (cm_conns cm)\<rparr>"

section \<open>The state of the connections\<close>

text \<open>
  A step is a round of one of the connecting goroutines, the health check of one peer, a whole health check or \<open>Close\<close>; \<open>scale\<close> multiplies a duration by a
  floating-point number.
\<close>

inductive conn_step :: "(duration \<Rightarrow> 'f \<Rightarrow> duration) \<Rightarrow> 'f ConnectionManager \<Rightarrow> 'f ConnectionManager \<Rightarrow> bool" for scale where
  connect: "connectPeerAsync scale now new_client i cm = Some cm' \<Longrightarrow> conn_step scale cm cm'"
| check: "\<not> cancelled cm \<Longrightarrow> i < nat (cm_totalNodes cm) \<Longrightarrow> conn_step scale cm (check_peer now getState i cm)"
| health: "conn_step scale cm (healthCheckLoop now getState cm)"
| close: "conn_step scale cm (Close cm)"

definition peer_ok :: "'f ConnectionManager \<Rightarrow> nat \<Rightarrow> bool" where
  "peer_ok cm i =
     (int i = cm_selfID cm \<or>
      (peerAvailable cm ! i \<longrightarrow> cm_conns cm ! i \<noteq> None) \<and>
      (MaxRetries (retryCfg cm) \<le> 0 \<and> \<not> cancelled cm \<longrightarrow> cm_conns cm ! i \<noteq> None \<or> goroutines cm i \<noteq> None))"

definition goroutine_ok :: "'f ConnectionManager \<Rightarrow> nat \<Rightarrow> bool" where
  "goroutine_ok cm i =
     (\<forall>g. goroutines cm i = Some g \<longrightarrow>
        int i < cm_totalNodes cm \<and> int i \<noteq> cm_selfID cm \<and> cm_conns cm ! i = None \<and>
        co_backoff g \<le> max (InitialBackoff (retryCfg cm)) (MaxBackoff (retryCfg cm)))"

definition sizes_ok :: "'f ConnectionManager \<Rightarrow> bool" where
  "sizes_ok cm =
     (go_len (cm_conns cm) = cm_totalNodes cm \<and> go_len (peerAvailable cm) = cm_totalNodes cm \<and> go_len (lastContact cm) = cm_totalNodes cm
      \<and> go_len (cm_addrs cm) = cm_totalNodes cm \<and> cm_peers cm = cm_conns cm)"

definition connections_ok :: "'f ConnectionManager \<Rightarrow> bool" where
  "connections_ok cm = (sizes_ok cm \<and> (\<forall>i < nat (cm_totalNodes cm). peer_ok cm i) \<and> (\<forall>i. goroutine_ok cm i))"

lemmas conn_defs = connections_ok_def peer_ok_def goroutine_ok_def sizes_ok_def

lemma go_quot_pos: "0 \<le> a \<Longrightarrow> 0 < b \<Longrightarrow> go_quot a b = a div b"
  by (cases "a = 0") (simp_all add: go_quot_def)

lemma next_backoff_le: "next_backoff scale rc b \<le> MaxBackoff rc"
  by (simp add: next_backoff_def Let_def)

lemma NewConnectionManager_ok:
  assumes "NewConnectionManager selfID totalNodes addrs cfg = Some cm" and "go_len addrs = totalNodes"
  shows "connections_ok cm"
  using assms by (auto simp: NewConnectionManager_def conn_defs go_len_def start_connecting_def split: if_splits)

lemma reconnectPeer_ok:
  assumes "connections_ok cm" and "int i < cm_totalNodes cm" and "int i \<noteq> cm_selfID cm"
  shows "connections_ok (reconnectPeer i cm)"
  using assms by (auto simp: reconnectPeer_def conn_defs start_connecting_def go_len_def nth_list_update split: option.splits if_splits)

lemma set_available_ok:
  assumes "connections_ok cm" and "i < nat (cm_totalNodes cm)" and "\<not> b \<or> cm_conns cm ! i \<noteq> None"
  shows "connections_ok (cm\<lparr>peerAvailable := (peerAvailable cm)[i := b]\<rparr>)"
  using assms by (auto simp: conn_defs go_len_def nth_list_update split: if_splits)

lemma set_lastContact_ok: "connections_ok cm \<Longrightarrow> connections_ok (cm\<lparr>lastContact := (lastContact cm)[i := now]\<rparr>)"
  by (simp add: conn_defs go_len_def)

lemma set_closed_ok: "connections_ok cm \<Longrightarrow> connections_ok (cm\<lparr>closed_conns := cs\<rparr>)"
  by (simp add: conn_defs)

lemma check_peer_ok:
  assumes "connections_ok cm" and "i < nat (cm_totalNodes cm)"
  shows "connections_ok (check_peer now getState i cm)"
proof (cases "int i = cm_selfID cm")
  case False
  then have "connections_ok (reconnectPeer i (cm\<lparr>peerAvailable := (peerAvailable cm)[i := False]\<rparr>))"
    using assms reconnectPeer_ok [OF set_available_ok [OF assms, of False]] by simp
  moreover have "connections_ok (cm\<lparr>peerAvailable := (peerAvailable cm)[i := True], lastContact := (lastContact cm)[i := now]\<rparr>)"
    if "cm_conns cm ! i \<noteq> None"
    using set_lastContact_ok [OF set_available_ok [OF assms, of True]] that by simp
  ultimately show ?thesis
    using assms(1) set_available_ok [OF assms, of False]
    by (simp add: check_peer_def Let_def False split: option.split)
qed (simp add: check_peer_def assms(1))

lemma check_peer_total [simp]: "cm_totalNodes (check_peer now getState i cm) = cm_totalNodes cm"
  by (simp add: check_peer_def reconnectPeer_def Let_def split: option.split)

lemma health_loop_total: "cm_totalNodes (health_loop now getState is cm) = cm_totalNodes cm"
  by (induction "is" arbitrary: cm) simp_all

lemma health_loop_ok:
  "connections_ok cm \<Longrightarrow> \<forall>i \<in> set is. i < nat (cm_totalNodes cm) \<Longrightarrow> connections_ok (health_loop now getState is cm)"
  by (induction "is" arbitrary: cm) (simp_all add: check_peer_ok)

lemma connected_ok:
  assumes "connections_ok cm" and "goroutines cm i = Some g"
  shows "connections_ok (cm\<lparr>cm_conns := (cm_conns cm)[i := Some conn], cm_peers := (cm_peers cm)[i := Some conn],
    lastContact := (lastContact cm)[i := now], peerAvailable := (peerAvailable cm)[i := True], goroutines := (goroutines cm)(i := None)\<rparr>)"
  using assms by (auto simp: conn_defs go_len_def nth_list_update split: option.splits)

lemma retry_ok:
  assumes "connections_ok cm" and "goroutines cm i = Some g"
  shows "connections_ok (cm\<lparr>goroutines := (goroutines cm)(i \<mapsto>
    \<lparr>co_backoff = next_backoff scale (retryCfg cm) (co_backoff g), co_attempts = n\<rparr>)\<rparr>)"
  using assms next_backoff_le [of scale "retryCfg cm" "co_backoff g"]
  by (auto simp: conn_defs le_max_iff_disj split: option.splits)

lemma give_up_ok:
  assumes "connections_ok cm" and "cancelled cm \<or> MaxRetries (retryCfg cm) > 0"
  shows "connections_ok (cm\<lparr>goroutines := (goroutines cm)(i := None)\<rparr>)"
  using assms by (auto simp: conn_defs)

lemma connectPeerAsync_ok:
  assumes "connections_ok cm"
  obtains cm' where "connectPeerAsync scale now new_client i cm = Some cm'" and "connections_ok cm'"
proof -
  have "\<exists>cm'. connectPeerAsync scale now new_client i cm = Some cm' \<and> connections_ok cm'"
  proof (cases "goroutines cm i")
    case None then show ?thesis using assms by (simp add: connectPeerAsync_def)
  next
    case (Some g)
    then have "int i < go_len (cm_addrs cm)" using assms by (auto simp: conn_defs)
    then obtain addr where addr: "go_index (cm_addrs cm) (int i) = Some addr" by (simp add: go_index_def go_len_def)
    show ?thesis
    proof (cases "cancelled cm \<or> MaxRetries (retryCfg cm) > 0 \<and> co_attempts g \<ge> MaxRetries (retryCfg cm)")
      case True then show ?thesis using Some give_up_ok [OF assms, of i] by (auto simp: connectPeerAsync_def)
    next
      case False
      then show ?thesis
        using Some addr connected_ok [OF assms Some] retry_ok [OF assms Some]
          retry_ok [OF set_closed_ok [OF assms], of _ i g]
        by (auto simp: connectPeerAsync_def dialPeer_def split: option.split sum.split)
    qed
  qed
  then show thesis using that by blast
qed

lemma Close_ok: "connections_ok cm \<Longrightarrow> connections_ok (Close cm)"
  by (auto simp: Close_def conn_defs)

interpretation connections: step_invariant "conn_step scale" connections_ok
proof
  fix s t :: "'a ConnectionManager"
  assume "conn_step scale s t" and ok: "connections_ok s"
  then show "connections_ok t"
  proof cases
    case (connect now new_client i)
    then show ?thesis using connectPeerAsync_ok [OF ok, of scale now new_client i] by auto
  qed (simp_all add: ok check_peer_ok Close_ok healthCheckLoop_def performHealthCheck_def health_loop_ok)
qed

text \<open>
  A whole health check settles the availability of every peer by the state its connection has. Only a connection in the middle of an attempt keeps the flag it had.
\<close>

definition health_of :: "(nat \<Rightarrow> connectivity) \<Rightarrow> 'f ConnectionManager \<Rightarrow> nat \<Rightarrow> bool" where
  "health_of getState cm i =
     (if int i = cm_selfID cm then peerAvailable cm ! i
      else (case cm_conns cm ! i of
              None \<Rightarrow> False
            | Some conn \<Rightarrow> if getState conn = Connecting then peerAvailable cm ! i else getState conn \<in> {Ready, Idle}))"

lemma check_peer_frame:
  "cm_selfID (check_peer now getState i cm) = cm_selfID cm"
  "length (peerAvailable (check_peer now getState i cm)) = length (peerAvailable cm)"
  "j \<noteq> i \<Longrightarrow> peerAvailable (check_peer now getState i cm) ! j = peerAvailable cm ! j"
  "j \<noteq> i \<Longrightarrow> cm_conns (check_peer now getState i cm) ! j = cm_conns cm ! j"
  by (simp_all add: check_peer_def reconnectPeer_def Let_def split: option.split)

lemma check_peer_health:
  "i < length (peerAvailable cm) \<Longrightarrow> peerAvailable (check_peer now getState i cm) ! i = health_of getState cm i"
  by (cases "getState (the (cm_conns cm ! i))") (auto simp: check_peer_def reconnectPeer_def health_of_def Let_def split: option.split)

lemma health_loop_health:
  "distinct is \<Longrightarrow> \<forall>i \<in> set is. i < length (peerAvailable cm) \<Longrightarrow>
   peerAvailable (health_loop now getState is cm) ! j = (if j \<in> set is then health_of getState cm j else peerAvailable cm ! j)"
proof (induction "is" arbitrary: cm)
  case (Cons i "is")
  have "health_of getState (check_peer now getState i cm) j = health_of getState cm j" if "j \<noteq> i"
    using that by (simp add: health_of_def check_peer_frame split: option.split)
  then show ?case using Cons by (auto simp: check_peer_frame check_peer_health)
qed simp

lemma connections_lengths:
  assumes "connections_ok cm"
  shows "length (cm_conns cm) = nat (cm_totalNodes cm)" and "length (peerAvailable cm) = nat (cm_totalNodes cm)"
    and "length (cm_addrs cm) = nat (cm_totalNodes cm)"
proof -
  have "sizes_ok cm" using assms by (simp add: connections_ok_def)
  then have "int (length (cm_conns cm)) = cm_totalNodes cm" "int (length (peerAvailable cm)) = cm_totalNodes cm"
    "int (length (cm_addrs cm)) = cm_totalNodes cm"
    by (simp_all add: sizes_ok_def go_len_def)
  then show "length (cm_conns cm) = nat (cm_totalNodes cm)" and "length (peerAvailable cm) = nat (cm_totalNodes cm)"
    and "length (cm_addrs cm) = nat (cm_totalNodes cm)" by simp_all
qed

lemma performHealthCheck_health:
  "connections_ok cm \<Longrightarrow> int i < cm_totalNodes cm \<Longrightarrow> peerAvailable (performHealthCheck now getState cm) ! i = health_of getState cm i"
  by (simp add: performHealthCheck_def health_loop_health connections_lengths zless_nat_eq_int_zless)

text \<open>
  A connection of gRPC is \<^const>\<open>Idle\<close> until something is sent on it, and \<open>dialPeer\<close> takes that for success: the first attempt to connect to a peer marks it available
  even when nothing listens at its address, and the health check leaves it so.
\<close>

lemma idle_peer_is_available:
  assumes "connections_ok cm" and "goroutines cm i = Some g" and "\<not> cancelled cm" and "MaxRetries (retryCfg cm) \<le> 0"
  shows "\<exists>cm'. connectPeerAsync scale now (Some (conn, Idle # states)) i cm = Some cm' \<and> IsPeerAvailable (int i) cm'
    \<and> (getState conn = Idle \<longrightarrow> IsPeerAvailable (int i) (performHealthCheck now getState cm'))"
proof -
  let ?cm = "cm\<lparr>cm_conns := (cm_conns cm)[i := Some conn], cm_peers := (cm_peers cm)[i := Some conn],
    lastContact := (lastContact cm)[i := now], peerAvailable := (peerAvailable cm)[i := True], goroutines := (goroutines cm)(i := None)\<rparr>"
  have i: "int i < cm_totalNodes cm" "i < length (cm_conns cm)" "i < length (peerAvailable cm)" "i < length (cm_addrs cm)"
  proof -
    show i: "int i < cm_totalNodes cm" using assms(1,2) by (simp add: conn_defs)
    then show "i < length (cm_conns cm)" "i < length (peerAvailable cm)" "i < length (cm_addrs cm)"
      by (simp_all add: connections_lengths [OF assms(1)] zless_nat_eq_int_zless)
  qed
  have "connectPeerAsync scale now (Some (conn, Idle # states)) i cm = Some ?cm"
    using assms i by (simp add: connectPeerAsync_def dialPeer_def go_index_def go_len_def)
  moreover have "IsPeerAvailable (int i) ?cm" using i by (simp add: IsPeerAvailable_def)
  moreover have "cm_totalNodes (performHealthCheck now getState ?cm) = cm_totalNodes cm" 
    by (simp add: performHealthCheck_def health_loop_total)
  moreover have "health_of getState ?cm i" if "getState conn = Idle" using i that by (simp add: health_of_def)
  ultimately show ?thesis
    using performHealthCheck_health [OF connected_ok [OF assms(1,2)], of i] i by (simp add: IsPeerAvailable_def)
qed

lemma open_conns_set: "set (open_conns selfID i cs) = {c. \<exists>j < length cs. cs ! j = Some c \<and> int (i + j) \<noteq> selfID}"
proof (induction cs arbitrary: i)
  case (Cons c cs)
  have "{x. \<exists>j < length (c # cs). (c # cs) ! j = Some x \<and> int (i + j) \<noteq> selfID}
    = {x. c = Some x \<and> int i \<noteq> selfID} \<union> {x. \<exists>j < length cs. cs ! j = Some x \<and> int (Suc i + j) \<noteq> selfID}"
    by (auto simp: less_Suc_eq_0_disj)
  then show ?case using Cons [of "Suc i"] by (auto split: option.split)
qed simp

lemma Close_closes:
  "connections_ok cm \<Longrightarrow> int i < cm_totalNodes cm \<Longrightarrow> int i \<noteq> cm_selfID cm \<Longrightarrow> cm_conns cm ! i = Some conn \<Longrightarrow> conn \<in> set (closed_conns (Close cm))"
  by (auto simp: Close_def open_conns_set conn_defs go_len_def)

lemma LoadConfig_addrs: "LoadConfig parseDuration parseFloat two r e = Some cfg \<Longrightarrow> go_len (cfg_raftAddrs cfg) = cfg_totalNodes cfg"
  by (auto simp: LoadConfig_def split: bind_splits if_splits)


lemma snapshot_threshold_panics: "t < 10 \<Longrightarrow> snapshot_threshold r t = None"
proof -
  assume "t < 10"
  then have "go_quot t 10 \<le> 0" by (cases "0 \<le> t") (simp_all add: go_quot_def sgn_if)
  then show ?thesis by (simp add: snapshot_threshold_def rand_Intn_def)
qed

lemma snapshot_threshold_spread:
  assumes "10 \<le> t"
  obtains s where "snapshot_threshold r t = Some s" and "t - t div 20 \<le> s" and "s < t - t div 20 + t div 10"
proof
  let ?d = "int r mod (t div 10)"
  have "0 < t div 10" using assms by simp
  then have "0 \<le> ?d" "?d < t div 10" by simp_all
  then show "snapshot_threshold r t = Some (t + ?d - t div 20)" "t - t div 20 \<le> t + ?d - t div 20"
    "t + ?d - t div 20 < t - t div 20 + t div 10"
    using assms by (simp_all add: snapshot_threshold_def rand_Intn_def go_quot_pos)
qed

text \<open>With every other variable well set, \<open>LoadConfig\<close> succeeds for a snapshot threshold of at least ten, and spreads it so that the result is at least its
  95 percent and less than 105 percent of it, up to rounding; for every smaller number it panics, in \<open>rand.Intn\<close>.
\<close>

theorem LoadConfig_threshold:
  assumes "e ''FILENAME'' = Some file" and "file \<noteq> []" and "required_int e ''TOTAL_NODES'' = Some n" and "required_int e ''RAFT_ID'' = Some raftId"
    and "e ''RAFT_ADDRS'' = Some addrs" and "addrs \<noteq> []" and "go_len (go_split (CHR '','') addrs) = n"
    and "required_int e ''SNAPSHOT_THRESHOLD'' = Some t"
  shows "case LoadConfig parseDuration parseFloat two r e of
           None \<Rightarrow> t < 10
         | Some cfg \<Rightarrow> 10 \<le> t \<and> t - t div 20 \<le> cfg_snapshotThreshold cfg \<and> cfg_snapshotThreshold cfg < t - t div 20 + t div 10"
proof (cases "t < 10")
  case True
  then show ?thesis using assms by (simp add: LoadConfig_def snapshot_threshold_panics)
next
  case False
  then have "10 \<le> t" by simp
  from snapshot_threshold_spread [OF this, of r] obtain s where
    "snapshot_threshold r t = Some s" "t - t div 20 \<le> s" "s < t - t div 20 + t div 10" by blast
  then show ?thesis using assms \<open>10 \<le> t\<close> by (simp add: LoadConfig_def getenv_def str_at_def)
qed

definition sample_env :: "string \<Rightarrow> environment" where
  "sample_env threshold = [''FILENAME'' \<mapsto> ''node'', ''TOTAL_NODES'' \<mapsto> ''3'', ''RAFT_ID'' \<mapsto> ''0'',
     ''RAFT_ADDRS'' \<mapsto> ''a:1,b:1,c:1'', ''SNAPSHOT_THRESHOLD'' \<mapsto> threshold]"

lemma sample_numbers:
  "atoi ''3'' = Some 3" "atoi ''0'' = Some 0" "atoi ''9'' = Some 9" "atoi ''40'' = Some 40"
  by code_simp+

theorem LoadConfig_threshold_witness:
  "LoadConfig (\<lambda>_. None) (\<lambda>_. None) (2 :: int) 0 (sample_env ''9'') = None
   \<or> (\<exists>cfg. LoadConfig (\<lambda>_. None) (\<lambda>_. None) (2 :: int) 0 (sample_env ''9'') = Some cfg \<and> 10 \<le> (9 :: int))"
  using LoadConfig_threshold [of "sample_env ''9''" "''node''" 3 0 "''a:1,b:1,c:1''" 9 "\<lambda>_. None" "\<lambda>_. None" "2 :: int" 0]
  by (auto simp: sample_env_def required_int_def sample_numbers go_len_def split: option.splits)


end
