(* ===== verification/Startup.thy ===== *)
theory Startup
  imports Services Connection
begin

text \<open>
  How the processes start: \<open>main\<close> of \<open>cmd/raftcli\<close>, \<open>cmd/datanode\<close> and \<open>cmd/controller\<close>, with the configuration they read. A process that
  gives up (\<open>os.Exit\<close>, \<open>log.Fatal\<close>, a panic) has no result.
\<close>

section \<open>The command line client\<close>

definition trim_space :: "string \<Rightarrow> string" where
  "trim_space s = rev (dropWhile is_space (rev (dropWhile is_space s)))"

definition controller_addr :: "string \<Rightarrow> string" where
  "controller_addr addr =
     (let addr = trim_space addr
      in if \<not> has_prefix ''http://'' addr \<and> \<not> has_prefix ''https://'' addr then ''http://'' @ addr else addr)"

definition raftcli_main :: "'w Env \<Rightarrow> string list \<Rightarrow> string list \<Rightarrow> 'w \<Rightarrow> ('w \<times> SmartClient) option" where
  "raftcli_main env args lines w =
     (if length args < 2 then None
      else (case NewSmartClient env (map controller_addr (go_split (CHR '','') (args ! 1))) w of
              (w', Inl err) \<Rightarrow> None
            | (w', Inr cl) \<Rightarrow> cli_Run env lines w' cl))"

section \<open>The data node\<close>

record DataNodeConfig =
  ControllerURL :: string
  NodeID :: string
  LeaseDuration :: duration

text \<open>What the flags leave: each is given or has its default. The environment overrides them.\<close>

definition flag_defaults :: DataNodeConfig where
  "flag_defaults = \<lparr>ControllerURL = [], NodeID = [], LeaseDuration = 5000000000\<rparr>"

definition parseConfig :: "(string \<Rightarrow> duration option) \<Rightarrow> DataNodeConfig \<Rightarrow> environment \<Rightarrow> DataNodeConfig" where
  "parseConfig parseDuration flags e =
     (let url = getenv e ''CONTROLLER_URL''; id = getenv e ''NODE_ID''; dur = getenv e ''LEASE_DURATION''
      in \<lparr>ControllerURL = (if url \<noteq> [] then url else ControllerURL flags),
          NodeID = (if id \<noteq> [] then id else NodeID flags),
          LeaseDuration = (if dur \<noteq> [] then (case parseDuration dur of Some d \<Rightarrow> d | None \<Rightarrow> LeaseDuration flags) else LeaseDuration flags)\<rparr>)"

text \<open>
  The server of a data node when its lease manager has made its first renewal. A ticker needs a positive interval. The node serves under its identifier,
  which it also registers as its address.
\<close>

definition datanode_main :: "(string \<Rightarrow> duration option) \<Rightarrow> DataNodeConfig \<Rightarrow> environment \<Rightarrow> go_time \<Rightarrow>
    (http_status \<times> uint64 option) option \<Rightarrow> (http_status \<times> ClusterConfig option) option \<Rightarrow> Server option" where
  "datanode_main parseDuration flags e now heartbeat topo =
     (let cfg = parseConfig parseDuration flags e
      in if ControllerURL cfg = [] \<or> NodeID cfg = [] then None
         else if go_quot (LeaseDuration cfg) 3 \<le> 0 then None
         else Some (lease_tick now heartbeat topo
           (NewServer NewConcurrentMapCache (NewLeaseManager (NodeID cfg) (LeaseDuration cfg)) NewStateManager (NodeID cfg))))"

definition register_request :: "DataNodeConfig \<Rightarrow> Request" where
  "register_request cfg = (request ''POST'' ''/cluster/register'')\<lparr>rq_Node := Some (NodeID cfg, NodeID cfg)\<rparr>"

section \<open>The controller\<close>

definition grace_period :: duration where
  "grace_period = 5000000000"

definition api_addr :: "environment \<Rightarrow> string" where
  "api_addr e = (if getenv e ''API_ADDR'' = [] then '':8080'' else getenv e ''API_ADDR'')"

text \<open>
  \<open>main\<close> makes the application without a controller, starts Raft on it and only then attaches the controller. \<open>delivered\<close> are the commands that Raft
  applies in between, with the role and the time at each.
\<close>

definition controller_main :: "(nat \<Rightarrow> bool \<times> go_time) \<Rightarrow> Command option Message list \<Rightarrow> Controller option" where
  "controller_main local delivered = do {
     (_, _) \<leftarrow> apply_commands local delivered None;
     Some (NewController grace_period)
   }"

lemma lease_default: "LeaseDuration (parseConfig parseDuration flag_defaults Map.empty) = grace_period"
  by (simp add: parseConfig_def flag_defaults_def grace_period_def getenv_def str_at_def)

lemma lease_tick_fields:
  "nodeID (lease_tick now heartbeat topo s) = nodeID s" "lease_duration (lease (lease_tick now heartbeat topo s)) = lease_duration (lease s)"
  by (auto simp: lease_tick_def renew_def fetchTopology_def StateManager_Update_def extendLease_def Let_def split: option.split prod.split)

lemma datanode_main_starts:
  assumes "e ''CONTROLLER_URL'' = Some url" and "url \<noteq> []" and "e ''NODE_ID'' = Some node" and "node \<noteq> []" and "e ''LEASE_DURATION'' = None"
  shows "\<exists>s. datanode_main parseDuration flag_defaults e now heartbeat topo = Some s \<and> nodeID s = node \<and> lease_duration (lease s) = grace_period"
  using assms
  by (simp add: datanode_main_def parseConfig_def flag_defaults_def grace_period_def getenv_def str_at_def go_quot_def lease_tick_fields
      NewServer_def NewLeaseManager_def)

text \<open>The commands that touch the controller.\<close>

definition needs_controller :: "Command option Message \<Rightarrow> bool" where
  "needs_controller msg \<longleftrightarrow> MsgType msg = CommandMsg \<and>
     (case Data msg of
        None \<Rightarrow> False
      | Some cmd \<Rightarrow> cmd_Type cmd = CmdRegisterNode \<and> decode_register (cmd_Payload cmd) \<noteq> None
                  \<or> cmd_Type cmd = CmdUpdateTopology \<and> decode_topology (cmd_Payload cmd) \<noteq> None)"

lemma AppendMessage_unattached:
  "ControllerApp_AppendMessage leader now None msg =
     (if needs_controller msg then None
      else Some (None, MsgType msg = CommandMsg \<and> map_option cmd_Type (Data msg) = Some CmdNoOp, 0))"
  by (auto simp: ControllerApp_AppendMessage_def needs_controller_def cmd_defs split: option.split)

lemma apply_commands_unattached:
  "(apply_commands local msgs None = None) = (\<exists>msg \<in> set msgs. needs_controller msg)"
proof (induction msgs arbitrary: local)
  case (Cons msg msgs)
  show ?case using Cons [of "\<lambda>n. local (Suc n)"]
    by (cases "apply_commands (\<lambda>n. local (Suc n)) msgs None") (auto simp: AppendMessage_unattached)
qed simp

text \<open>A controller process that restarts survives its start exactly when Raft delivers no registration and no change of the topology before \<open>main\<close> has attached the controller:
  Raft is started on the application first, and the application does not check that it has a controller.
\<close>

theorem controller_start_panics:
  "controller_main local delivered = None \<longleftrightarrow> (\<exists>msg. msg \<in> set delivered \<and> needs_controller msg)"
  using apply_commands_unattached [of local delivered] by (cases "apply_commands local delivered None") (auto simp: controller_main_def)

lemma registration_needs_controller: "needs_controller (RegisterNode_message node address)"
  by (simp add: needs_controller_def RegisterNode_message_def command_message_def decode_register_def)

end
