(* ===== verification/Raft_Steady.thy ===== *)
theory Raft_Steady
  imports Raft_Machine "HOL-Library.Sublist"
begin

text \<open>
  Replication under one leader, over a network that may lose, delay, repeat and reorder its
  messages. As long as nobody stands for election, every log stays a beginning of the leader's, a committed entry is held by a
  majority, and every application is the replay of a beginning of the same log.
\<close>

section \<open>The two halves of a request\<close>

text \<open>
  \<open>LogRequest\<close> gives up the mutex between its checks and the append, so other handlers may run in
  between. A request that is turned down is answered at once.
\<close>

definition LogRequest_check :: "('d, 'a) Raft \<Rightarrow> 'd LogRequestArgs \<Rightarrow> (('d, 'a) Raft \<times> LogResponse option) option" where
  "LogRequest_check r args = do {
     (leaderId, term, prevIndex, prevTerm, commitLength, suffix) \<leftarrow> convertLogRequestArgs args;
     let r = accept_leader r leaderId term;
     Some (if currentTerm r = term \<and> prefix_ok r prevIndex prevTerm then (ResetTimer r, None)
           else (request_save r,
                 Some \<lparr>lr_NodeId = int32 (raft_id r), lr_CurrentTerm = int32 (currentTerm r),
                       Ack = 0, lr_Success = False\<rparr>))
   }"

definition LogRequest_append :: "('d, 'a) Application \<Rightarrow> ('d, 'a) Raft \<Rightarrow> 'd LogRequestArgs \<Rightarrow>
    (('d, 'a) Raft \<times> LogResponse) option" where
  "LogRequest_append ops r args = do {
     (leaderId, term, prevIndex, prevTerm, commitLength, suffix) \<leftarrow> convertLogRequestArgs args;
     r \<leftarrow> appendEntries ops r prevIndex commitLength suffix;
     let r = request_save r;
     Some (r, \<lparr>lr_NodeId = int32 (raft_id r), lr_CurrentTerm = int32 (currentTerm r),
               Ack = int32 (prevIndex + go_len suffix), lr_Success = True\<rparr>)
   }"

lemma LogRequest_halves:
  "LogRequest ops r args = do {
     (r, resp) \<leftarrow> LogRequest_check r args;
     case resp of Some resp \<Rightarrow> Some (r, resp) | None \<Rightarrow> LogRequest_append ops r args
   }"
  by (auto simp: LogRequest_def LogRequest_check_def LogRequest_append_def convertLogRequestArgs_def Let_def
      split: Option.bind_split)

section \<open>One leader and its followers\<close>

text \<open>
  \<open>logRequests\<close> are the requests that were ever sent, \<open>accepted\<close> those that passed the checks of a
  follower, \<open>logReplies\<close> the replies. Nothing is ever removed: a message may be delivered late, again or never.
\<close>

record ('d, 'a) replication =
  nodes :: "int \<Rightarrow> ('d, 'a) Raft"
  logRequests :: "(int \<times> 'd LogRequestArgs) set"
  accepted :: "(int \<times> 'd LogRequestArgs) set"
  logReplies :: "(int \<times> LogResponse) set"

text \<open>
  The applications may differ from node to node in what they do on the side, hence the index of
  \<open>ops\<close>. The lengths that are sent must fit their fields of 32 bits.
\<close>

inductive replication_step :: "(int \<Rightarrow> ('d, 'a) Application) \<Rightarrow> int \<Rightarrow> int \<Rightarrow> ('d, 'a) replication \<Rightarrow>
    ('d, 'a) replication \<Rightarrow> bool" for ops n l where
  rs_broadcast: "Broadcast peers (nodes c l) message = Some (r', Appended) \<Longrightarrow>
    in_int32 (abs_len r') \<Longrightarrow> wire_ok \<lparr>Term = currentTerm r', Msg = message\<rparr> \<Longrightarrow>
    replication_step ops n l c (c\<lparr>nodes := (nodes c)(l := r')\<rparr>)"
| rs_send: "0 \<le> j \<Longrightarrow> j < n \<Longrightarrow> j \<noteq> l \<Longrightarrow> replicate_start available peers j (nodes c l) = Some (SendLog args snapshotToo) \<Longrightarrow>
    replication_step ops n l c (c\<lparr>logRequests := insert (j, args) (logRequests c)\<rparr>)"
| rs_check: "(j, args) \<in> logRequests c \<Longrightarrow> LogRequest_check (nodes c j) args = Some (r', None) \<Longrightarrow>
    replication_step ops n l c (c\<lparr>nodes := (nodes c)(j := r'), accepted := insert (j, args) (accepted c)\<rparr>)"
| rs_refuse: "(j, args) \<in> logRequests c \<Longrightarrow> LogRequest_check (nodes c j) args = Some (r', Some resp) \<Longrightarrow>
    replication_step ops n l c (c\<lparr>nodes := (nodes c)(j := r'), logReplies := insert (j, resp) (logReplies c)\<rparr>)"
| rs_append: "(j, args) \<in> accepted c \<Longrightarrow> LogRequest_append (ops j) (nodes c j) args = Some (r', resp) \<Longrightarrow>
    replication_step ops n l c (c\<lparr>nodes := (nodes c)(j := r'), logReplies := insert (j, resp) (logReplies c)\<rparr>)"
| rs_reply: "(j, resp) \<in> logReplies c \<Longrightarrow> replicate_response (ops l) j resp (nodes c l) = Some r' \<Longrightarrow>
    replication_step ops n l c (c\<lparr>nodes := (nodes c)(l := r')\<rparr>)"
| rs_failed: "replication_step ops n l c (c\<lparr>nodes := (nodes c)(l := replicate_failed j (nodes c l))\<rparr>)"
| rs_heartbeat: "0 \<le> j \<Longrightarrow> j < n \<Longrightarrow>
    replication_step ops n l c (c\<lparr>nodes := (nodes c)(j := receiveHeartbeat (nodes c j))\<rparr>)"
| rs_save: "0 \<le> j \<Longrightarrow> j < n \<Longrightarrow>
    replication_step ops n l c (c\<lparr>nodes := (nodes c)(j := (nodes c j)\<lparr>logSaver := rds\<rparr>)\<rparr>)"

section \<open>What holds in every state\<close>

definition request_fits :: "'d LogEntry list \<Rightarrow> int \<Rightarrow> 'd LogRequestArgs \<Rightarrow> bool" where
  "request_fits G k args \<longleftrightarrow> (\<exists>p m. p \<le> m \<and> m \<le> length G \<and> in_int32 (int m) \<and> PrefixLen args = int p \<and>
     mapM from_pb_entry (Suffix args) = Some (map strip_chan (drop p (take m G))) \<and> CommitLength args \<le> k)"

definition follows :: "('d, 'a) Application \<Rightarrow> 'a \<Rightarrow> 'd LogEntry list \<Rightarrow> ('d, 'a) Raft \<Rightarrow> bool" where
  "follows ops a G F \<longleftrightarrow> (\<exists>full. rsm ops a full F \<and> prefix (map strip_chan full) (map strip_chan G))"

definition leader_ok :: "('d, 'a) Application \<Rightarrow> 'a \<Rightarrow> int \<Rightarrow> 'd LogEntry list \<Rightarrow> ('d, 'a) Raft \<Rightarrow> bool" where
  "leader_ok ops a T G L \<longleftrightarrow> rsm ops a G L \<and> member L \<and> currentTerm L = T \<and> in_int32 T \<and> in_int32 (raft_id L) \<and>
     in_int32 (abs_len L) \<and> (\<forall>e \<in> set (raft_log L). wire_ok e)"

text \<open>The nodes that hold the entry at position \<open>i\<close>.\<close>

definition holders :: "int \<Rightarrow> (int \<Rightarrow> ('d, 'a) Raft) \<Rightarrow> int \<Rightarrow> int set" where
  "holders n ns i = {j \<in> {0..<n}. i < abs_len (ns j)}"

definition follower_ok :: "('d, 'a) Application \<Rightarrow> 'a \<Rightarrow> int \<Rightarrow> 'd LogEntry list \<Rightarrow> ('d, 'a) Raft \<Rightarrow> ('d, 'a) Raft \<Rightarrow> int \<Rightarrow> bool" where
  "follower_ok ops a T G L F j \<longleftrightarrow> follows ops a G F \<and> currentTerm F \<le> T \<and>
     commitedLength F \<le> commitedLength L \<and> ackedLengths L ! nat j \<le> abs_len F"

definition messages_ok :: "int set \<Rightarrow> int \<Rightarrow> 'd LogEntry list \<Rightarrow> int \<Rightarrow> ('d, 'a) replication \<Rightarrow> bool" where
  "messages_ok fs T G k c \<longleftrightarrow>
     (\<forall>j args. (j, args) \<in> logRequests c \<longrightarrow> j \<in> fs \<and> lr_Term args = T \<and> request_fits G k args) \<and>
     (\<forall>j args. (j, args) \<in> accepted c \<longrightarrow>
        j \<in> fs \<and> currentTerm (nodes c j) = T \<and> request_fits G k args \<and> PrefixLen args \<le> abs_len (nodes c j)) \<and>
     (\<forall>j resp. (j, resp) \<in> logReplies c \<longrightarrow>
        j \<in> fs \<and> lr_CurrentTerm resp = T \<and> (lr_Success resp \<longrightarrow> Ack resp \<le> abs_len (nodes c j)))"

definition steady :: "(int \<Rightarrow> ('d, 'a) Application) \<Rightarrow> (int \<Rightarrow> 'a) \<Rightarrow> int \<Rightarrow> int \<Rightarrow> int \<Rightarrow> 'd LogEntry list \<Rightarrow>
    ('d, 'a) replication \<Rightarrow> bool" where
  "steady ops a n l T G c \<longleftrightarrow> leader_ok (ops l) (a l) T G (nodes c l) \<and> raft_id (nodes c l) = l \<and> totalNodes (nodes c l) = n \<and>
     (\<forall>j \<in> {0..<n} - {l}. follower_ok (ops j) (a j) T G (nodes c l) (nodes c j) j) \<and>
     messages_ok ({0..<n} - {l}) T G (commitedLength (nodes c l)) c \<and>
     (\<forall>i < commitedLength (nodes c l). 2 * int (card (holders n (nodes c) i)) > n)"

section \<open>Handlers\<close>

lemma take_max: "take k xs @ drop k (take m xs) = take (max k m) xs"
  using append_take_drop_id [of k "take m xs"] by (cases "k \<le> m") (simp_all add: min_def max_def)

lemma request_fits_mono:
  assumes "request_fits G k args" and "prefix G G'" and "k \<le> k'"
  shows "request_fits G' k' args"
proof -
  from assms(1) obtain p m where pm: "p \<le> m" "m \<le> length G" "in_int32 (int m)" "PrefixLen args = int p"
    "mapM from_pb_entry (Suffix args) = Some (map strip_chan (drop p (take m G)))" "CommitLength args \<le> k"
    by (auto simp: request_fits_def)
  moreover have "take m G' = take m G" "m \<le> length G'" using pm(2) assms(2) by (auto simp: prefix_def)
  ultimately show ?thesis using assms(3) unfolding request_fits_def by (intro exI [of _ p] exI [of _ m]) simp
qed

lemma follows_mono: "follows ops a G F \<Longrightarrow> prefix G G' \<Longrightarrow> follows ops a G' F"
  unfolding follows_def by (blast intro: prefix_order.trans map_mono_prefix)

lemma prefix_terms:
  assumes "prefix (map strip_chan full) (map strip_chan G)" and "i < length full"
  shows "i < length G" "Term (full ! i) = Term (G ! i)"
proof -
  obtain zs where zs: "map strip_chan G = map strip_chan full @ zs" using assms(1) by (auto simp: prefix_def)
  show i: "i < length G" using arg_cong [OF zs, of length] assms(2) by simp
  have "map strip_chan G ! i = strip_chan (full ! i)" using assms(2) by (simp add: zs nth_append)
  with i have "strip_chan (G ! i) = strip_chan (full ! i)" by simp
  then show "Term (full ! i) = Term (G ! i)" by (metis strip_chan_simps(1))
qed

lemma snap_term_save: "snap_term_ok G (request_save r) \<longleftrightarrow> snap_term_ok G r"
  by (simp add: snap_term_ok_def)

lemma snap_term_follows:
  assumes "rsm ops a full F" and "prefix (map strip_chan full) (map strip_chan G)"
  shows "snap_term_ok G F \<longleftrightarrow> snap_term_ok full F"
  using assms(1) prefix_terms(2) [OF assms(2), of "nat (snap_index F - 1)"]
  by (cases "snap_index F > 0") (simp_all add: snap_term_ok_def prev_term_def rsm_def go_len_def nat_less_iff)

text \<open>What a leader sends is a piece of its log.\<close>

lemma prepare_fits:
  assumes "leader_ok ops a T G L" and "prepareLogRequestArgs L f = Some (args, s)"
  shows "lr_Term args = T \<and> request_fits G (commitedLength L) args"
proof -
  have L: "rsm ops a G L" "currentTerm L = T" "in_int32 T" "in_int32 (abs_len L)" "\<forall>e \<in> set (raft_log L). wire_ok e"
    using assms(1) by (simp_all add: leader_ok_def)
  have len: "abs_len L = go_len G" using rsm_abs_len [OF L(1)] .
  have r: "0 \<le> snap_index L" "snap_index L \<le> commitedLength L" "commitedLength L \<le> go_len G"
    "raft_log L = drop (nat (snap_index L)) G" using L(1) by (simp_all add: rsm_def)
  have bare: "request_fits G (commitedLength L) (bare_args L)"
    using r by (auto simp: request_fits_def bare_args_def in_int32_def intro!: exI [of _ 0])
  from assms(2) obtain nx where nx: "next_index L f = Some nx" by (auto simp: prepareLogRequestArgs_def split: bind_splits)
  let ?p = "nx - 1" and ?rel = "nx - 1 - snap_index L - 1"
  consider (bare) "args = bare_args L"
    | (log) "nx > snap_index L" "?p \<le> go_len G" "\<exists>ps. mapM to_pb_entry (drop (nat ?p) G) = Some ps \<and> Suffix args = ps \<and>
        lr_Term args = int32 T \<and> PrefixLen args = int32 ?p \<and> CommitLength args = int32 (commitedLength L)"
  proof (cases "nx \<le> snap_index L \<or> (?p \<noteq> 0 \<and> ?p \<noteq> snap_index L \<and> (?rel < 0 \<or> ?rel \<ge> go_len (raft_log L)))")
    case True
    then show thesis using assms(2) nx bare by (intro that(1)) (auto simp: prepareLogRequestArgs_def Let_def split: if_splits)
  next
    case False
    then have b: "nx > snap_index L" "?p \<le> go_len G" using len r(1) by (auto simp: go_len_def)
    have "nat (nx - snap_index L - 1) + nat (snap_index L) = nat ?p" using b(1) r(1) by simp
    with False b r(1) len have "mapM to_pb_entry (drop (nat ?p) G) = Some (Suffix args) \<and> lr_Term args = int32 T \<and>
        PrefixLen args = int32 ?p \<and> CommitLength args = int32 (commitedLength L)"
      using assms(2) nx L(2)
      by (auto simp: prepareLogRequestArgs_def Let_def go_slice_from_def r(4) split: if_splits bind_splits)
    with b show thesis by (intro that(2)) auto
  qed
  then show ?thesis
  proof cases
    case bare
    then show ?thesis using \<open>request_fits G (commitedLength L) (bare_args L)\<close> L(2,3) by (simp add: bare_args_def)
  next
    case log
    have "drop (nat ?p) G = drop (nat (?p - snap_index L)) (raft_log L)" using r(1,4) log(1) by (simp flip: nat_add_distrib)
    then have "\<forall>e \<in> set (drop (nat ?p) G). wire_ok e" using L(5) by (auto dest: in_set_dropD)
    from mapM_wire [OF this] log(3) have "mapM from_pb_entry (Suffix args) = Some (map strip_chan (drop (nat ?p) G))" by auto
    moreover have "in_int32 ?p" "in_int32 (commitedLength L)" using L(4) len log(1,2) r(1-3) by (auto simp: in_int32_def)
    ultimately show ?thesis using log(3) L(3,4) len log(1,2) r(1)
      unfolding request_fits_def by (intro conjI exI [of _ "nat ?p"] exI [of _ "length G"]) (auto simp: go_len_def)
  qed
qed

text \<open>A follower that appends such a piece is ahead on the same log.\<close>

lemma append_piece:
  assumes "follows ops a G F" and "p \<le> m" and "m \<le> length G" and "in_int32 (int m)" and "PrefixLen args = int p"
    and "mapM from_pb_entry (Suffix args) = Some (map strip_chan (drop p (take m G)))"
    and "PrefixLen args \<le> abs_len F" and "currentTerm F = T" and "in_int32 T"
  shows "\<exists>F'. LogRequest_append ops F args = Some (F', \<lparr>lr_NodeId = int32 (raft_id F), lr_CurrentTerm = T, Ack = int m, lr_Success = True\<rparr>) \<and>
    follows ops a G F' \<and> core F' = core F \<and> abs_len F' = max (abs_len F) (int m) \<and>
    commitedLength F' = max (commitedLength F) (min (CommitLength args) (abs_len F')) \<and>
    (snap_term_ok G F \<longrightarrow> snap_term_ok G F')"
proof -
  from assms(1) obtain full where full: "rsm ops a full F" "prefix (map strip_chan full) (map strip_chan G)"
    by (auto simp: follows_def)
  note pm = assms(2-6)
  let ?suf = "map strip_chan (drop p (take m G))" and ?full' = "full @ drop (length full - p) (map strip_chan (drop p (take m G)))"
  have len: "p \<le> length full" using assms(7) pm(4) rsm_abs_len [OF full(1)] by (simp add: go_len_def)
  obtain zs where zs: "map strip_chan G = map strip_chan full @ zs" using full(2) by (auto simp: prefix_def)
  have fG: "take (length full) (map strip_chan G) = map strip_chan full" "length full \<le> length G"
    using arg_cong [OF zs, of length] by (simp add: zs, simp)
  note terms = prefix_terms(2) [OF full(2)]
  have "Term (hd ?suf) = Term (G ! p)" if "p < m"
    using that pm(2) by (simp add: hd_map hd_drop_conv_nth)
  then have nc: "\<not> first_conflict 0 (int p) ?suf full"
    using terms [of p] by (cases "p < m") (auto simp: first_conflict_def go_len_def)
  have nc': "\<not> first_conflict (snap_index F) (int p) ?suf (raft_log F)"
    using nc full(1) by (auto simp: first_conflict_def go_len_def rsm_def nat_diff_distrib)
  have fa: "full_append (snap_index F) (int p) ?suf full = ?full'"
    using nc len by (simp add: full_append_def go_len_def nat_diff_distrib flip: of_nat_diff)
  have kc: "keeps_committed F (int p) ?suf" using nc' by (simp add: keeps_committed_def)
  from appendEntries_rsm [OF full(1) _ kc, of "CommitLength args"] assms(7) pm(4) obtain F' where
    F': "appendEntries ops F (int p) (CommitLength args) ?suf = Some F'" "core F' = core F" "rsm ops a ?full' F'"
      "commitedLength F' = max (commitedLength F) (min (CommitLength args) (go_len ?full'))"
      "snap_term_ok full F \<longrightarrow> snap_term_ok ?full' F'" unfolding fa by auto
  have len': "length ?full' = max (length full) m" using pm(1,2) len by auto
  have "map strip_chan ?full' = take (max (length full) m) (map strip_chan G)"
  proof -
    have "map strip_chan ?full' = take (length full) (map strip_chan G) @ drop (length full) (take m (map strip_chan G))"
      using len fG(1) by (simp add: drop_map take_map comp_def)
    then show ?thesis by (simp only: take_max)
  qed
  then have pre: "prefix (map strip_chan ?full') (map strip_chan G)" by (simp only: take_is_prefix)
  then have 1: "follows ops a G (request_save F')" using F'(3) unfolding follows_def
    by (intro exI [of _ ?full']) (simp add: rsm_def)
  have 2: "currentTerm F' = T" "raft_id F' = raft_id F" using F'(2) assms(8) by (simp_all add: core_def)
  then have 3: "LogRequest_append ops F args = Some (request_save F', \<lparr>lr_NodeId = int32 (raft_id F),
      lr_CurrentTerm = T, Ack = int m, lr_Success = True\<rparr>)"
    using F'(1) pm assms(9) by (simp add: LogRequest_append_def convertLogRequestArgs_def go_len_def)
  have 4: "abs_len F' = max (abs_len F) (int m)"
    using rsm_abs_len [OF F'(3)] rsm_abs_len [OF full(1)] len' by (simp only: go_len_def of_nat_max)
  have 5: "commitedLength F' = max (commitedLength F) (min (CommitLength args) (abs_len F'))"
    unfolding F'(4) rsm_abs_len [OF F'(3)] ..
  have 6: "snap_term_ok G F \<longrightarrow> snap_term_ok G (request_save F')"
    using F'(5) snap_term_follows [OF full] snap_term_follows [OF F'(3) pre] snap_term_save [of G F'] by blast
  show ?thesis using 1 4 5 6 F'(2) unfolding 3 by simp
qed

lemma append_follows:
  assumes "follows ops a G F" and "request_fits G k args" and "PrefixLen args \<le> abs_len F" and "currentTerm F = T" and "in_int32 T"
  shows "\<exists>F' resp. LogRequest_append ops F args = Some (F', resp) \<and> follows ops a G F' \<and> currentTerm F' = T \<and>
    abs_len F \<le> abs_len F' \<and> commitedLength F' \<le> max (commitedLength F) k \<and>
    lr_CurrentTerm resp = T \<and> Ack resp \<le> abs_len F'"
proof -
  from assms(2) obtain p m where pm: "p \<le> m" "m \<le> length G" "in_int32 (int m)" "PrefixLen args = int p"
    "mapM from_pb_entry (Suffix args) = Some (map strip_chan (drop p (take m G)))" "CommitLength args \<le> k"
    by (auto simp: request_fits_def)
  from append_piece [OF assms(1) pm(1-5) assms(3-5)] obtain F' where
    F': "LogRequest_append ops F args = Some (F', \<lparr>lr_NodeId = int32 (raft_id F), lr_CurrentTerm = T, Ack = int m, lr_Success = True\<rparr>)"
      "follows ops a G F'" "core F' = core F" "abs_len F' = max (abs_len F) (int m)"
      "commitedLength F' = max (commitedLength F) (min (CommitLength args) (abs_len F'))" by blast
  have "commitedLength F' \<le> max (commitedLength F) k"
    unfolding F'(5) by (rule max.mono [OF order.refl min.coboundedI1 [OF pm(6)]])
  moreover have "currentTerm F' = T" using F'(3) assms(4) by (simp add: core_def)
  ultimately show ?thesis using F'(2,4) unfolding F'(1) by simp
qed

section \<open>Steps\<close>

lemma finite_holders: "finite (holders n ns i)"
  by (rule finite_subset [of _ "{0..<n}"]) (auto simp: holders_def)

lemma holders_mono:
  assumes "\<And>j. j \<in> {0..<n} \<Longrightarrow> abs_len (ns j) \<le> abs_len (ns' j)"
  shows "card (holders n ns i) \<le> card (holders n ns' i)"
proof (rule card_mono)
  show "finite (holders n ns' i)" by (rule finite_holders)
  show "holders n ns i \<subseteq> holders n ns' i" using assms by (force simp: holders_def)
qed

lemma steadyD:
  assumes "steady ops a n l T G c"
  shows "leader_ok (ops l) (a l) T G (nodes c l)" "raft_id (nodes c l) = l" "totalNodes (nodes c l) = n"
    "j \<in> {0..<n} - {l} \<Longrightarrow> follower_ok (ops j) (a j) T G (nodes c l) (nodes c j) j"
    "messages_ok ({0..<n} - {l}) T G (commitedLength (nodes c l)) c"
    "i < commitedLength (nodes c l) \<Longrightarrow> 2 * int (card (holders n (nodes c) i)) > n"
  using assms by (simp_all add: steady_def)

text \<open>A step of the leader: its log may grow, and so may the committed part, as long as a majority holds it.\<close>

lemma steady_leader:
  assumes "steady ops a n l T G c" and "leader_ok (ops l) (a l) T G' L'" and "prefix G G'"
    and "raft_id L' = l" and "totalNodes L' = n" and "commitedLength (nodes c l) \<le> commitedLength L'"
    and "\<And>j. j \<in> {0..<n} - {l} \<Longrightarrow> ackedLengths L' ! nat j \<le> abs_len (nodes c j)"
    and "\<And>i. commitedLength (nodes c l) \<le> i \<Longrightarrow> i < commitedLength L' \<Longrightarrow> 2 * int (card (holders n ((nodes c)(l := L')) i)) > n"
  shows "steady ops a n l T G' (c\<lparr>nodes := (nodes c)(l := L')\<rparr>)"
proof -
  note S = steadyD [OF assms(1)]
  have len: "abs_len (nodes c l) \<le> abs_len L'"
    using S(1) assms(2,3) rsm_abs_len [of "ops l" "a l" G "nodes c l"] rsm_abs_len [of "ops l" "a l" G' L']
    by (auto simp: leader_ok_def go_len_def dest: prefix_length_le)
  have "messages_ok ({0..<n} - {l}) T G' (commitedLength L') (c\<lparr>nodes := (nodes c)(l := L')\<rparr>)"
    using S(5) request_fits_mono [OF _ assms(3,6)] by (simp add: messages_ok_def)
  moreover have "2 * int (card (holders n ((nodes c)(l := L')) i)) > n" if "i < commitedLength L'" for i
  proof (cases "i < commitedLength (nodes c l)")
    case True
    have "card (holders n (nodes c) i) \<le> card (holders n ((nodes c)(l := L')) i)" using len by (intro holders_mono) simp
    with S(6) [OF True] show ?thesis by linarith
  next
    case False
    then show ?thesis using assms(8) that by simp
  qed
  moreover have "follower_ok (ops j) (a j) T G' L' (nodes c j) j" if "j \<in> {0..<n} - {l}" for j
    using S(4) [OF that] assms(6) assms(7) [OF that] follows_mono [OF _ assms(3), of "ops j" "a j" "nodes c j"]
    by (simp add: follower_ok_def)
  ultimately show ?thesis using assms(2,4,5) by (simp add: steady_def)
qed

text \<open>A step of a follower, with the messages it takes note of.\<close>

lemma steady_follower:
  assumes "steady ops a n l T G c" and "j \<in> {0..<n} - {l}" and "follows (ops j) (a j) G F'"
    and "currentTerm (nodes c j) \<le> currentTerm F'" and "currentTerm F' \<le> T"
    and "commitedLength F' \<le> commitedLength (nodes c l)" and "abs_len (nodes c j) \<le> abs_len F'"
    and "\<And>args. (j, args) \<in> as \<Longrightarrow> (j, args) \<in> logRequests c \<union> accepted c \<and> currentTerm F' = T \<and> PrefixLen args \<le> abs_len F'"
    and "\<And>resp. (j, resp) \<in> rs \<Longrightarrow> lr_CurrentTerm resp = T \<and> (lr_Success resp \<longrightarrow> Ack resp \<le> abs_len F')"
    and "as \<subseteq> {j} \<times> UNIV" and "rs \<subseteq> {j} \<times> UNIV"
  shows "steady ops a n l T G (c\<lparr>nodes := (nodes c)(j := F'), accepted := as \<union> accepted c, logReplies := rs \<union> logReplies c\<rparr>)"
proof -
  note S = steadyD [OF assms(1)]
  have len: "abs_len (nodes c i) \<le> abs_len (((nodes c)(j := F')) i)" for i using assms(7) by simp
  have m: "(i, args) \<in> logRequests c \<Longrightarrow> i \<in> {0..<n} - {l} \<and> lr_Term args = T \<and> request_fits G (commitedLength (nodes c l)) args"
    "(i, args) \<in> accepted c \<Longrightarrow> i \<in> {0..<n} - {l} \<and> currentTerm (nodes c i) = T \<and>
       request_fits G (commitedLength (nodes c l)) args \<and> PrefixLen args \<le> abs_len (nodes c i)"
    "(i, resp) \<in> logReplies c \<Longrightarrow> i \<in> {0..<n} - {l} \<and> lr_CurrentTerm resp = T \<and> (lr_Success resp \<longrightarrow> Ack resp \<le> abs_len (nodes c i))"
    for i args resp using S(5) by (simp_all add: messages_ok_def)
  have "messages_ok ({0..<n} - {l}) T G (commitedLength (nodes c l))
      (c\<lparr>nodes := (nodes c)(j := F'), accepted := as \<union> accepted c, logReplies := rs \<union> logReplies c\<rparr>)"
  proof -
    have "i \<in> {0..<n} - {l} \<and> currentTerm (((nodes c)(j := F')) i) = T \<and>
        request_fits G (commitedLength (nodes c l)) args \<and> PrefixLen args \<le> abs_len (((nodes c)(j := F')) i)"
      if "(i, args) \<in> as \<union> accepted c" for i args
    proof (cases "(i, args) \<in> accepted c")
      case True
      with m(2) [OF this] assms(4,5,7) show ?thesis by auto
    next
      case False
      with that assms(10) have "i = j" "(j, args) \<in> as" by auto
      with assms(8) [OF this(2)] False m(1) [of j args] show ?thesis by auto
    qed
    moreover have "i \<in> {0..<n} - {l} \<and> lr_CurrentTerm resp = T \<and> (lr_Success resp \<longrightarrow> Ack resp \<le> abs_len (((nodes c)(j := F')) i))"
      if "(i, resp) \<in> rs \<union> logReplies c" for i resp
    proof (cases "(i, resp) \<in> logReplies c")
      case True
      with m(3) [OF this] assms(7) show ?thesis by auto
    next
      case False
      with that assms(11) have "i = j" "(j, resp) \<in> rs" by auto
      with assms(9) [OF this(2)] assms(2) show ?thesis by auto
    qed
    ultimately show ?thesis using m(1) by (simp add: messages_ok_def)
  qed
  moreover have "2 * int (card (holders n ((nodes c)(j := F')) i)) > n" if "i < commitedLength (nodes c l)" for i
    using S(6) [OF that] holders_mono [of n "nodes c" "(nodes c)(j := F')" i, OF len] by linarith
  moreover have "follower_ok (ops i) (a i) T G (nodes c l) (((nodes c)(j := F')) i) i" if "i \<in> {0..<n} - {l}" for i
    using S(4) [OF that] assms(3,5-7) by (cases "i = j") (auto simp: follower_ok_def)
  ultimately show ?thesis using assms(2) S(1-3) by (simp add: steady_def)
qed

lemma steady_leader_idle:
  assumes "steady ops a n l T G c" and "data L' = data (nodes c l)" and "tables L' = tables (nodes c l)"
    and "currentTerm L' = currentTerm (nodes c l)" and "ackedLengths L' = ackedLengths (nodes c l)"
  shows "steady ops a n l T G (c\<lparr>nodes := (nodes c)(l := L')\<rparr>)"
proof -
  note S = steadyD [OF assms(1)]
  have "leader_ok (ops l) (a l) T G L'"
    using S(1) rsm_data [OF assms(2)] member_tables [OF assms(3)] assms(2-4) by (simp add: leader_ok_def data_def tables_def)
  from steady_leader [OF assms(1) this] S assms(2,3,5) show ?thesis
    by (simp add: data_def tables_def follower_ok_def)
qed

lemma steady_follower_idle:
  assumes "steady ops a n l T G c" and "j \<in> {0..<n} - {l}" and "data F' = data (nodes c j)"
    and "currentTerm F' = currentTerm (nodes c j)"
  shows "steady ops a n l T G (c\<lparr>nodes := (nodes c)(j := F')\<rparr>)"
proof -
  have F: "follower_ok (ops j) (a j) T G (nodes c l) (nodes c j) j" using steadyD(4) [OF assms(1,2)] .
  then have "follows (ops j) (a j) G F'" using rsm_data [OF assms(3)] by (simp add: follower_ok_def follows_def)
  from steady_follower [OF assms(1,2) this, of "{}" "{}"] F assms(3,4) show ?thesis
    by (simp add: follower_ok_def data_def)
qed

lemma steady_idle:
  assumes "steady ops a n l T G c" and "0 \<le> j" and "j < n" and "data r' = data (nodes c j)" and "tables r' = tables (nodes c j)"
    and "currentTerm r' = currentTerm (nodes c j)" and "ackedLengths r' = ackedLengths (nodes c j)"
  shows "steady ops a n l T G (c\<lparr>nodes := (nodes c)(j := r')\<rparr>)"
  using assms steady_leader_idle [of ops a n l T G c r'] steady_follower_idle [of ops a n l T G c j r'] by (cases "j = l") simp_all

lemma replicated_holders:
  assumes "\<And>j. j \<in> {0..<n} - {l} \<Longrightarrow> ackedLengths L ! nat j \<le> abs_len (ns j)" and "i < abs_len (ns l)"
    and "raft_id L = l" and "totalNodes L = n" and "0 \<le> l" and "l < n"
  shows "card (replicated_on L i) \<le> card (holders n ns i)"
proof (rule card_mono)
  show "finite (holders n ns i)" by (rule finite_holders)
  have "x \<in> holders n ns i" if "x \<in> replicated_on L i" for x
    using that assms(2-6) assms(1) [of x] by (cases "x = l") (auto simp: replicated_on_def holders_def)
  then show "replicated_on L i \<subseteq> holders n ns i" by blast
qed

lemma reply_steady:
  assumes "steady ops a n l T G c" and "(j, resp) \<in> logReplies c"
    and "replicate_response (ops l) j resp (nodes c l) = Some r'"
  shows "steady ops a n l T G (c\<lparr>nodes := (nodes c)(l := r')\<rparr>)"
proof -
  note S = steadyD [OF assms(1)]
  let ?L = "nodes c l" and ?L1 = "on_replicator (\<lambda>p. p\<lparr>consecutiveFailures := 0\<rparr>) j (nodes c l)"
  have j: "0 \<le> j" "j < n" "j \<noteq> l" and resp: "lr_CurrentTerm resp = T" "lr_Success resp \<Longrightarrow> Ack resp \<le> abs_len (nodes c j)"
    using S(5) assms(2) by (auto simp: messages_ok_def)
  have L: "rsm (ops l) (a l) G ?L" "member ?L" "currentTerm ?L = T" "int32 T = T" using S(1) by (simp_all add: leader_ok_def)
  have l: "0 \<le> l" "l < n" and len: "j < go_len (sentLengths ?L)" "j < go_len (ackedLengths ?L)"
    using L(2) S(2,3) j(2) by (auto simp: member_def)
  consider (ack) "currentRole ?L = Leader" "lr_Success resp" | (nack) "currentRole ?L = Leader" "\<not> lr_Success resp"
    | (old) "currentRole ?L \<noteq> Leader" by blast
  then show ?thesis
  proof cases
    case ack
    let ?L2 = "?L1\<lparr>sentLengths := (sentLengths ?L)[nat j := Ack resp + 1], ackedLengths := (ackedLengths ?L)[nat j := Ack resp]\<rparr>"
    have c: "commitLogEntries (ops l) ?L2 = Some r'"
      using assms(3) ack resp L(3,4) j(1) len by (simp add: replicate_response_def go_store_Some)
    have acked: "ackedLengths ?L2 ! nat i \<le> abs_len (nodes c i)" if "i \<in> {0..<n} - {l}" for i
      using S(4) [OF that] resp(2) [OF ack(2)] len(2) j(1) that
      by (auto simp: follower_ok_def nth_list_update go_len_def nat_eq_iff)
    have ok: "member ?L2" "rsm (ops l) (a l) G ?L2" using L(1,2) by (simp_all add: member_def rsm_def)
    have b: "snap_index ?L2 \<le> commitedLength ?L2" "commitedLength ?L2 \<le> abs_len ?L2"
      using ok(2) rsm_abs_len [OF ok(2)] by (simp_all add: rsm_def)
    from commitLogEntries_eq [OF ok(1) b, of "ops l"] c have
      m: "\<forall>i. commitedLength ?L \<le> i \<and> i < commitedLength r' \<longrightarrow> i < abs_len ?L \<and> 2 * int (card (replicated_on ?L2 i)) > n"
      "raft_log r' = raft_log ?L" "snapshotter r' = snapshotter ?L"
      using S(3) by auto
    from commitLogEntries_rsm [OF ok(2,1)] c have r': "rsm (ops l) (a l) G r'" "core r' = core ?L2"
      "commitedLength ?L \<le> commitedLength r'" by auto
    have "2 * int (card (holders n ((nodes c)(l := r')) i)) > n" if "commitedLength ?L \<le> i" "i < commitedLength r'" for i
    proof -
      have "card (replicated_on ?L2 i) \<le> card (holders n ((nodes c)(l := r')) i)"
        using acked m that l S(2,3) by (intro replicated_holders) simp_all
      with m(1) that show ?thesis by force
    qed
    moreover have "leader_ok (ops l) (a l) T G r'" using r' m(2,3) S(1) by (simp add: leader_ok_def core_def member_def)
    ultimately show ?thesis using steady_leader [OF assms(1), of G r'] r'(2,3) S(2,3) acked by (simp add: core_def)
  next
    case nack
    with assms(3) resp L(3,4) j(1) len have "data r' = data ?L" "tables r' = tables ?L" "currentTerm r' = currentTerm ?L"
      "ackedLengths r' = ackedLengths ?L"
      by (auto simp: replicate_response_def go_store_Some go_index_Some data_def tables_def Let_def split: if_splits)
    then show ?thesis by (rule steady_leader_idle [OF assms(1)])
  next
    case old
    with assms(3) resp L(3,4) have "r' = ?L1" by (simp add: replicate_response_def)
    then show ?thesis by (auto simp: data_def tables_def intro!: steady_leader_idle [OF assms(1)])
  qed
qed

lemma check_steady:
  assumes "steady ops a n l T G c" and "(j, args) \<in> logRequests c" and "LogRequest_check (nodes c j) args = Some (r', resp)"
  shows "steady ops a n l T G (c\<lparr>nodes := (nodes c)(j := r'),
    accepted := (if resp = None then {(j, args)} else {}) \<union> accepted c, logReplies := Pair j ` set_option resp \<union> logReplies c\<rparr>)"
proof -
  note S = steadyD [OF assms(1)]
  let ?F = "nodes c j" and ?F1 = "accept_leader (nodes c j) (LeaderId args) T"
  have j: "j \<in> {0..<n} - {l}" and args: "lr_Term args = T" using S(5) assms(2) by (simp_all add: messages_ok_def)
  have F: "follower_ok (ops j) (a j) T G (nodes c l) ?F j" using S(4) [OF j] .
  then have t: "currentTerm ?F1 = T" "currentTerm ?F \<le> T" and fo: "follows (ops j) (a j) G ?F" by (simp_all add: follower_ok_def)
  have snap: "0 \<le> snap_index ?F" using fo by (auto simp: follows_def rsm_def)
  have T: "int32 T = T" using S(1) by (simp add: leader_ok_def)
  have r': "r' = ResetTimer ?F1 \<and> resp = None \<and> prefix_ok ?F (PrefixLen args) (PrefixTerm args) \<or>
    r' = request_save ?F1 \<and> (\<exists>rs. resp = Some rs \<and> lr_CurrentTerm rs = T \<and> \<not> lr_Success rs)"
    using assms(3) t T args
    by (auto simp: LogRequest_check_def convertLogRequestArgs_def Let_def split: bind_splits if_splits)
  then have d: "data r' = data ?F" "currentTerm r' = T" using t by (auto simp: data_def)
  have "follows (ops j) (a j) G r'" using fo rsm_data [OF d(1)] by (simp add: follows_def)
  then show ?thesis
    using d t F assms(2) prefix_ok_bounds [of ?F "PrefixLen args" "PrefixTerm args"] snap r'
    by (intro steady_follower [OF assms(1) j]) (auto simp: data_def follower_ok_def split: if_splits)
qed

lemma append_steady:
  assumes "steady ops a n l T G c" and "(j, args) \<in> accepted c" and "LogRequest_append (ops j) (nodes c j) args = Some (r', resp)"
  shows "steady ops a n l T G (c\<lparr>nodes := (nodes c)(j := r'), logReplies := insert (j, resp) (logReplies c)\<rparr>)"
proof -
  note S = steadyD [OF assms(1)]
  have j: "j \<in> {0..<n} - {l}" and args: "currentTerm (nodes c j) = T" "request_fits G (commitedLength (nodes c l)) args"
    "PrefixLen args \<le> abs_len (nodes c j)" using S(5) assms(2) by (simp_all add: messages_ok_def)
  have F: "follower_ok (ops j) (a j) T G (nodes c l) (nodes c j) j" using S(4) [OF j] .
  have "in_int32 T" using S(1) by (simp add: leader_ok_def)
  from append_follows [OF _ args(2,3,1) this, of "ops j" "a j"] F assms(3) have
    r': "follows (ops j) (a j) G r'" "currentTerm r' = T" "abs_len (nodes c j) \<le> abs_len r'"
      "commitedLength r' \<le> max (commitedLength (nodes c j)) (commitedLength (nodes c l))"
      "lr_CurrentTerm resp = T" "Ack resp \<le> abs_len r'" by (auto simp: follower_ok_def)
  then show ?thesis using steady_follower [OF assms(1) j r'(1), of "{}" "{(j, resp)}"] F args(1)
    by (simp add: follower_ok_def)
qed

lemma broadcast_steady:
  assumes "steady ops a n l T G c" and "Broadcast peers (nodes c l) message = Some (r', Appended)"
    and "in_int32 (abs_len r')" and "wire_ok \<lparr>Term = currentTerm r', Msg = message\<rparr>"
  shows "steady ops a n l T (G @ [\<lparr>Term = T, Msg = message\<rparr>]) (c\<lparr>nodes := (nodes c)(l := r')\<rparr>)"
proof -
  note S = steadyD [OF assms(1)]
  have L: "rsm (ops l) (a l) G (nodes c l)" "member (nodes c l)" "currentTerm (nodes c l) = T" using S(1) by (simp_all add: leader_ok_def)
  from assms(2) have b: "broadcast_append (nodes c l) message = Some r'"
    by (auto simp: Broadcast_def split: prod.splits if_splits)
  with broadcast_append_rsm [OF L(1,2), of message] L(3) have
    r': "rsm (ops l) (a l) (G @ [\<lparr>Term = T, Msg = message\<rparr>]) r'" "member r'" "commitedLength r' = commitedLength (nodes c l)" by auto
  from b L(2) S(2) have f: "raft_id r' = l" "totalNodes r' = n" "currentTerm r' = T"
    "raft_log r' = raft_log (nodes c l) @ [\<lparr>Term = T, Msg = message\<rparr>]"
    "ackedLengths r' = (ackedLengths (nodes c l))[nat l := abs_len r']"
    using S(3) L(3) by (auto simp: broadcast_append_def go_store_def Let_def split: if_splits)
  have "leader_ok (ops l) (a l) T (G @ [\<lparr>Term = T, Msg = message\<rparr>]) r'"
    using S(1,2) r' f assms(3,4) by (simp add: leader_ok_def)
  moreover have "ackedLengths r' ! nat j \<le> abs_len (nodes c j)" if "j \<in> {0..<n} - {l}" for j
    using S(4) [OF that] that L(2) S(2) by (auto simp: follower_ok_def f(5) nth_list_update member_def go_len_def nat_eq_iff)
  ultimately show ?thesis using r'(3) f(1,2) by (intro steady_leader [OF assms(1)]) simp_all
qed

text \<open>The leader's log as a ghost: it only grows, and the rest follows.\<close>

lemma replication_step_steady:
  assumes "replication_step ops n l c c'" and "steady ops a n l T G c"
  shows "\<exists>G'. prefix G G' \<and> steady ops a n l T G' c'"
  using assms(1)
proof cases
  case (rs_broadcast peers message r')
  then show ?thesis using broadcast_steady [OF assms(2)] by (auto intro!: exI [of _ "G @ [\<lparr>Term = T, Msg = message\<rparr>]"])
next
  case (rs_send j available peers args s)
  from rs_send(5) have "prepareLogRequestArgs (nodes c l) j = Some (args, s)"
    by (auto simp: replicate_start_def split: if_splits bind_splits)
  from prepare_fits [OF steadyD(1) [OF assms(2)] this] assms(2) rs_send(2-4) show ?thesis
    unfolding rs_send(1) by (intro exI [of _ G]) (simp add: steady_def messages_ok_def)
next
  case (rs_check j args r')
  then show ?thesis using check_steady [OF assms(2), of j args r' None] by auto
next
  case (rs_refuse j args r' resp)
  then show ?thesis using check_steady [OF assms(2), of j args r' "Some resp"] by auto
next
  case (rs_append j args r' resp)
  then show ?thesis using append_steady [OF assms(2)] by auto
next
  case (rs_reply j resp r')
  then show ?thesis using reply_steady [OF assms(2)] by auto
next
  case (rs_failed j)
  have "steady ops a n l T G c'" unfolding rs_failed
    using replicate_failed_idle [of j "nodes c l"] 
    by (intro steady_leader_idle [OF assms(2)]) (simp_all add: replicate_failed_def checkQuorumHealth_def Let_def)
  then show ?thesis by auto
next
  case (rs_heartbeat j)
  then have "steady ops a n l T G c'"
    using steady_idle [OF assms(2), of j] by (simp add: receiveHeartbeat_def data_def tables_def)
  then show ?thesis by auto
next
  case (rs_save j rds)
  then have "steady ops a n l T G c'" using steady_idle [OF assms(2), of j] by (simp add: data_def tables_def)
  then show ?thesis by auto
qed

interpretation replication: step_invariant "replication_step ops n l" "\<lambda>c. \<exists>G'. prefix G G' \<and> steady ops a n l T G' c"
  for ops n l a T G
proof unfold_locales
  fix s t assume "replication_step ops n l s t" and "\<exists>G'. prefix G G' \<and> steady ops a n l T G' s"
  then show "\<exists>G'. prefix G G' \<and> steady ops a n l T G' t"
    using replication_step_steady [of ops n l s t a T] by (meson prefix_order.trans)
qed

section \<open>A term of office\<close>

text \<open>
  A leader takes office with log \<open>G\<close>: every other log is a beginning of it, nobody has committed
  more than the leader, a majority holds what is committed, the leader counts no acknowledgement yet, and no
  message of this term is under way.
\<close>

definition takes_office :: "(int \<Rightarrow> ('d, 'a) Application) \<Rightarrow> (int \<Rightarrow> 'a) \<Rightarrow> int \<Rightarrow> int \<Rightarrow> 'd LogEntry list \<Rightarrow>
    ('d, 'a) replication \<Rightarrow> bool" where
  "takes_office ops a n l G c \<longleftrightarrow>
     leader_ok (ops l) (a l) (currentTerm (nodes c l)) G (nodes c l) \<and> raft_id (nodes c l) = l \<and> totalNodes (nodes c l) = n \<and>
     (\<forall>j \<in> {0..<n} - {l}. follows (ops j) (a j) G (nodes c j) \<and> currentTerm (nodes c j) \<le> currentTerm (nodes c l) \<and>
        commitedLength (nodes c j) \<le> commitedLength (nodes c l) \<and> ackedLengths (nodes c l) ! nat j = 0) \<and>
     (\<forall>i < commitedLength (nodes c l). 2 * int (card (holders n (nodes c) i)) > n) \<and>
     logRequests c = {} \<and> accepted c = {} \<and> logReplies c = {}"

lemma takes_office_steady: "takes_office ops a n l G c \<Longrightarrow> steady ops a n l (currentTerm (nodes c l)) G c"
  by (auto simp: takes_office_def steady_def follower_ok_def messages_ok_def follows_def rsm_def)

lemma steady_prefix:
  assumes "steady ops a n l T G c" and "j \<in> {0..<n}"
  shows "follows (ops j) (a j) G (nodes c j)" "commitedLength (nodes c j) \<le> commitedLength (nodes c l)"
  using steadyD(1,4) [OF assms(1)] assms(2) by (auto simp: follower_ok_def leader_ok_def follows_def)

text \<open>An application that does not look at the channel on which the client waits.\<close>

definition chan_blind :: "('d, 'a) Application \<Rightarrow> bool" where
  "chan_blind ops \<longleftrightarrow> (\<forall>a m. app_step ops a (m\<lparr>ResponseChan := None\<rparr>) = app_step ops a m)"

lemma replay_strip: "chan_blind ops \<Longrightarrow> replay ops a (map strip_chan es) = replay ops a es"
  by (induction es arbitrary: a) (simp_all add: chan_blind_def strip_chan_def)

lemma steady_application:
  assumes "steady ops a n l T G c" and "j \<in> {0..<n}" and "chan_blind (ops j)"
  shows "application (nodes c j) = replay (ops j) (a j) (take (nat (commitedLength (nodes c j))) G)"
proof -
  let ?k = "nat (commitedLength (nodes c j))"
  from steady_prefix(1) [OF assms(1,2)] obtain full zs where
    f: "rsm (ops j) (a j) full (nodes c j)" "map strip_chan G = map strip_chan full @ zs"
    by (auto simp: follows_def prefix_def)
  have "take ?k (map strip_chan G) = take ?k (map strip_chan full)" using f by (simp add: rsm_def go_len_def nat_le_iff)
  then have "replay (ops j) (a j) (take ?k full) = replay (ops j) (a j) (take ?k G)"
    using replay_strip [OF assms(3), of "a j"] by (metis take_map)
  then show ?thesis using f(1) by (simp add: rsm_def)
qed

end
