(* ===== verification/Raft_Catchup.thy ===== *)
theory Raft_Catchup
  imports Raft_Steady Raft_Snapshot
begin

text \<open>
  Whole rounds of a replicator with one follower: how a leader that starts too far ahead walks back
  until the follower accepts, and where it stops walking.
\<close>

section \<open>A round\<close>

text \<open>
  \<open>replicate\<close> with the follower at the other end. \<open>rpc\<close> says whether the call of \<open>LogRequest\<close>
  comes through, \<open>net\<close> the same for the pieces of a snapshot.
\<close>

definition replicate_round :: "('d, 'a) Application \<Rightarrow> ('d, 'a) Application \<Rightarrow> (int \<Rightarrow> bool) \<Rightarrow> (int \<Rightarrow> bool) \<Rightarrow>
    bool \<Rightarrow> (nat \<Rightarrow> bool) \<Rightarrow> int \<Rightarrow> ('d, 'a) Raft \<times> ('d, 'a) Raft \<Rightarrow> (('d, 'a) Raft \<times> ('d, 'a) Raft) option" where
  "replicate_round opsL opsF available peers rpc net f LF =
     (case LF of (L, F) \<Rightarrow> do {
        plan \<leftarrow> replicate_start available peers f L;
        case plan of
          PeerFailed \<Rightarrow> Some (replicate_failed f L, F)
        | NotLeader \<Rightarrow> Some (L, F)
        | SendSnapshot \<Rightarrow> sendInstallSnapshotRPC opsF peers net f L F
        | SendLog args snapshotToo \<Rightarrow>
            if \<not> rpc then Some (replicate_failed f L, F)
            else do {
              (F', resp) \<leftarrow> LogRequest opsF F args;
              L' \<leftarrow> replicate_response opsL f resp L;
              Some (L', F')
            }
      })"

text \<open>
  The loop of \<open>run\<close> over the events it selects: it ends when the replicator is stopped, and it
  replicates on every signal, which it takes from the channel, and on every tick of its heartbeat.
\<close>

datatype replicator_event = StopCh | SignalCh | HeartbeatC

definition take_signal :: "replicator_event \<Rightarrow> int \<Rightarrow> ('d, 'a) Raft \<Rightarrow> ('d, 'a) Raft" where
  "take_signal ev f r = (if ev = SignalCh then on_replicator (\<lambda>p. p\<lparr>signalCh := False\<rparr>) f r else r)"

fun Replicator_run :: "('d, 'a) Application \<Rightarrow> ('d, 'a) Application \<Rightarrow> (int \<Rightarrow> bool) \<Rightarrow> (int \<Rightarrow> bool) \<Rightarrow> bool \<Rightarrow> (nat \<Rightarrow> bool) \<Rightarrow>
    int \<Rightarrow> replicator_event list \<Rightarrow> ('d, 'a) Raft \<times> ('d, 'a) Raft \<Rightarrow> (('d, 'a) Raft \<times> ('d, 'a) Raft) option" where
  "Replicator_run opsL opsF available peers rpc net f [] LF = Some LF"
| "Replicator_run opsL opsF available peers rpc net f (ev # evs) LF =
     (if ev = StopCh then Some LF
      else do {
        LF' \<leftarrow> replicate_round opsL opsF available peers rpc net f (take_signal ev f (fst LF), snd LF);
        Replicator_run opsL opsF available peers rpc net f evs LF'
      })"

text \<open>The same with a follower that can always be reached.\<close>

abbreviation rounds :: "('d, 'a) Application \<Rightarrow> ('d, 'a) Application \<Rightarrow> (nat \<Rightarrow> bool) \<Rightarrow> int \<Rightarrow> replicator_event list \<Rightarrow>
    ('d, 'a) Raft \<times> ('d, 'a) Raft \<Rightarrow> (('d, 'a) Raft \<times> ('d, 'a) Raft) option" where
  "rounds opsL opsF \<equiv> Replicator_run opsL opsF (\<lambda>_. True) (\<lambda>_. True) True"

section \<open>What is sent\<close>

text \<open>A leader in office and what it knows of follower \<open>f\<close>.\<close>

definition serving :: "('d, 'a) Application \<Rightarrow> 'a \<Rightarrow> 'd LogEntry list \<Rightarrow> int \<Rightarrow> int \<Rightarrow> ('d, 'a) Raft \<Rightarrow> bool" where
  "serving ops a G f s L \<longleftrightarrow> leader_ok ops a (currentTerm L) G L \<and> currentRole L = Leader \<and> snap_term_ok G L \<and>
     in_int32 (lastTerm (snapshotter L)) \<and> 0 \<le> f \<and> f < totalNodes L \<and> sentLengths L ! nat f = s \<and>
     snap_index L < s \<and> s \<le> abs_len L + 1"

lemma servingD:
  assumes "serving ops a G f s L"
  shows "leader_ok ops a (currentTerm L) G L" "currentRole L = Leader" "rsm ops a G L" "member L" "0 \<le> f"
    "f < go_len (sentLengths L)" "f < go_len (ackedLengths L)" "f < totalNodes L" "abs_len L = go_len G" "in_int32 (currentTerm L)"
    "snap_index L < s" "s \<le> go_len G + 1" "sentLengths L ! nat f = s" "next_index L f = Some s" "0 \<le> snap_index L"
    "int32 (currentTerm L) = currentTerm L"
proof -
  show l: "leader_ok ops a (currentTerm L) G L" "currentRole L = Leader" "rsm ops a G L" "member L" "0 \<le> f" "f < totalNodes L"
    "in_int32 (currentTerm L)" "snap_index L < s" "sentLengths L ! nat f = s"
    using assms by (simp_all add: serving_def leader_ok_def)
  show len: "abs_len L = go_len G" using rsm_abs_len [OF l(3)] .
  show "s \<le> go_len G + 1" using assms len by (simp add: serving_def)
  show f: "f < go_len (sentLengths L)" "f < go_len (ackedLengths L)" using l(4,6) by (simp_all add: member_def)
  show "0 \<le> snap_index L" using l(3) by (simp add: rsm_def)
  then show "next_index L f = Some s" using l f by (simp add: next_index_def go_index_Some)
  show "int32 (currentTerm L) = currentTerm L" using l(7) by simp
qed

lemma serving_commit:
  assumes "serving ops a G f s L" and "rsm ops a G L'" and "tables L' = tables L" and "raft_log L' = raft_log L"
    and "snapshotter L' = snapshotter L" and "currentTerm L' = currentTerm L" and "currentRole L' = currentRole L"
    and "sentLengths L' ! nat f = s'" and "snap_index L < s'" and "s' \<le> abs_len L + 1"
  shows "serving ops a G f s' L'"
  using assms member_tables [OF assms(3)] by (simp add: serving_def leader_ok_def tables_def snap_term_ok_def)

lemma serving_idle:
  assumes "serving ops a G f s L" and "data L' = data L" and "tables L' = tables L"
    and "currentTerm L' = currentTerm L" and "currentRole L' = currentRole L"
    and "sentLengths L' ! nat f = s'" and "snap_index L < s'" and "s' \<le> abs_len L + 1"
  shows "serving ops a G f s' L'"
  using serving_commit [OF assms(1) _ assms(3) _ _ assms(4-8)] rsm_data [OF assms(2)] servingD(3) [OF assms(1)] assms(2)
  by (simp add: data_def)

lemma prepare_at:
  assumes "serving ops a G f s L"
  shows "\<exists>args. replicate_start (\<lambda>_. True) (\<lambda>_. True) f L = Some (SendLog args False) \<and>
    LeaderId args = int32 (raft_id L) \<and> lr_Term args = currentTerm L \<and> PrefixLen args = s - 1 \<and> PrefixTerm args = prev_term G (s - 1) \<and>
    CommitLength args = commitedLength L \<and>
    mapM from_pb_entry (Suffix args) = Some (map strip_chan (drop (nat (s - 1)) G))"
proof -
  note S = servingD [OF assms]
  let ?p = "nat (s - 1)" and ?li = "snap_index L"
  have log: "raft_log L = drop (nat ?li) G" "0 \<le> commitedLength L" "commitedLength L \<le> go_len G"
    using S(3) by (auto simp: rsm_def)
  have wire: "\<forall>e \<in> set (raft_log L). wire_ok e" "in_int32 (go_len G)"
    using S(1,9) by (simp_all add: leader_ok_def)
  have suf: "drop (nat (s - ?li - 1)) (raft_log L) = drop ?p G" using log(1) S(11,15) by (simp flip: nat_add_distrib)
  obtain ps where ps: "mapM to_pb_entry (drop ?p G) = Some ps" "mapM from_pb_entry ps = Some (map strip_chan (drop ?p G))"
    using mapM_wire [of "drop ?p G"] wire(1) unfolding suf [symmetric] by (auto dest: in_set_dropD)
  have tm: "Term (raft_log L ! nat (s - 1 - ?li - 1)) = prev_term G (s - 1) \<and> in_int32 (prev_term G (s - 1))" if "s - 1 \<noteq> ?li"
  proof -
    have "nat ?li + nat (s - 1 - ?li - 1) = nat (s - 1 - 1)" "nat (s - 1 - ?li - 1) < length (raft_log L)"
      using that S(9,11,12,15) by (auto simp: go_len_def)
    then have "raft_log L ! nat (s - 1 - ?li - 1) = G ! nat (s - 1 - 1)" "G ! nat (s - 1 - 1) \<in> set (raft_log L)"
      using log(1) nth_mem [of "nat (s - 1 - ?li - 1)" "raft_log L"] by (simp_all add: nth_drop)
    then show ?thesis using wire(1) that S(11,15) by (auto simp: prev_term_def wire_ok_def)
  qed
  have sn: "?li > 0 \<Longrightarrow> lastTerm (snapshotter L) = prev_term G ?li" "in_int32 (lastTerm (snapshotter L))"
    using assms by (simp_all add: serving_def snap_term_ok_def)
  have pt: "in_int32 (prev_term G (s - 1))"
    using tm sn S(15) by (cases "s - 1 = ?li"; cases "?li = 0") (auto simp: in_int32_def)
  have b: "in_int32 (s - 1)" "in_int32 (commitedLength L)" using wire(2) S(11,12,15) log(2,3) by (auto simp: in_int32_def)
  have "prepareLogRequestArgs L f = Some (\<lparr>LeaderId = int32 (raft_id L), lr_Term = currentTerm L, PrefixLen = s - 1,
      PrefixTerm = prev_term G (s - 1), CommitLength = commitedLength L, Suffix = ps\<rparr>, False)"
    using S(9-16) pt tm sn b suf ps(1)
    by (cases "s - 1 = ?li"; cases "s - 1 = 0") (auto simp: prepareLogRequestArgs_def Let_def go_slice_from_def)
  with ps(2) show ?thesis using S(2,5,11,14) by (auto simp: replicate_start_def getPeer_def)
qed

section \<open>What the follower answers\<close>

lemma prefix_ok_iff:
  assumes "follows ops a G F" and "snap_term_ok G F" and "0 \<le> p" and "p = 0 \<or> snap_index F \<le> p"
  shows "prefix_ok F p (prev_term G p) \<longleftrightarrow> p \<le> abs_len F"
proof -
  from assms(1) obtain full where f: "rsm ops a full F" "prefix (map strip_chan full) (map strip_chan G)"
    by (auto simp: follows_def)
  have r: "0 \<le> snap_index F" "raft_log F = drop (nat (snap_index F)) full" "abs_len F = go_len full"
    using f(1) rsm_abs_len [OF f(1)] by (simp_all add: rsm_def)
  note tm = prefix_terms(2) [OF f(2)]
  show ?thesis
  proof (cases "p = 0 \<or> p = snap_index F \<or> p > abs_len F")
    case True
    then show ?thesis using r(1,3) assms(2) by (auto simp: prefix_ok_def snap_term_ok_def go_len_def)
  next
    case False
    let ?i = "nat (p - snap_index F - 1)"
    have i: "nat (snap_index F) + ?i = nat (p - 1)" "?i < length (raft_log F)" "nat (p - 1) < length full"
      using False assms(3,4) r(1,3) by (auto simp: go_len_def)
    then have "Term (raft_log F ! ?i) = prev_term G p" using tm [OF i(3)] False r(2) by (simp add: prev_term_def)
    with False i(2) assms(3,4) show ?thesis by (auto simp: prefix_ok_def Let_def go_len_def)
  qed
qed

text \<open>A round in which the follower is too short.\<close>

lemma round_refused:
  assumes "serving opsL aL G f s L" and "follows opsF aF G F" and "abs_len F < s - 1" and "currentTerm F \<le> currentTerm L"
  shows "\<exists>L' F'. replicate_round opsL opsF (\<lambda>_. True) (\<lambda>_. True) True net f (L, F) = Some (L', F') \<and>
    serving opsL aL G f (max (s - 1) (snap_index L + 1)) L' \<and> snap_index L' = snap_index L \<and> currentTerm L' = currentTerm L \<and>
    commitedLength L' = commitedLength L \<and> data F' = data F \<and> currentTerm F' = currentTerm L"
proof -
  note S = servingD [OF assms(1)]
  from prepare_at [OF assms(1)] obtain args where
    args: "replicate_start (\<lambda>_. True) (\<lambda>_. True) f L = Some (SendLog args False)" "lr_Term args = currentTerm L"
      "PrefixLen args = s - 1" "mapM from_pb_entry (Suffix args) = Some (map strip_chan (drop (nat (s - 1)) G))" by blast
  have "0 \<le> snap_index F" using assms(2) by (auto simp: follows_def rsm_def)
  with assms(3) have "\<not> prefix_ok F (PrefixLen args) (PrefixTerm args)" using args(3) by (auto simp: prefix_ok_def go_len_def)
  from LogRequest_reject [OF args(4) disjI2 [OF this], of opsF] assms(4) S(16)
  have lr: "LogRequest opsF F args = Some (request_save (accept_leader F (LeaderId args) (currentTerm L)),
      \<lparr>lr_NodeId = int32 (raft_id F), lr_CurrentTerm = currentTerm L, Ack = 0, lr_Success = False\<rparr>)"
    by (simp add: args(2) max_absorb2)
  let ?L = "on_replicator (\<lambda>p. p\<lparr>consecutiveFailures := 0\<rparr>) f L"
  let ?L' = "if s > snap_index L + 1 then ?L\<lparr>sentLengths := (sentLengths L)[nat f := s - 1]\<rparr> else ?L"
  have "replicate_response opsL f \<lparr>lr_NodeId = int32 (raft_id F), lr_CurrentTerm = currentTerm L, Ack = 0, lr_Success = False\<rparr> L = Some ?L'"
    using S(2,5,6,13,16) by (simp add: replicate_response_def go_store_Some go_index_Some Let_def)
  moreover have "serving opsL aL G f (max (s - 1) (snap_index L + 1)) ?L'"
    using S(5,6,9,11-13) by (intro serving_idle [OF assms(1)]) (auto simp: data_def tables_def go_len_def)
  ultimately show ?thesis using lr args(1) assms(4)
    by (intro exI [of _ ?L'] exI [of _ "request_save (accept_leader F (LeaderId args) (currentTerm L))"])
      (simp add: replicate_round_def data_def max_absorb2)
qed

text \<open>The answers that the clients of a node have got after it has applied entries: the first for each channel counts.\<close>

fun answers :: "('d, 'a) Application \<Rightarrow> 'a \<Rightarrow> (nat \<rightharpoonup> BroadcastResponse) \<Rightarrow> 'd LogEntry list \<Rightarrow> nat \<rightharpoonup> BroadcastResponse" where
  "answers ops a M [] = M"
| "answers ops a M (e # es) = answers ops (app_step ops a (Msg e))
     (case ResponseChan (Msg e) of
        None \<Rightarrow> M
      | Some c \<Rightarrow> (case M c of
                    Some _ \<Rightarrow> M
                  | None \<Rightarrow> M(c \<mapsto> \<lparr>br_Success = fst (snd (AppendMessage ops a (Msg e))),
                                br_Value = snd (snd (AppendMessage ops a (Msg e))), br_Error = None\<rparr>))) es"

definition answered :: "('d, 'a) Application \<Rightarrow> 'a \<Rightarrow> 'd LogEntry list \<Rightarrow> ('d, 'a) Raft \<Rightarrow> bool" where
  "answered ops a G r \<longleftrightarrow> chans r = answers ops a Map.empty (take (nat (commitedLength r)) G)"

lemma answers_append: "answers ops a M (es @ fs) = answers ops (replay ops a es) (answers ops a M es) fs"
  by (induction es arbitrary: a M) simp_all

lemma deliver_all_answered: "chans (deliver_all ops r (map Msg es)) = answers ops (application r) (chans r) es"
proof (induction es arbitrary: r)
  case (Cons e es)
  have "chans (deliverToApplication ops r (Msg e)) = answers ops (application r) (chans r) [e]"
    by (simp add: deliverToApplication_def respond_def split: prod.split option.split)
  then show ?case using Cons.IH [of "deliverToApplication ops r (Msg e)"] by simp
qed simp

lemma answered_deliver:
  assumes "answered ops a G r" and "rsm ops a G r" and "commitedLength r + int m \<le> go_len G"
  shows "answered ops a G (deliver_all ops (r\<lparr>commitedLength := commitedLength r + int m\<rparr>)
    (map Msg (take m (drop (nat (commitedLength r - snap_index r)) (raft_log r)))))"
proof -
  have r: "0 \<le> snap_index r" "snap_index r \<le> commitedLength r" "raft_log r = drop (nat (snap_index r)) G"
    "application r = replay ops a (take (nat (commitedLength r)) G)" using assms(2) by (simp_all add: rsm_def)
  then have "drop (nat (commitedLength r - snap_index r)) (raft_log r) = drop (nat (commitedLength r)) G"
    by (simp flip: nat_add_distrib)
  moreover have "nat (commitedLength r + int m) = nat (commitedLength r) + m" using r(1,2) by simp
  ultimately show ?thesis using assms(1) r(4) by (simp add: answered_def deliver_all_answered take_add answers_append)
qed

text \<open>What a positive answer does to the leader.\<close>

lemma ack_response:
  assumes "serving ops a G f s L" and "lr_CurrentTerm resp = currentTerm L" and "lr_Success resp" and "Ack resp = go_len G"
  shows "\<exists>L'. replicate_response ops f resp L = Some L' \<and> serving ops a G f (go_len G + 1) L' \<and>
    ackedLengths L' = (ackedLengths L)[nat f := go_len G] \<and> sentLengths L' = (sentLengths L)[nat f := go_len G + 1] \<and>
    core (L'\<lparr>ackedLengths := ackedLengths L, sentLengths := sentLengths L\<rparr>) = core L \<and>
    commitedLength L \<le> commitedLength L' \<and> snapshotter L' = snapshotter L \<and> (answered ops a G L \<longrightarrow> answered ops a G L') \<and>
    (\<forall>i. commitedLength L \<le> i \<and> i < go_len G \<longrightarrow> (i < commitedLength L' \<longleftrightarrow>
       2 * int (card (replicated_on (L\<lparr>ackedLengths := (ackedLengths L)[nat f := go_len G]\<rparr>) i)) > totalNodes L))"
proof -
  note S = servingD [OF assms(1)]
  let ?L = "(on_replicator (\<lambda>p. p\<lparr>consecutiveFailures := 0\<rparr>) f L)\<lparr>sentLengths := (sentLengths L)[nat f := go_len G + 1],
    ackedLengths := (ackedLengths L)[nat f := go_len G]\<rparr>"
  have r: "replicate_response ops f resp L = commitLogEntries ops ?L"
    using assms(2-4) S(2,5-7,16) by (simp add: replicate_response_def go_store_Some)
  have ok: "rsm ops a G ?L" "member ?L" using S(3,4) by (simp_all add: rsm_def member_def)
  have b: "snap_index ?L \<le> commitedLength ?L" "commitedLength ?L \<le> abs_len ?L"
    using ok(1) S(9) by (simp_all add: rsm_def)
  from commitLogEntries_eq [OF ok(2) b, of ops] obtain m where
    m: "commitLogEntries ops ?L = Some (deliver_all ops (?L\<lparr>commitedLength := commitedLength ?L + int m\<rparr>)
        (map Msg (take m (drop (nat (commitedLength ?L - snap_index ?L)) (raft_log ?L)))))"
      "commitedLength ?L + int m \<le> go_len G"
      "\<forall>i. commitedLength ?L \<le> i \<and> i < go_len G \<longrightarrow>
        (i < commitedLength ?L + int m \<longleftrightarrow> 2 * int (card (replicated_on ?L i)) > totalNodes ?L)" 
    using S(9) by auto
  let ?L' = "deliver_all ops (?L\<lparr>commitedLength := commitedLength ?L + int m\<rparr>)
        (map Msg (take m (drop (nat (commitedLength ?L - snap_index ?L)) (raft_log ?L))))"
  have "rsm ops a G ?L'" using rsm_deliver [OF ok(1) m(2)] by simp
  then have "serving ops a G f (go_len G + 1) ?L'"
    using S by (intro serving_commit [OF assms(1)]) (simp_all add: tables_def go_len_def)
  moreover have "replicated_on ?L i = replicated_on (L\<lparr>ackedLengths := (ackedLengths L)[nat f := go_len G]\<rparr>) i" for i
    by (simp add: replicated_on_def)
  moreover have "answered ops a G L \<Longrightarrow> answered ops a G ?L'"
    using answered_deliver [OF _ ok(1) m(2)] by (simp add: answered_def)
  ultimately show ?thesis using m(3) unfolding r m(1) by (intro exI [of _ ?L']) (simp add: core_def)
qed

text \<open>A round that the follower accepts: it then has the leader's whole log, and the leader knows.\<close>

lemma round_accepted:
  assumes "serving opsL aL G f s L" and "follows opsF aF G F" and "snap_term_ok G F"
    and "s - 1 \<le> abs_len F" and "s = 1 \<or> snap_index F \<le> s - 1" and "currentTerm F \<le> currentTerm L"
  shows "\<exists>L' F'. replicate_round opsL opsF (\<lambda>_. True) (\<lambda>_. True) True net f (L, F) = Some (L', F') \<and>
    (\<exists>resp. lr_CurrentTerm resp = currentTerm L \<and> lr_Success resp \<and> Ack resp = go_len G \<and> replicate_response opsL f resp L = Some L') \<and>
    follows opsF aF G F' \<and> abs_len F' = go_len G \<and> currentTerm F' = currentTerm L \<and>
    commitedLength F' = max (commitedLength F) (commitedLength L) \<and> snap_term_ok G F' \<and>
    raft_id F' = raft_id F \<and> (raft_id F \<noteq> raft_id L \<longrightarrow> currentRole F' = Follower \<and> currentLeaderId F' = raft_id L)"
proof -
  note S = servingD [OF assms(1)]
  from prepare_at [OF assms(1)] obtain args where
    args: "replicate_start (\<lambda>_. True) (\<lambda>_. True) f L = Some (SendLog args False)" "lr_Term args = currentTerm L"
      "PrefixLen args = s - 1" "PrefixTerm args = prev_term G (s - 1)" "CommitLength args = commitedLength L"
      "mapM from_pb_entry (Suffix args) = Some (map strip_chan (drop (nat (s - 1)) G))" "LeaderId args = raft_id L"
    using S(1) by (auto simp: leader_ok_def)
  let ?F = "ResetTimer (accept_leader F (LeaderId args) (currentTerm L))"
  have F: "follows opsF aF G ?F" using assms(2) rsm_data [of ?F F] by (simp add: follows_def data_def)
  have len: "abs_len F \<le> go_len G"
    using assms(2) rsm_abs_len [of opsF aF _ F] by (auto simp: follows_def go_len_def dest!: prefix_length_le)
  have t: "currentTerm ?F = currentTerm L" using assms(6) by simp
  have "prefix_ok F (s - 1) (prev_term G (s - 1))"
    using prefix_ok_iff [OF assms(2,3), of "s - 1"] assms(4,5) S(11,15) by auto
  then have chk: "LogRequest_check F args = Some (?F, None)"
    using args(2-4,6) assms(6) by (simp add: LogRequest_check_def convertLogRequestArgs_def max_absorb2)
  have "\<exists>F'. LogRequest_append opsF ?F args = Some (F', \<lparr>lr_NodeId = int32 (raft_id ?F), lr_CurrentTerm = currentTerm L,
      Ack = int (length G), lr_Success = True\<rparr>) \<and>
    follows opsF aF G F' \<and> core F' = core ?F \<and> abs_len F' = max (abs_len ?F) (int (length G)) \<and>
    commitedLength F' = max (commitedLength ?F) (min (CommitLength args) (abs_len F')) \<and> (snap_term_ok G ?F \<longrightarrow> snap_term_ok G F')"
    using S(1,9-12,15) args(3,6) assms(4) t
    by (intro append_piece [OF F, of "nat (s - 1)" "length G"]) (simp_all add: leader_ok_def go_len_def)
  then obtain F' where F': "LogRequest_append opsF ?F args = Some (F', \<lparr>lr_NodeId = int32 (raft_id ?F), lr_CurrentTerm = currentTerm L,
      Ack = go_len G, lr_Success = True\<rparr>)" "follows opsF aF G F'" "core F' = core ?F" "abs_len F' = go_len G"
    "commitedLength F' = max (commitedLength F) (commitedLength L)" "snap_term_ok G F'"
    using S(3) len args(5) assms(3) by (auto simp: go_len_def rsm_def max_def min_def snap_term_ok_def)
  let ?resp = "\<lparr>lr_NodeId = int32 (raft_id ?F), lr_CurrentTerm = currentTerm L, Ack = go_len G, lr_Success = True\<rparr>"
  from ack_response [OF assms(1), of ?resp] obtain L' where L': "replicate_response opsL f ?resp L = Some L'" by auto
  have "LogRequest opsF F args = Some (F', ?resp)" using chk F'(1) by (simp add: LogRequest_halves)
  then have "replicate_round opsL opsF (\<lambda>_. True) (\<lambda>_. True) True net f (L, F) = Some (L', F')"
    using args(1) L' by (simp add: replicate_round_def)
  moreover have "currentTerm F' = currentTerm L" using F'(3) t by (simp add: core_def)
  moreover have "raft_id F' = raft_id F" "raft_id F \<noteq> raft_id L \<Longrightarrow> currentRole F' = Follower \<and> currentLeaderId F' = raft_id L"
    using F'(3) assms(6) args(7) by (auto simp: core_def accept_leader_def Let_def)
  ultimately show ?thesis using F'(2,4-6) L' by (intro exI [of _ L'] exI [of _ F'] conjI exI [of _ ?resp]) simp_all
qed

section \<open>Catching up\<close>

lemma take_signal_frame [simp]:
  "data (take_signal ev f L) = data L" "tables (take_signal ev f L) = tables L" "currentTerm (take_signal ev f L) = currentTerm L"
  "currentRole (take_signal ev f L) = currentRole L" "sentLengths (take_signal ev f L) = sentLengths L"
  "ackedLengths (take_signal ev f L) = ackedLengths L" "snapshotter (take_signal ev f L) = snapshotter L"
  "commitedLength (take_signal ev f L) = commitedLength L"
  by (simp_all add: take_signal_def data_def tables_def)

lemma serving_signal: "serving ops a G f s L \<Longrightarrow> serving ops a G f s (take_signal ev f L)"
  using serving_idle [of ops a G f s L "take_signal ev f L" s] by (simp add: serving_def)

lemma full_prefix:
  assumes "follows ops a G F" and "abs_len F = go_len G"
  shows "\<exists>full. rsm ops a full F \<and> map strip_chan full = map strip_chan G"
proof -
  from assms(1) obtain full where full: "rsm ops a full F" "prefix (map strip_chan full) (map strip_chan G)"
    by (auto simp: follows_def)
  have "length full = length G" using rsm_abs_len [OF full(1)] assms(2) by (simp add: go_len_def)
  with full show ?thesis by (metis append_eq_append_conv append_Nil2 length_map prefixE)
qed

text \<open>C14: A follower catches up: if its log is a beginning of the leader's and reaches the leader's
  snapshot, then the replicator walks back one position per refused round until the follower accepts, and
  after exactly as many rounds as the leader was ahead of it, plus one, whether by signals or heartbeats, the follower has the leader's whole log and its committed
  length, and the leader has counted it for all entries.\<close>
theorem follower_catches_up:
  assumes "serving opsL aL G f s L" and "follows opsF aF G F" and "snap_term_ok G F"
    and "currentTerm F \<le> currentTerm L" and "snap_index L \<le> abs_len F" and "abs_len F \<le> s - 1"
    and "int (length evs) = s - abs_len F" and "StopCh \<notin> set evs"
  shows "\<exists>L' F' full. rounds opsL opsF net f evs (L, F) = Some (L', F') \<and>
    ackedLengths L' ! nat f = go_len G \<and> rsm opsF aF full F' \<and> map strip_chan full = map strip_chan G \<and>
    commitedLength F' = max (commitedLength F) (commitedLength L)"
  using assms
proof (induction evs arbitrary: s L F)
  case (Cons ev evs)
  let ?L = "take_signal ev f L"
  have S: "serving opsL aL G f s ?L" using serving_signal [OF Cons.prems(1)] .
  have t: "currentTerm F \<le> currentTerm ?L" and ev: "ev \<noteq> StopCh" "StopCh \<notin> set evs" using Cons.prems(4,8) by auto
  show ?case
  proof (cases evs)
    case Nil
    then have s: "s - 1 = abs_len F" using Cons.prems(7) by simp
    have "0 \<le> snap_index F" "snap_index F \<le> s - 1" using Cons.prems(2) s by (auto simp: follows_def rsm_def go_len_def)
    with round_accepted [OF S Cons.prems(2,3) _ _ t, of net] s obtain L' F' resp where
      r: "replicate_round opsL opsF (\<lambda>_. True) (\<lambda>_. True) True net f (?L, F) = Some (L', F')"
        "lr_CurrentTerm resp = currentTerm ?L" "lr_Success resp" "Ack resp = go_len G" "replicate_response opsL f resp ?L = Some L'"
        "follows opsF aF G F'" "abs_len F' = go_len G" "commitedLength F' = max (commitedLength F) (commitedLength ?L)" by auto
    from ack_response [OF S r(2-4)] r(5) servingD(5,7) [OF S] have "ackedLengths L' ! nat f = go_len G" by (auto simp: go_len_def)
    with full_prefix [OF r(6,7)] r(1,8) Nil ev(1) show ?thesis by auto
  next
    case (Cons ev' evs')
    then have lt: "abs_len F < s - 1" using Cons.prems(7) by simp
    from round_refused [OF S Cons.prems(2) lt t, of net] obtain L' F' where
      r: "replicate_round opsL opsF (\<lambda>_. True) (\<lambda>_. True) True net f (?L, F) = Some (L', F')"
        "serving opsL aL G f (max (s - 1) (snap_index ?L + 1)) L'" "snap_index L' = snap_index L" "currentTerm L' = currentTerm L"
        "data F' = data F" "currentTerm F' = currentTerm L" "commitedLength L' = commitedLength L" by auto
    have s: "max (s - 1) (snap_index ?L + 1) = s - 1" using lt Cons.prems(5) by simp
    have F': "follows opsF aF G F'" "snap_term_ok G F'" "raft_log F' = raft_log F" "snapshotter F' = snapshotter F" "commitedLength F' = commitedLength F"
      using Cons.prems(2,3) r(5) rsm_data [OF r(5)] by (simp_all add: follows_def snap_term_ok_def data_def)
    have "\<exists>L1 F1 full. rounds opsL opsF net f evs (L', F') = Some (L1, F1) \<and>
      ackedLengths L1 ! nat f = go_len G \<and> rsm opsF aF full F1 \<and> map strip_chan full = map strip_chan G \<and>
      commitedLength F1 = max (commitedLength F') (commitedLength L')"
      using r(2,3,4,6) F' lt Cons.prems(5,7) ev(2) by (intro Cons.IH [of "s - 1"]) (simp_all add: s)
    then show ?thesis using r(1,7) F'(5) ev(1) by simp
  qed
qed simp

text \<open>C37: A follower whose log ends before the leader's snapshot never catches up: the walk back stops
  one position behind the snapshot, and the snapshot is only sent for a position in it. After any number of rounds the follower has
  the log, the committed length and the application it started with, and the next round will not
  send the snapshot either.\<close>
theorem lagging_follower_is_stuck:
  assumes "serving opsL aL G f s L" and "follows opsF aF G F" and "currentTerm F \<le> currentTerm L" and "abs_len F < snap_index L"
  shows "\<exists>L' F'. rounds opsL opsF net f evs (L, F) = Some (L', F') \<and> raft_log F' = raft_log F \<and>
    commitedLength F' = commitedLength F \<and> application F' = application F \<and>
    replicate_start available peers f L' \<noteq> Some SendSnapshot"
  using assms
proof (induction evs arbitrary: s L F)
  case Nil
  from servingD(11,14) [OF Nil(1)] show ?case by (auto simp: replicate_start_def split: if_splits bind_splits)
next
  case (Cons ev evs)
  let ?L = "take_signal ev f L"
  have S: "serving opsL aL G f s ?L" "currentTerm F \<le> currentTerm ?L" using serving_signal [OF Cons.prems(1)] Cons.prems(3) by simp_all
  have "abs_len F < s - 1" using Cons.prems(4) servingD(11) [OF Cons.prems(1)] by linarith
  from round_refused [OF S(1) Cons.prems(2) this S(2), of net] obtain L' F' where
    r: "replicate_round opsL opsF (\<lambda>_. True) (\<lambda>_. True) True net f (?L, F) = Some (L', F')"
      "serving opsL aL G f (max (s - 1) (snap_index ?L + 1)) L'" "snap_index L' = snap_index L" "currentTerm L' = currentTerm L"
      "data F' = data F" "currentTerm F' = currentTerm L" by auto
  have F': "follows opsF aF G F'" "abs_len F' < snap_index L'" "currentTerm F' \<le> currentTerm L'"
    using Cons.prems(2,4) r(3-6) rsm_data [OF r(5)] by (simp_all add: follows_def data_def)
  show ?case
  proof (cases "ev = StopCh")
    case True
    then show ?thesis using servingD(11,14) [OF Cons.prems(1)] by (auto simp: replicate_start_def split: if_splits bind_splits)
  next
    case False
    with Cons.IH [OF r(2) F'(1,3,2)] r(1,5) show ?thesis by (auto simp: data_def)
  qed
qed

section \<open>Examples\<close>

text \<open>A leader that is one entry ahead of what it believes, and one that has compacted that entry away.\<close>

definition example_ahead :: "(unit, testApp) Raft" where
  "example_ahead = example_leader\<lparr>sentLengths := [0, 2, 2]\<rparr>"

definition example_compacted :: "(unit, testApp) Raft" where
  "example_compacted = example_ahead\<lparr>raft_log := [], commitedLength := 1, application := newTestApp(1 \<mapsto> 10),
     snapshotter := (snapshotter example_ahead)\<lparr>lastIndex := 1, lastTerm := 1\<rparr>\<rparr>"

lemma example_follows: "follows example_ops newTestApp G example_follower"
  by (auto simp: follows_def rsm_def example_defs intro!: exI [of _ "[]"])

lemma example_ahead_serving: "serving example_ops newTestApp (raft_log example_leader) 1 2 example_ahead"
  using example_rsm
  by (simp add: serving_def leader_ok_def snap_term_ok_def example_ahead_def rsm_def member_def example_defs in_int32_def go_len_def wire_ok_def)

lemma example_compacted_serving: "serving example_ops newTestApp (raft_log example_leader) 1 2 example_compacted"
  by (simp add: serving_def leader_ok_def snap_term_ok_def example_compacted_def example_ahead_def rsm_def member_def example_defs
      in_int32_def go_len_def wire_ok_def prev_term_def app_step_def testApp_AppendMessage_def)

theorem follower_catches_up_witness:
  "\<exists>L' F' full. rounds example_ops example_ops (\<lambda>_. True) 1 [HeartbeatC, SignalCh] (example_ahead, example_follower) = Some (L', F') \<and>
    ackedLengths L' ! 1 = 1 \<and> rsm example_ops newTestApp full F' \<and> map strip_chan full = map strip_chan (raft_log example_leader)"
proof -
  have len: "abs_len example_follower = 0" "go_len (raft_log example_leader) = 1" by (simp_all add: example_defs go_len_def)
  have "\<exists>L' F' full. rounds example_ops example_ops (\<lambda>_. True) 1 [HeartbeatC, SignalCh] (example_ahead, example_follower) = Some (L', F') \<and>
    ackedLengths L' ! nat 1 = go_len (raft_log example_leader) \<and> rsm example_ops newTestApp full F' \<and>
    map strip_chan full = map strip_chan (raft_log example_leader) \<and>
    commitedLength F' = max (commitedLength example_follower) (commitedLength example_ahead)"
    by (rule follower_catches_up [OF example_ahead_serving example_follows])
      (simp_all add: snap_term_ok_def example_ahead_def example_defs go_len_def)
  then show ?thesis unfolding len by auto
qed

theorem lagging_follower_is_stuck_witness:
  "\<exists>L' F'. rounds example_ops example_ops (\<lambda>_. True) 1 (replicate 100 HeartbeatC) (example_compacted, example_follower) = Some (L', F') \<and>
    raft_log F' = [] \<and> replicate_start (\<lambda>_. True) (\<lambda>_. True) 1 L' \<noteq> Some SendSnapshot"
proof -
  have "\<exists>L' F'. rounds example_ops example_ops (\<lambda>_. True) 1 (replicate 100 HeartbeatC) (example_compacted, example_follower) = Some (L', F') \<and>
    raft_log F' = raft_log example_follower \<and> commitedLength F' = commitedLength example_follower \<and>
    application F' = application example_follower \<and> replicate_start (\<lambda>_. True) (\<lambda>_. True) 1 L' \<noteq> Some SendSnapshot"
    by (rule lagging_follower_is_stuck [OF example_compacted_serving example_follows])
      (simp_all add: example_compacted_def example_ahead_def example_defs go_len_def)
  then show ?thesis by (auto simp: example_defs)
qed

end
