(* ===== verification/Raft_Memory.thy ===== *)
theory Raft_Memory
  imports Raft_Catchup Raft_Cluster
begin

text \<open>
  The in-memory cluster of \<open>pkg/raft/tests_setup.go\<close>: nodes that call each other's handlers
  directly. A fresh cluster elects a leader, and what the leader is asked to store reaches every node.
\<close>

section \<open>Building a cluster\<close>

definition SNAPSHOT_THRESHOLD :: int where
  "SNAPSHOT_THRESHOLD = 50000"

text \<open>
  A node with the files of a new temporary directory: there are none yet. \<open>createTestRaft\<close> makes one whose timers are
  cancelled and which has no peers yet; \<open>createCluster\<close> fills in the same fields for every node, lets the timers run, and hands
  out the peers. Timers and peers are no fields of the record: a timer that fires is a call of the handler.
\<close>

definition createTestRaft :: "int \<Rightarrow> int \<Rightarrow> ('d, testApp) Raft" where
  "createTestRaft raftId n = initial_raft newTestApp raftId n SNAPSHOT_THRESHOLD (NewRaftDataSaver None None None)"

definition createCluster :: "int \<Rightarrow> int \<Rightarrow> ('d, testApp) Raft" where
  "createCluster n = (\<lambda>raftId. initial_raft newTestApp raftId n SNAPSHOT_THRESHOLD (NewRaftDataSaver None None None))"

text \<open>The peers that \<open>createCluster\<close> gives to every node: all nodes, itself included.\<close>

definition inMemPeers :: "int \<Rightarrow> int \<Rightarrow> bool" where
  "inMemPeers n j \<longleftrightarrow> 0 \<le> j \<and> j < n"

section \<open>Calls\<close>

definition inMemPeer_VoteRequest :: "int \<Rightarrow> VoteRequestArgs \<Rightarrow> (int \<Rightarrow> ('d, 'a) Raft) \<Rightarrow>
    (int \<Rightarrow> ('d, 'a) Raft) \<times> pb_VoteResponse" where
  "inMemPeer_VoteRequest j args ns = (case VoteRequest (ns j) args of (r, resp) \<Rightarrow> (ns(j := r), resp))"

definition inMemPeer_LogRequest :: "('d, 'a) Application \<Rightarrow> int \<Rightarrow> 'd LogRequestArgs \<Rightarrow> (int \<Rightarrow> ('d, 'a) Raft) \<Rightarrow>
    ((int \<Rightarrow> ('d, 'a) Raft) \<times> LogResponse) option" where
  "inMemPeer_LogRequest ops j args ns = map_option (\<lambda>(r, resp). (ns(j := r), resp)) (LogRequest ops (ns j) args)"

definition inMemPeer_Heartbeat :: "int \<Rightarrow> (int \<Rightarrow> ('d, 'a) Raft) \<Rightarrow> int \<Rightarrow> ('d, 'a) Raft" where
  "inMemPeer_Heartbeat j ns = ns(j := receiveHeartbeat (ns j))"

definition inMemPeer_Forward :: "(int \<Rightarrow> bool) \<Rightarrow> bool \<Rightarrow> int \<Rightarrow> 'd pb_Message \<Rightarrow> (int \<Rightarrow> ('d, 'a) Raft) \<Rightarrow>
    (int \<Rightarrow> ('d, 'a) Raft) \<times> 'd forward_action" where
  "inMemPeer_Forward peers hop j msg ns = (case Forward peers hop (ns j) msg of (r, act) \<Rightarrow> (ns(j := r), act))"

text \<open>The context that marks a forwarded request goes along, so that there is one redirection at most.\<close>

function inMemPeer_ForwardGet :: "('d, 'a) Application \<Rightarrow> int \<Rightarrow> bool \<Rightarrow> int \<Rightarrow> int \<Rightarrow> (int \<Rightarrow> ('d, 'a) Raft) \<Rightarrow> string + int" where
  "inMemPeer_ForwardGet ops n hop j key ns =
     (case ForwardGet ops (inMemPeers n) hop (ns j) key of
        GetError err \<Rightarrow> Inl err
      | GetPeer leaderID \<Rightarrow> inMemPeer_ForwardGet ops n True leaderID key ns
      | GetLocal v \<Rightarrow> Inr v)"
  by pat_completeness auto

termination
  by (relation "measure (\<lambda>(ops, n, hop, j, key, ns). if hop then 0 else 1)")
    (auto simp: ForwardGet_def split: prod.splits if_splits)

declare inMemPeer_ForwardGet.simps [simp del]

definition inMemPeer_InstallSnapshot :: "('d, 'a) Application \<Rightarrow> int \<Rightarrow> InstallSnapshotRequest \<Rightarrow> (int \<Rightarrow> ('d, 'a) Raft) \<Rightarrow>
    (int \<Rightarrow> ('d, 'a) Raft) \<times> int \<times> string option" where
  "inMemPeer_InstallSnapshot ops j req ns = (case InstallSnapshot ops (ns j) req of (r, term, err) \<Rightarrow> (ns(j := r), term, err))"

text \<open>
  One election: the candidate asks the nodes one after the other and counts each vote as it comes in.
\<close>

fun collect_votes :: "int \<Rightarrow> int \<Rightarrow> VoteRequestData \<Rightarrow> int list \<Rightarrow> (int \<Rightarrow> ('d, 'a) Raft) \<Rightarrow> (int \<Rightarrow> ('d, 'a) Raft) option" where
  "collect_votes n l voteData [] ns = Some ns"
| "collect_votes n l voteData (j # js) ns =
     (case sendVoteRequest (\<lambda>_. True) (inMemPeers n) voteData j of
        None \<Rightarrow> collect_votes n l voteData js ns
      | Some args \<Rightarrow> (case inMemPeer_VoteRequest j args ns of (ns, resp) \<Rightarrow> do {
            r \<leftarrow> receiveVote (ns l) (vote_of resp);
            collect_votes n l voteData js (ns(l := r))
          }))"

definition hold_election :: "int \<Rightarrow> int \<Rightarrow> (int \<Rightarrow> ('d, 'a) Raft) \<Rightarrow> (int \<Rightarrow> ('d, 'a) Raft) option" where
  "hold_election n l ns = (case startElection (ns l) of (r, voteData, targets) \<Rightarrow>
     collect_votes n l voteData targets (ns(l := r)))"

text \<open>A round of all replicators, one after the other. Each node has its own application.\<close>

fun replicate_all :: "(int \<Rightarrow> ('d, 'a) Application) \<Rightarrow> int \<Rightarrow> int \<Rightarrow> int list \<Rightarrow> (int \<Rightarrow> ('d, 'a) Raft) \<Rightarrow>
    (int \<Rightarrow> ('d, 'a) Raft) option" where
  "replicate_all ops n l [] ns = Some ns"
| "replicate_all ops n l (f # fs) ns = do {
     (L, F) \<leftarrow> replicate_round (ops l) (ops f) (\<lambda>_. True) (inMemPeers n) True (\<lambda>_. True) f (ns l, ns f);
     replicate_all ops n l fs (ns(l := L, f := F))
   }"

definition others :: "int \<Rightarrow> int \<Rightarrow> int list" where
  "others n l = filter (\<lambda>i. i \<noteq> l) [0..n - 1]"

section \<open>The election\<close>

text \<open>A node that has not done anything yet, and one that voted for \<open>l\<close> in term 1.\<close>

definition fresh :: "int \<Rightarrow> int \<Rightarrow> 'a \<Rightarrow> ('d, 'a) Raft \<Rightarrow> bool" where
  "fresh n i a r \<longleftrightarrow> member r \<and> raft_id r = i \<and> totalNodes r = n \<and> currentTerm r = 0 \<and> votedFor r = -1 \<and> currentLeaderId r = -1 \<and>
     currentRole r = Follower \<and> raft_log r = [] \<and> commitedLength r = 0 \<and> application r = a \<and> snap_index r = 0 \<and> lastTerm (snapshotter r) = 0 \<and>
     chans r = Map.empty"

definition voter :: "int \<Rightarrow> int \<Rightarrow> int \<Rightarrow> 'a \<Rightarrow> ('d, 'a) Raft \<Rightarrow> bool" where
  "voter n l i a r \<longleftrightarrow> member r \<and> raft_id r = i \<and> totalNodes r = n \<and> currentTerm r = 1 \<and> votedFor r = l \<and>
     currentRole r = Follower \<and> raft_log r = [] \<and> commitedLength r = 0 \<and> application r = a \<and> snap_index r = 0 \<and> lastTerm (snapshotter r) = 0"

definition candidate :: "int \<Rightarrow> int \<Rightarrow> 'a \<Rightarrow> int set \<Rightarrow> ('d, 'a) Raft \<Rightarrow> bool" where
  "candidate n l a V r \<longleftrightarrow> member r \<and> raft_id r = l \<and> totalNodes r = n \<and> currentTerm r = 1 \<and>
     raft_log r = [] \<and> commitedLength r = 0 \<and> application r = a \<and> snap_index r = 0 \<and> lastTerm (snapshotter r) = 0 \<and> chans r = Map.empty \<and>
     (if 2 * int (card V) > n
      then currentRole r = Leader \<and> (\<forall>j. 0 \<le> j \<and> j < n \<and> j \<noteq> l \<longrightarrow> sentLengths r ! nat j = 1 \<and> ackedLengths r ! nat j = 0)
      else currentRole r = Candidate \<and> votesReceived r = V)"

lemma createCluster_fresh: "0 \<le> i \<Longrightarrow> i < n \<Longrightarrow> fresh n i newTestApp (createCluster n i)"
  by (simp add: fresh_def createCluster_def initial_raft_def member_def go_len_def newSnapshotter_def)

lemma startElection_candidate:
  assumes "fresh n l a r" and "n \<ge> 2"
  shows "\<exists>r'. startElection r = (r', \<lparr>vd_candidateId = l, vd_candidateTerm = 1, vd_candidateLogLength = 0, vd_candidateLogTerm = 0\<rparr>, others n l) \<and>
    candidate n l a {l} r'"
  using assms by (simp add: startElection_def Let_def fresh_def candidate_def others_def getLastLogTerm_def member_def)

lemma VoteRequest_fresh:
  assumes "fresh n j a r" and "n < 2 ^ 31" and "0 \<le> l"
  shows "\<exists>r'. VoteRequest r \<lparr>CandidateId = l, CandidateTerm = 1, CandidateLogLength = 0, CandidateLogTerm = 0\<rparr> =
      (r', \<lparr>vr_NodeId = j, vr_CurrentTerm = 1, vr_Granted = True\<rparr>) \<and> voter n l j a r'"
proof -
  have "int32 j = j" "int32 1 = 1" using assms by (auto simp: fresh_def member_def in_int32_def)
  then show ?thesis using assms
    by (simp add: VoteRequest_def Let_def fresh_def voter_def vote_log_ok_def getLastLogTerm_def member_def)
qed

lemma leader_loop_chans: "leader_loop fs r = Some r' \<Longrightarrow> chans r' = chans r"
  by (induction fs arbitrary: r) (auto split: if_splits bind_splits)

lemma becomeLeader_chans: "becomeLeader r = Some r' \<Longrightarrow> chans r' = chans r"
  by (auto simp: becomeLeader_def dest: leader_loop_chans)

lemma receiveVote_candidate:
  assumes "candidate n l a V r" and "finite V" and "j \<notin> V"
  shows "\<exists>r'. receiveVote r \<lparr>v_nodeId = j, v_currentTerm = 1, v_granted = True\<rparr> = Some r' \<and> candidate n l a (insert j V) r'"
proof (cases "2 * int (card V) > n")
  case True
  with assms show ?thesis by (auto simp: receiveVote_def candidate_def)
next
  case False
  let ?r = "r\<lparr>votesReceived := insert j (votesReceived r)\<rparr>"
  have r: "member ?r" "votesReceived r = V" "currentTerm r = 1" "currentRole r = Candidate" "totalNodes r = n"
    using assms(1) False by (simp_all add: candidate_def member_def)
  have maj: "int (card (insert j V)) \<ge> majority n \<longleftrightarrow> 2 * int (card (insert j V)) > n" by (simp only: majority_eq) presburger
  show ?thesis
  proof (cases "2 * int (card (insert j V)) > n")
    case True
    from becomeLeader_ok [OF r(1)] obtain r' where
      r': "becomeLeader ?r = Some r'" "data r' = data r" "tables r' = tables r" "currentTerm r' = currentTerm r" "currentRole r' = Leader"
        "\<forall>f. 0 \<le> f \<and> f < n \<and> f \<noteq> raft_id r \<longrightarrow> sentLengths r' ! nat f = abs_len r + 1 \<and> ackedLengths r' ! nat f = 0"
      using r(5) by (auto simp: vote_state_def data_def tables_def)
    then have "candidate n l a (insert j V) r'"
      using True assms(1) member_tables [OF r'(3)] becomeLeader_chans [OF r'(1)] by (simp add: candidate_def data_def tables_def go_len_def)
    with r' r maj True show ?thesis by (simp add: receiveVote_def)
  next
    case False
    then have "receiveVote r \<lparr>v_nodeId = j, v_currentTerm = 1, v_granted = True\<rparr> = Some ?r"
      using r maj by (simp add: receiveVote_def)
    moreover have "candidate n l a (insert j V) ?r" using False assms(1) r(1,2,4) by (simp add: candidate_def)
    ultimately show ?thesis by blast
  qed
qed

lemma collect_votes_elects:
  assumes "candidate n l (a l) V (ns l)" and "finite V" and "distinct js" and "n < 2 ^ 31" and "0 \<le> l" and "l < n"
    and "\<And>j. j \<in> set js \<Longrightarrow> j \<noteq> l \<and> j \<notin> V \<and> 0 \<le> j \<and> j < n \<and> fresh n j (a j) (ns j)"
  shows "\<exists>ns'. collect_votes n l \<lparr>vd_candidateId = l, vd_candidateTerm = 1, vd_candidateLogLength = 0, vd_candidateLogTerm = 0\<rparr> js ns = Some ns' \<and>
    candidate n l (a l) (set js \<union> V) (ns' l) \<and> (\<forall>j \<in> set js. voter n l j (a j) (ns' j)) \<and> (\<forall>j. j \<noteq> l \<and> j \<notin> set js \<longrightarrow> ns' j = ns j)"
  using assms
proof (induction js arbitrary: ns V)
  case (Cons j js)
  let ?args = "\<lparr>CandidateId = l, CandidateTerm = 1, CandidateLogLength = 0, CandidateLogTerm = 0\<rparr>"
  have j: "j \<noteq> l" "j \<notin> V" "0 \<le> j" "j < n" "fresh n j (a j) (ns j)" using Cons.prems(7) [of j] by simp_all
  have i32: "int32 l = l" "int32 1 = 1" "int32 0 = 0" using Cons.prems(4-6) by (auto simp: in_int32_def)
  obtain r' where r': "VoteRequest (ns j) ?args = (r', \<lparr>vr_NodeId = j, vr_CurrentTerm = 1, vr_Granted = True\<rparr>)" "voter n l j (a j) r'"
    using VoteRequest_fresh [OF j(5) Cons.prems(4,5)] by blast
  obtain L where L: "receiveVote (ns l) \<lparr>v_nodeId = j, v_currentTerm = 1, v_granted = True\<rparr> = Some L" "candidate n l (a l) (insert j V) L"
    using receiveVote_candidate [OF Cons.prems(1,2) j(2)] by blast
  let ?ns = "ns(j := r', l := L)"
  have "\<exists>ns'. collect_votes n l \<lparr>vd_candidateId = l, vd_candidateTerm = 1, vd_candidateLogLength = 0, vd_candidateLogTerm = 0\<rparr> js ?ns = Some ns' \<and>
    candidate n l (a l) (set js \<union> insert j V) (ns' l) \<and> (\<forall>j \<in> set js. voter n l j (a j) (ns' j)) \<and> (\<forall>i. i \<noteq> l \<and> i \<notin> set js \<longrightarrow> ns' i = ?ns i)"
    using L(2) Cons.prems by (intro Cons.IH) auto
  then show ?case using r' L(1) j i32 Cons.prems(3)
    by (auto simp: sendVoteRequest_def inMemPeers_def getPeer_def inMemPeer_VoteRequest_def vote_of_def)
qed simp

definition elected :: "int \<Rightarrow> int \<Rightarrow> (int \<Rightarrow> 'a) \<Rightarrow> (int \<Rightarrow> ('d, 'a) Raft) \<Rightarrow> bool" where
  "elected n l a ns \<longleftrightarrow> candidate n l (a l) {0..<n} (ns l) \<and> (\<forall>j \<in> {0..<n} - {l}. voter n l j (a j) (ns j))"

lemma set_others [simp]: "set (others n l) = {0..<n} - {l}" and distinct_others [simp]: "distinct (others n l)"
  by (auto simp: others_def)

lemma hold_election_elects:
  assumes "2 \<le> n" and "n < 2 ^ 31" and "0 \<le> l" and "l < n" and "\<And>j. 0 \<le> j \<Longrightarrow> j < n \<Longrightarrow> fresh n j (a j) (ns j)"
  shows "\<exists>ns'. hold_election n l ns = Some ns' \<and> elected n l a ns'"
proof -
  from startElection_candidate [OF assms(5) [OF assms(3,4)] assms(1)] obtain r where
    r: "startElection (ns l) = (r, \<lparr>vd_candidateId = l, vd_candidateTerm = 1, vd_candidateLogLength = 0, vd_candidateLogTerm = 0\<rparr>, others n l)"
      "candidate n l (a l) {l} r" by blast
  have "set (others n l) \<union> {l} = {0..<n}" using assms(3,4) by auto
  with collect_votes_elects [of n l a "{l}" "ns(l := r)" "others n l"] r assms show ?thesis
    by (force simp: hold_election_def elected_def)
qed

lemma elected_takes_office:
  assumes "elected n l a ns" and "2 \<le> n" and "n < 2 ^ 31" and "0 \<le> l" and "l < n"
  shows "takes_office ops a n l [] \<lparr>nodes = ns, logRequests = {}, accepted = {}, logReplies = {}\<rparr>"
proof -
  have L: "candidate n l (a l) {0..<n} (ns l)" and F: "\<And>j. j \<in> {0..<n} - {l} \<Longrightarrow> voter n l j (a j) (ns j)"
    using assms(1) by (simp_all add: elected_def)
  have "leader_ok (ops l) (a l) (currentTerm (ns l)) [] (ns l)"
    using L assms(3-5) by (simp add: candidate_def leader_ok_def rsm_def in_int32_def go_len_def)
  moreover have "follows (ops j) (a j) [] (ns j) \<and> currentTerm (ns j) \<le> currentTerm (ns l) \<and> commitedLength (ns j) \<le> commitedLength (ns l)"
    if "j \<in> {0..<n} - {l}" for j
    using F [OF that] L by (simp add: voter_def candidate_def follows_def rsm_def)
  moreover have "holders n ns i = {0..<n}" if "i < 0" for i
  proof -
    have "abs_len (ns j) = 0" if "j \<in> {0..<n}" for j
      using F [of j] L that by (cases "j = l") (simp_all add: voter_def candidate_def go_len_def)
    then show ?thesis using that by (auto simp: holders_def)
  qed
  ultimately show ?thesis using L assms(2) by (simp add: takes_office_def candidate_def)
qed

text \<open>C16: A fresh cluster of at least two nodes elects whoever stands first: when a node's election timer fires before
  any other and the others can be reached, it becomes leader of term 1, every other node has voted
  for it and follows, and it takes office with the empty log. Any node of a cluster of any size
  can be the one.\<close>
theorem fresh_cluster_elects:
  fixes ops :: "int \<Rightarrow> ('d, testApp) Application"
  assumes "2 \<le> n" and "n < 2 ^ 31" and "0 \<le> l" and "l < n"
  shows "\<exists>ns. hold_election n l (createCluster n) = Some ns \<and>
    currentRole (ns l) = Leader \<and> currentTerm (ns l) = 1 \<and>
    (\<forall>j. 0 \<le> j \<and> j < n \<and> j \<noteq> l \<longrightarrow> currentRole (ns j) = Follower \<and> currentTerm (ns j) = 1 \<and> votedFor (ns j) = l) \<and>
    takes_office ops (\<lambda>_. newTestApp) n l [] \<lparr>nodes = ns, logRequests = {}, accepted = {}, logReplies = {}\<rparr>"
proof -
  obtain ns :: "int \<Rightarrow> ('d, testApp) Raft" where ns: "hold_election n l (createCluster n) = Some ns" "elected n l (\<lambda>_. newTestApp) ns"
    using hold_election_elects [OF assms, of "\<lambda>_. newTestApp" "createCluster n"] createCluster_fresh by blast
  from elected_takes_office [OF ns(2) assms, of ops] ns assms(1) show ?thesis
    by (intro exI [of _ ns]) (simp add: elected_def candidate_def voter_def)
qed

theorem fresh_cluster_elects_witness:
  "\<exists>ns. hold_election 3 1 (createCluster 3) = Some (ns :: int \<Rightarrow> (unit, testApp) Raft) \<and> currentRole (ns 1) = Leader \<and> currentTerm (ns 1) = 1"
  using fresh_cluster_elects [of 3 1] by auto

section \<open>Replication\<close>

text \<open>A follower that will accept the next request, and what the leader knows of it.\<close>

definition attending :: "(int \<Rightarrow> ('d, 'a) Application) \<Rightarrow> (int \<Rightarrow> 'a) \<Rightarrow> int \<Rightarrow> 'd LogEntry list \<Rightarrow> (int \<Rightarrow> ('d, 'a) Raft) \<Rightarrow> int \<Rightarrow> int \<Rightarrow> bool" where
  "attending ops a l G ns f s \<longleftrightarrow> serving (ops l) (a l) G f s (ns l) \<and> follows (ops f) (a f) G (ns f) \<and> snap_term_ok G (ns f) \<and>
     currentTerm (ns f) \<le> currentTerm (ns l) \<and> s - 1 \<le> abs_len (ns f) \<and> (s = 1 \<or> snap_index (ns f) \<le> s - 1) \<and>
     raft_id (ns l) = l \<and> raft_id (ns f) = f"

text \<open>A node that takes \<open>l\<close> for the leader.\<close>

definition obeys :: "int \<Rightarrow> ('d, 'a) Raft \<Rightarrow> bool" where
  "obeys l F \<longleftrightarrow> currentRole F = Follower \<and> currentLeaderId F = l"

lemma replicate_round_peers:
  "getPeer peers f \<Longrightarrow> getPeer peers' f \<Longrightarrow> replicate_round opsL opsF av peers rpc net f = replicate_round opsL opsF av peers' rpc net f"
proof -
  assume p: "getPeer peers f" "getPeer peers' f"
  then have eqs: "replicate_start av peers f = replicate_start av peers' f" "sendInstallSnapshotRPC opsF peers net f = sendInstallSnapshotRPC opsF peers' net f"
    by (intro ext, simp add: replicate_start_def, intro ext, simp add: sendInstallSnapshotRPC_def Let_def split: option.split)
  show ?thesis unfolding replicate_round_def eqs ..
qed

lemma serving_other:
  assumes "serving ops a G f s L" and "0 \<le> g" and "g < totalNodes L" and "sentLengths L ! nat g = s'" and "snap_index L < s'" and "s' \<le> abs_len L + 1"
  shows "serving ops a G g s' L"
  using assms by (simp add: serving_def)

text \<open>One round with an attending follower, seen from the whole cluster.\<close>

lemma attending_round:
  assumes "attending ops a l G ns f s" and "f \<noteq> l" and "0 \<le> f" and "f < n" and "totalNodes (ns l) = n"
  shows "\<exists>L F. replicate_round (ops l) (ops f) (\<lambda>_. True) (inMemPeers n) True (\<lambda>_. True) f (ns l, ns f) = Some (L, F) \<and>
    attending ops a l G (ns(l := L, f := F)) f (go_len G + 1) \<and>
    (\<forall>g s'. g \<noteq> l \<and> g \<noteq> f \<and> attending ops a l G ns g s' \<longrightarrow> attending ops a l G (ns(l := L, f := F)) g s') \<and>
    ackedLengths L = (ackedLengths (ns l))[nat f := go_len G] \<and> raft_id L = raft_id (ns l) \<and> totalNodes L = n \<and>
    abs_len F = go_len G \<and> obeys l F \<and> commitedLength (ns l) \<le> commitedLength F \<and> commitedLength (ns l) \<le> commitedLength L \<and>
    (answered (ops l) (a l) G (ns l) \<longrightarrow> answered (ops l) (a l) G L) \<and>
    (\<forall>i. commitedLength (ns l) \<le> i \<and> i < go_len G \<and> 2 * int (card (replicated_on L i)) > n \<longrightarrow> i < commitedLength L)"
proof -
  have A: "serving (ops l) (a l) G f s (ns l)" "follows (ops f) (a f) G (ns f)" "snap_term_ok G (ns f)"
    "s - 1 \<le> abs_len (ns f)" "s = 1 \<or> snap_index (ns f) \<le> s - 1" "currentTerm (ns f) \<le> currentTerm (ns l)"
    and ids: "raft_id (ns l) = l" "raft_id (ns f) = f"
    using assms(1) by (simp_all add: attending_def)
  from round_accepted [OF A, of "\<lambda>_. True"] obtain L F resp where
    r: "replicate_round (ops l) (ops f) (\<lambda>_. True) (\<lambda>_. True) True (\<lambda>_. True) f (ns l, ns f) = Some (L, F)"
      "lr_CurrentTerm resp = currentTerm (ns l)" "lr_Success resp" "Ack resp = go_len G" "replicate_response (ops l) f resp (ns l) = Some L"
      "follows (ops f) (a f) G F" "abs_len F = go_len G" "currentTerm F = currentTerm (ns l)"
      "commitedLength F = max (commitedLength (ns f)) (commitedLength (ns l))" "snap_term_ok G F" "raft_id F = f" "obeys l F"
    using ids assms(2) by (auto simp: obeys_def)
  from ack_response [OF A(1) r(2-4)] r(5) have
    L: "serving (ops l) (a l) G f (go_len G + 1) L" "ackedLengths L = (ackedLengths (ns l))[nat f := go_len G]"
      "sentLengths L = (sentLengths (ns l))[nat f := go_len G + 1]"
      "core (L\<lparr>ackedLengths := ackedLengths (ns l), sentLengths := sentLengths (ns l)\<rparr>) = core (ns l)"
      "commitedLength (ns l) \<le> commitedLength L" "snapshotter L = snapshotter (ns l)"
      "answered (ops l) (a l) G (ns l) \<longrightarrow> answered (ops l) (a l) G L"
      "\<forall>i. commitedLength (ns l) \<le> i \<and> i < go_len G \<longrightarrow> (i < commitedLength L \<longleftrightarrow>
       2 * int (card (replicated_on ((ns l)\<lparr>ackedLengths := (ackedLengths (ns l))[nat f := go_len G]\<rparr>) i)) > totalNodes (ns l))"
    by auto
  have c: "raft_id L = raft_id (ns l)" "totalNodes L = n" "currentTerm L = currentTerm (ns l)"
    using L(4) assms(5) by (simp_all add: core_def)
  have rep: "replicated_on ((ns l)\<lparr>ackedLengths := (ackedLengths (ns l))[nat f := go_len G]\<rparr>) i = replicated_on L i" for i
    using c L(2) assms(5) by (simp add: replicated_on_def)
  have snapF: "snap_index F \<le> go_len G" using r(6,7) by (auto simp: follows_def rsm_def go_len_def)
  have "attending ops a l G (ns(l := L, f := F)) f (go_len G + 1)"
    using L(1) r(6-8,10,11) c(1,3) ids snapF assms(2) by (simp add: attending_def)
  moreover have "attending ops a l G (ns(l := L, f := F)) g s'" if g: "g \<noteq> l" "g \<noteq> f" "attending ops a l G ns g s'" for g s'
  proof -
    note G = servingD [of "ops l" "a l" G g s' "ns l"]
    have S: "serving (ops l) (a l) G g s' (ns l)" using g(3) by (simp add: attending_def)
    have "serving (ops l) (a l) G g s' L"
      using servingD(5,8,9,11-13) [OF S] servingD(9) [OF L(1)] g(2) assms(3,5) c(2) L(3,6)
      by (intro serving_other [OF L(1)]) (simp_all add: nat_eq_iff)
    then show ?thesis using g c(1,3) ids assms(2) by (simp add: attending_def)
  qed
  moreover have "replicate_round (ops l) (ops f) (\<lambda>_. True) (inMemPeers n) True (\<lambda>_. True) f (ns l, ns f) = Some (L, F)"
    using r(1) replicate_round_peers [of "inMemPeers n" f "\<lambda>_. True" "ops l" "ops f" "\<lambda>_. True"] assms(3,4) by (simp add: inMemPeers_def getPeer_def)
  ultimately show ?thesis using L(2,5,7,8) c(1,2) r(7,9,12) rep assms(5) by (intro exI [of _ L] exI [of _ F]) auto
qed

lemma replicate_all_pass:
  assumes "distinct fs" and "\<And>f. f \<in> set fs \<Longrightarrow> f \<noteq> l \<and> 0 \<le> f \<and> f < n \<and> (\<exists>s. attending ops a l G ns f s)"
    and "totalNodes (ns l) = n"
  shows "\<exists>ns'. replicate_all ops n l fs ns = Some ns' \<and>
    (\<forall>f \<in> set fs. attending ops a l G ns' f (go_len G + 1) \<and> ackedLengths (ns' l) ! nat f = go_len G \<and>
       abs_len (ns' f) = go_len G \<and> obeys l (ns' f) \<and> commitedLength (ns l) \<le> commitedLength (ns' f)) \<and>
    (\<forall>f. f \<noteq> l \<and> 0 \<le> f \<and> f \<notin> set fs \<longrightarrow> ns' f = ns f \<and> ackedLengths (ns' l) ! nat f = ackedLengths (ns l) ! nat f \<and>
       (\<forall>s. attending ops a l G ns f s \<longrightarrow> attending ops a l G ns' f s)) \<and>
    commitedLength (ns l) \<le> commitedLength (ns' l) \<and> raft_id (ns' l) = raft_id (ns l) \<and> totalNodes (ns' l) = n \<and>
    (answered (ops l) (a l) G (ns l) \<longrightarrow> answered (ops l) (a l) G (ns' l)) \<and>
    (\<forall>i. fs \<noteq> [] \<and> commitedLength (ns l) \<le> i \<and> i < go_len G \<and> 2 * int (card (replicated_on (ns' l) i)) > n \<longrightarrow> i < commitedLength (ns' l))"
  using assms
proof (induction fs arbitrary: ns)
  case (Cons f fs)
  have f: "f \<noteq> l" "0 \<le> f" "f < n" and fs: "distinct fs" "f \<notin> set fs" using Cons.prems(1) Cons.prems(2) [of f] by simp_all
  obtain s where s: "attending ops a l G ns f s" using Cons.prems(2) [of f] by auto
  obtain L F where r: "replicate_round (ops l) (ops f) (\<lambda>_. True) (inMemPeers n) True (\<lambda>_. True) f (ns l, ns f) = Some (L, F)"
    "attending ops a l G (ns(l := L, f := F)) f (go_len G + 1)"
    "\<And>g s'. g \<noteq> l \<Longrightarrow> g \<noteq> f \<Longrightarrow> attending ops a l G ns g s' \<Longrightarrow> attending ops a l G (ns(l := L, f := F)) g s'"
    "ackedLengths L = (ackedLengths (ns l))[nat f := go_len G]" "raft_id L = raft_id (ns l)" "totalNodes L = n"
    "abs_len F = go_len G" "commitedLength (ns l) \<le> commitedLength F" "commitedLength (ns l) \<le> commitedLength L" "obeys l F" "answered (ops l) (a l) G (ns l) \<longrightarrow> answered (ops l) (a l) G L"
    and rc: "\<And>i. commitedLength (ns l) \<le> i \<Longrightarrow> i < go_len G \<Longrightarrow> 2 * int (card (replicated_on L i)) > n \<Longrightarrow> i < commitedLength L"
    using attending_round [OF s f Cons.prems(3)] by blast
  define ns1 where "ns1 = ns(l := L, f := F)"
  have l: "ns1 l = L" "ns1 f = F" "\<And>g. g \<noteq> l \<Longrightarrow> g \<noteq> f \<Longrightarrow> ns1 g = ns g" using f(1) by (simp_all add: ns1_def)
  have att: "g \<noteq> l \<and> 0 \<le> g \<and> g < n \<and> (\<exists>s. attending ops a l G ns1 g s)" if "g \<in> set fs" for g
    using Cons.prems(2) [of g] r(3) [of g] that fs(2) by (auto simp: ns1_def)
  have "totalNodes (ns1 l) = n" using l(1) r(6) by simp
  from Cons.IH [OF fs(1) att this] obtain ns' where
    ns': "replicate_all ops n l fs ns1 = Some ns'"
      "\<forall>g \<in> set fs. attending ops a l G ns' g (go_len G + 1) \<and> ackedLengths (ns' l) ! nat g = go_len G \<and>
         abs_len (ns' g) = go_len G \<and> obeys l (ns' g) \<and> commitedLength (ns1 l) \<le> commitedLength (ns' g)"
      "\<forall>g. g \<noteq> l \<and> 0 \<le> g \<and> g \<notin> set fs \<longrightarrow> ns' g = ns1 g \<and> ackedLengths (ns' l) ! nat g = ackedLengths (ns1 l) ! nat g \<and>
         (\<forall>s. attending ops a l G ns1 g s \<longrightarrow> attending ops a l G ns' g s)"
      "commitedLength (ns1 l) \<le> commitedLength (ns' l)" "raft_id (ns' l) = raft_id (ns1 l)" "totalNodes (ns' l) = n"
      "answered (ops l) (a l) G (ns1 l) \<longrightarrow> answered (ops l) (a l) G (ns' l)"
      "\<forall>i. fs \<noteq> [] \<and> commitedLength (ns1 l) \<le> i \<and> i < go_len G \<and> 2 * int (card (replicated_on (ns' l) i)) > n \<longrightarrow> i < commitedLength (ns' l)"
    by blast
  have run: "replicate_all ops n l (f # fs) ns = Some ns'" using r(1) ns'(1) by (simp add: ns1_def)
  have len: "nat f < length (ackedLengths (ns l))"
    using s servingD(5,7) [of "ops l" "a l" G f s "ns l"] by (simp add: attending_def go_len_def)
  have this_f: "ns' f = F" "ackedLengths (ns' l) ! nat f = go_len G" "attending ops a l G ns' f (go_len G + 1)"
    using ns'(3) f fs(2) l r(2,4) len unfolding ns1_def [symmetric] by auto
  have other: "ns' g = ns g \<and> ackedLengths (ns' l) ! nat g = ackedLengths (ns l) ! nat g \<and>
      (\<forall>s. attending ops a l G ns g s \<longrightarrow> attending ops a l G ns' g s)" if "g \<noteq> l" "0 \<le> g" "g \<notin> set (f # fs)" for g
    using ns'(3) that l r(4) r(3) [of g] f(2) unfolding ns1_def [symmetric] by (auto simp: nat_eq_iff)
  have com: "i < commitedLength (ns' l)"
    if i: "commitedLength (ns l) \<le> i" "i < go_len G" "2 * int (card (replicated_on (ns' l) i)) > n" for i
  proof (cases "fs = [] \<or> i < commitedLength L")
    case True
    moreover have "fs = [] \<Longrightarrow> ns' = ns1" using ns'(1) by simp
    ultimately show ?thesis using rc [OF i(1,2)] i(3) ns'(4) l(1) by auto
  next
    case False
    then show ?thesis using ns'(8) i l(1) by simp
  qed
  show ?case
    using run this_f other com ns'(2,4-7) l(1) r(5,7-11) by (intro exI [of _ ns']) auto
qed simp

section \<open>A message reaches every node\<close>

lemma elected_attending:
  assumes "elected n l a ns" and "2 \<le> n" and "n < 2 ^ 31" and "0 \<le> l" and "l < n" and "wire_ok \<lparr>Term = 1, Msg = m\<rparr>"
  shows "\<exists>L. Broadcast (inMemPeers n) (ns l) m = Some (L, Appended) \<and> raft_id L = l \<and> totalNodes L = n \<and> commitedLength L = 0 \<and>
    currentTerm L = 1 \<and> abs_len L = 1 \<and> answered (ops l) (a l) [\<lparr>Term = 1, Msg = m\<rparr>] L \<and>
    (\<forall>f. 0 \<le> f \<and> f < n \<and> f \<noteq> l \<longrightarrow> attending ops a l [\<lparr>Term = 1, Msg = m\<rparr>] (ns(l := L)) f 1)"
proof -
  let ?e = "\<lparr>Term = 1, Msg = m\<rparr>"
  have L: "candidate n l (a l) {0..<n} (ns l)" and F: "\<And>j. j \<in> {0..<n} - {l} \<Longrightarrow> voter n l j (a j) (ns j)"
    using assms(1) by (simp_all add: elected_def)
  have l: "member (ns l)" "raft_id (ns l) = l" "totalNodes (ns l) = n" "currentTerm (ns l) = 1" "currentRole (ns l) = Leader"
    "raft_log (ns l) = []" "commitedLength (ns l) = 0" "application (ns l) = a l" "snap_index (ns l) = 0" "lastTerm (snapshotter (ns l)) = 0" "chans (ns l) = Map.empty"
    "\<forall>j. 0 \<le> j \<and> j < n \<and> j \<noteq> l \<longrightarrow> sentLengths (ns l) ! nat j = 1"
    using L assms(2) by (simp_all add: candidate_def)
  have "rsm (ops l) (a l) [] (ns l)" using l by (simp add: rsm_def)
  from broadcast_append_rsm [OF this l(1), of m] obtain L' where
    L': "broadcast_append (ns l) m = Some L'" "member L'" "commitedLength L' = 0" "rsm (ops l) (a l) [?e] L'" using l(4,7) by auto
  then have f: "raft_id L' = l" "totalNodes L' = n" "currentTerm L' = 1" "currentRole L' = Leader" "snapshotter L' = snapshotter (ns l)"
    "raft_log L' = [?e]" "sentLengths L' = sentLengths (ns l)" "chans L' = Map.empty"
    using l by (auto simp: broadcast_append_def go_store_def Let_def split: if_splits)
  have "serving (ops l) (a l) [?e] g 1 L'" if "0 \<le> g" "g < n" "g \<noteq> l" for g
    using L'(2,4) f l(9,10,12) that assms(3-6)
    by (simp add: serving_def leader_ok_def snap_term_ok_def in_int32_def go_len_def)
  moreover have "follows (ops g) (a g) [?e] (ns g) \<and> snap_term_ok [?e] (ns g) \<and> currentTerm (ns g) = 1 \<and> abs_len (ns g) = 0 \<and> raft_id (ns g) = g"
    if "g \<in> {0..<n} - {l}" for g
    using F [OF that] by (simp add: voter_def follows_def snap_term_ok_def rsm_def go_len_def)
  moreover have "answered (ops l) (a l) [?e] L'" using L'(3) f(8) by (simp add: answered_def)
  ultimately show ?thesis using L'(1,3) f(1-3,5,6) l(5,9)
    by (intro exI [of _ L']) (simp add: Broadcast_def getLeaderData_def attending_def go_len_def)
qed

text \<open>All nodes that attend with the same whole log and have committed it have applied it.\<close>

lemma attending_application:
  assumes "attending ops a l G ns f s" and "chan_blind (ops f)" and "go_len G \<le> commitedLength (ns f)"
  shows "application (ns f) = replay (ops f) (a f) G"
proof -
  from assms(1) obtain full where full: "rsm (ops f) (a f) full (ns f)" "prefix (map strip_chan full) (map strip_chan G)"
    by (auto simp: attending_def follows_def)
  have "length full \<le> length G" using prefix_length_le [OF full(2)] by simp
  moreover have "commitedLength (ns f) \<le> go_len full" using full(1) by (simp add: rsm_def)
  ultimately have "length full = length G" "nat (commitedLength (ns f)) = length full"
    using assms(3) by (auto simp: go_len_def)
  moreover from this full(2) have "map strip_chan full = map strip_chan G"
    by (metis append_eq_append_conv append_Nil2 length_map prefixE)
  ultimately show ?thesis using full(1) replay_strip [OF assms(2), of "a f"] by (metis order.refl rsm_def take_all)
qed

lemma attending_bound:
  assumes "attending ops a l G ns f s"
  shows "commitedLength (ns f) \<le> go_len G" "commitedLength (ns l) \<le> go_len G"
  using assms servingD(3) [of "ops l" "a l" G f s "ns l"]
  by (auto simp: attending_def follows_def rsm_def go_len_def dest!: prefix_length_le)

lemma attending_leader:
  assumes "attending ops a l [\<lparr>Term = 1, Msg = m\<rparr>] ns f s" and "0 < commitedLength (ns l)"
  shows "application (ns l) = app_step (ops l) (a l) m" and "currentRole (ns l) = Leader" and "commitedLength (ns l) = 1"
proof -
  have r: "rsm (ops l) (a l) [\<lparr>Term = 1, Msg = m\<rparr>] (ns l)" using assms(1) servingD(3) by (auto simp: attending_def)
  show c: "commitedLength (ns l) = 1" using attending_bound(2) [OF assms(1)] assms(2) by (simp add: go_len_def)
  show "application (ns l) = app_step (ops l) (a l) m" using r c by (simp add: rsm_def)
  show "currentRole (ns l) = Leader" using assms(1) servingD(2) by (auto simp: attending_def)
qed

lemma others_nonempty: "2 \<le> n \<Longrightarrow> 0 \<le> l \<Longrightarrow> l < n \<Longrightarrow> (if l = 0 then 1 else 0) \<in> set (others n l)"
  by auto

lemma first_pass:
  assumes "elected n l a ns" and "2 \<le> n" and "n < 2 ^ 31" and "0 \<le> l" and "l < n" and "wire_ok \<lparr>Term = 1, Msg = m\<rparr>"
  shows "\<exists>L ns1. Broadcast (inMemPeers n) (ns l) m = Some (L, Appended) \<and> replicate_all ops n l (others n l) (ns(l := L)) = Some ns1 \<and>
    0 < commitedLength (ns1 l) \<and> answered (ops l) (a l) [\<lparr>Term = 1, Msg = m\<rparr>] (ns1 l) \<and> currentTerm L = 1 \<and> abs_len L = 1 \<and> totalNodes L = n \<and> totalNodes (ns1 l) = n \<and>
    (\<forall>f \<in> set (others n l). attending ops a l [\<lparr>Term = 1, Msg = m\<rparr>] (ns(l := L)) f 1 \<and> attending ops a l [\<lparr>Term = 1, Msg = m\<rparr>] ns1 f 2)"
proof -
  let ?G = "[\<lparr>Term = 1, Msg = m\<rparr>]" and ?fs = "others n l"
  obtain L where L: "Broadcast (inMemPeers n) (ns l) m = Some (L, Appended)" "raft_id L = l" "totalNodes L = n" "commitedLength L = 0"
    "currentTerm L = 1" "abs_len L = 1" and ans: "answered (ops l) (a l) ?G L"
    and att_L: "\<And>f. 0 \<le> f \<Longrightarrow> f < n \<Longrightarrow> f \<noteq> l \<Longrightarrow> attending ops a l ?G (ns(l := L)) f 1"
    using elected_attending [OF assms(1-6)] by blast
  have ne: "?fs \<noteq> []" using others_nonempty [OF assms(2,4,5)] by (metis empty_iff list.set(1))
  have len: "go_len ?G = 1" by (simp add: go_len_def)
  have att: "f \<noteq> l \<and> 0 \<le> f \<and> f < n \<and> (\<exists>s. attending ops a l ?G (ns(l := L)) f s)" if "f \<in> set ?fs" for f
    using att_L [of f] that by auto
  have n: "totalNodes ((ns(l := L)) l) = n" using L(3) by simp
  obtain ns1 where q: "replicate_all ops n l ?fs (ns(l := L)) = Some ns1"
    "\<forall>f \<in> set ?fs. attending ops a l ?G ns1 f (go_len ?G + 1) \<and> ackedLengths (ns1 l) ! nat f = go_len ?G \<and>
       abs_len (ns1 f) = go_len ?G \<and> obeys l (ns1 f) \<and> commitedLength ((ns(l := L)) l) \<le> commitedLength (ns1 f)"
    "raft_id (ns1 l) = raft_id ((ns(l := L)) l)" "totalNodes (ns1 l) = n"
    and q5: "answered (ops l) (a l) ?G ((ns(l := L)) l) \<longrightarrow> answered (ops l) (a l) ?G (ns1 l)"
    and q6: "\<forall>i. ?fs \<noteq> [] \<and> commitedLength ((ns(l := L)) l) \<le> i \<and> i < go_len ?G \<and> 2 * int (card (replicated_on (ns1 l) i)) > n \<longrightarrow> i < commitedLength (ns1 l)"
    using replicate_all_pass [OF distinct_others att n] by blast
  have p: "\<And>f. f \<in> set ?fs \<Longrightarrow> attending ops a l ?G ns1 f 2 \<and> ackedLengths (ns1 l) ! nat f = 1" "raft_id (ns1 l) = l"
    "2 * int (card (replicated_on (ns1 l) 0)) > n \<Longrightarrow> 0 < commitedLength (ns1 l)"
    using q q6 L(2,4) ne unfolding len by simp_all
  have "replicated_on (ns1 l) 0 = {0..<n}"
    using p(1,2) q(4) assms(4,5) by (auto simp: replicated_on_def)
  then have "0 < commitedLength (ns1 l)" using p(3) assms(2) by simp
  moreover have "attending ops a l ?G (ns(l := L)) f 1" if "f \<in> set ?fs" for f using that att_L by simp
  moreover have "answered (ops l) (a l) ?G (ns1 l)" using q5 ans by simp
  ultimately show ?thesis using L(1,3,5,6) q(1,4) p(1) by blast
qed

lemma two_passes:
  assumes "elected n l a ns" and "2 \<le> n" and "n < 2 ^ 31" and "0 \<le> l" and "l < n" and "wire_ok \<lparr>Term = 1, Msg = m\<rparr>"
    and "\<And>j. chan_blind (ops j)"
  shows "\<exists>L ns1 ns2. Broadcast (inMemPeers n) (ns l) m = Some (L, Appended) \<and>
    replicate_all ops n l (others n l) (ns(l := L)) = Some ns1 \<and> application (ns1 l) = app_step (ops l) (a l) m \<and>
    replicate_all ops n l (others n l) ns1 = Some ns2 \<and>
    (\<forall>j. 0 \<le> j \<and> j < n \<longrightarrow> application (ns2 j) = app_step (ops j) (a j) m \<and> commitedLength (ns2 j) = 1 \<and> (if j = l then currentRole (ns2 j) = Leader else obeys l (ns2 j))) \<and>
    chans (ns1 l) = answers (ops l) (a l) Map.empty [\<lparr>Term = 1, Msg = m\<rparr>] \<and>
    currentTerm L = 1 \<and> abs_len L = 1 \<and> totalNodes L = n \<and> totalNodes (ns1 l) = n \<and>
    (\<forall>f \<in> set (others n l). attending ops a l [\<lparr>Term = 1, Msg = m\<rparr>] (ns(l := L)) f 1 \<and> attending ops a l [\<lparr>Term = 1, Msg = m\<rparr>] ns1 f 2)"
proof -
  let ?G = "[\<lparr>Term = 1, Msg = m\<rparr>]" and ?fs = "others n l" and ?f = "if l = 0 then 1 else 0 :: int"
  have f: "?f \<in> set ?fs" and len: "go_len ?G = 1" using others_nonempty [OF assms(2,4,5)] by (auto simp: go_len_def)
  obtain L ns1 where p1: "Broadcast (inMemPeers n) (ns l) m = Some (L, Appended)" "replicate_all ops n l ?fs (ns(l := L)) = Some ns1"
    "0 < commitedLength (ns1 l)" "currentTerm L = 1" "abs_len L = 1" "totalNodes L = n" "totalNodes (ns1 l) = n"
    "\<And>f. f \<in> set ?fs \<Longrightarrow> attending ops a l ?G (ns(l := L)) f 1 \<and> attending ops a l ?G ns1 f 2" "answered (ops l) (a l) ?G (ns1 l)"
    using first_pass [OF assms(1-6)] by blast
  have att: "f \<noteq> l \<and> 0 \<le> f \<and> f < n \<and> (\<exists>s. attending ops a l ?G ns1 f s)" if "f \<in> set ?fs" for f
    using p1(8) [OF that] that by auto
  obtain ns2 where q2: "replicate_all ops n l ?fs ns1 = Some ns2" "commitedLength (ns1 l) \<le> commitedLength (ns2 l)"
    "\<forall>f \<in> set ?fs. attending ops a l ?G ns2 f (go_len ?G + 1) \<and> ackedLengths (ns2 l) ! nat f = go_len ?G \<and>
       abs_len (ns2 f) = go_len ?G \<and> obeys l (ns2 f) \<and> commitedLength (ns1 l) \<le> commitedLength (ns2 f)"
    using replicate_all_pass [OF distinct_others att p1(7)] by blast
  then have p2: "\<And>f. f \<in> set ?fs \<Longrightarrow> attending ops a l ?G ns2 f 2 \<and> commitedLength (ns1 l) \<le> commitedLength (ns2 f) \<and> obeys l (ns2 f)"
    unfolding len by simp
  have "attending ops a l ?G ns2 ?f 2" "attending ops a l ?G ns1 ?f 2" using p2 [OF f] p1(8) [OF f] by simp_all
  note lead = attending_leader [OF this(1)] attending_leader(1,3) [OF this(2) p1(3)]
  have "application (ns2 j) = app_step (ops j) (a j) m \<and> commitedLength (ns2 j) = 1 \<and> (if j = l then currentRole (ns2 j) = Leader else obeys l (ns2 j))"
    if "0 \<le> j" "j < n" for j
  proof (cases "j = l")
    case True
    then show ?thesis using lead(1-3) q2(2) p1(3) by simp
  next
    case False
    then show ?thesis
      using attending_application [of ops a l ?G ns2 j 2, OF _ assms(7)] attending_bound(1) [of ops a l ?G ns2 j 2] p2 [of j] p1(3) that len by simp
  qed
  moreover have "chans (ns1 l) = answers (ops l) (a l) Map.empty ?G" using p1(9) lead(5) by (simp add: answered_def del: answers.simps)
  ultimately show ?thesis using p1 q2(1) lead(4) by blast
qed

lemma inMem_get:
  assumes "if j = l then currentRole (ns j) = Leader else obeys l (ns j)" and "currentRole (ns l) = Leader" and "0 \<le> l" and "l < n"
    and "GetValue ops (application (ns l)) key = v" and "in_int32 v"
  shows "inMemPeer_ForwardGet ops n False j key ns = Inr v"
proof -
  have "inMemPeer_ForwardGet ops n hop l key ns = Inr v" for hop
    using assms(2,5,6) by (simp add: inMemPeer_ForwardGet.simps [of ops n hop] ForwardGet_def getLeaderData_def)
  then show ?thesis using assms(1,3,4)
    by (cases "j = l") (simp_all add: inMemPeer_ForwardGet.simps [of ops n False] ForwardGet_def getLeaderData_def obeys_def getPeer_def inMemPeers_def)
qed

lemma testApp_chan_blind: "chan_blind (testApp_ops ord)"
  by (simp add: chan_blind_def app_step_def testApp_ops_def testApp_AppendMessage_def split: option.split)

text \<open>C7: A put reaches every node: in a fresh cluster of any size from two on, a node is elected, a put is broadcast through it, and
  after one round of its replicators the leader has applied it and the waiting client has its answer, after a second one every node
  has it: each returns the new value, and a get that is sent to any node is answered by the leader with the new value.\<close>
theorem cluster_put_reaches_all:
  fixes m :: "'d Message"
  assumes "2 \<le> n" and "n < 2 ^ 31" and "0 \<le> l" and "l < n"
    and "MsgType m = PutMsg" and "Value m = Some v" and "in_int32 (Key m)" and "in_int32 v"
  shows "\<exists>ns L ns1 ns2. hold_election n l (createCluster n) = Some ns \<and>
    BroadcastSync_start (inMemPeers n) ch (ns l) m = Some (L, Appended) \<and>
    replicate_all (\<lambda>_. testApp_ops ord) n l (others n l) (ns(l := L)) = Some ns1 \<and> BroadcastSync_finish ch (ns1 l) = (True, 0, None) \<and>
    replicate_all (\<lambda>_. testApp_ops ord) n l (others n l) ns1 = Some ns2 \<and>
    (\<forall>j. 0 \<le> j \<and> j < n \<longrightarrow> testApp_GetValue (application (ns2 j)) (Key m) = v \<and>
       inMemPeer_ForwardGet (testApp_ops ord) n False j (Key m) ns2 = Inr v)"
proof -
  let ?ops = "testApp_ops ord :: ('d, testApp) Application" and ?m = "m\<lparr>ResponseChan := Some ch\<rparr>"
  obtain ns :: "int \<Rightarrow> ('d, testApp) Raft" where ns: "hold_election n l (createCluster n) = Some ns" "elected n l (\<lambda>_. newTestApp) ns"
    using hold_election_elects [OF assms(1-4), of "\<lambda>_. newTestApp" "createCluster n"] createCluster_fresh by blast
  have "wire_ok \<lparr>Term = 1, Msg = ?m\<rparr>" using assms(5-8) by (simp add: wire_ok_def in_int32_def)
  from two_passes [OF ns(2) assms(1-4) this, of "\<lambda>_. ?ops"] testApp_chan_blind obtain L ns1 ns2 where
    r: "Broadcast (inMemPeers n) (ns l) ?m = Some (L, Appended)"
      "replicate_all (\<lambda>_. ?ops) n l (others n l) (ns(l := L)) = Some ns1" "chans (ns1 l) = answers ?ops newTestApp Map.empty [\<lparr>Term = 1, Msg = ?m\<rparr>]"
      "replicate_all (\<lambda>_. ?ops) n l (others n l) ns1 = Some ns2"
      "\<And>j. 0 \<le> j \<Longrightarrow> j < n \<Longrightarrow> application (ns2 j) = app_step ?ops newTestApp ?m"
      "\<And>j. 0 \<le> j \<Longrightarrow> j < n \<Longrightarrow> (if j = l then currentRole (ns2 j) = Leader else obeys l (ns2 j))" by blast
  have v: "testApp_GetValue (app_step ?ops newTestApp ?m) (Key m) = v" "BroadcastSync_finish ch (ns1 l) = (True, 0, None)"
    using assms(5,6) r(3) by (simp_all add: app_step_def testApp_ops_def testApp_AppendMessage_def testApp_GetValue_def BroadcastSync_finish_def)
  have "inMemPeer_ForwardGet ?ops n False j (Key m) ns2 = Inr v" if "0 \<le> j" "j < n" for j
  proof (rule inMem_get)
    show "GetValue ?ops (application (ns2 l)) (Key m) = v" using v(1) r(5) [OF assms(3,4)] by (simp add: testApp_ops_def)
  qed (use r(6) that assms(3,4,8) in auto)
  with ns(1) r v show ?thesis
    by (intro exI [of _ ns] exI [of _ L] exI [of _ ns1] exI [of _ ns2]) (simp add: BroadcastSync_start_def)
qed

theorem cluster_put_reaches_all_witness:
  "\<exists>ns L ns1 ns2. hold_election 5 2 (createCluster 5) = Some ns \<and>
    BroadcastSync_start (inMemPeers 5) 7 (ns 2) (example_put 1 10 None) = Some (L, Appended) \<and>
    replicate_all (\<lambda>_. example_ops) 5 2 (others 5 2) (ns(2 := L)) = Some ns1 \<and> BroadcastSync_finish 7 (ns1 2) = (True, 0, None) \<and>
    replicate_all (\<lambda>_. example_ops) 5 2 (others 5 2) ns1 = Some ns2 \<and> testApp_GetValue (application (ns2 4)) 1 = 10 \<and>
    inMemPeer_ForwardGet example_ops 5 False 4 1 ns2 = Inr 10"
proof -
  have m: "MsgType (example_put 1 10 None) = PutMsg" "Value (example_put 1 10 None) = Some 10" "Key (example_put 1 10 None) = 1"
    by (simp_all add: example_put_def)
  show ?thesis using cluster_put_reaches_all [of 5 2 "example_put 1 10 None" 10 7 small_order] m
    by (fastforce simp: example_ops_def in_int32_def)
qed

section \<open>Rounds as runs\<close>

text \<open>
  A round is a run of the single steps with messages in between, as long as it sends no snapshot;
  so what holds for all interleavings holds for the in-memory cluster.
\<close>

lemma round_run:
  assumes "replicate_round (ops l) (ops f) av peers True net f (nodes c l, nodes c f) = Some (L, F)"
    and "0 \<le> f" and "f < n" and "f \<noteq> l" and "replicate_start av peers f (nodes c l) \<noteq> Some SendSnapshot"
  shows "\<exists>c'. run (replication_step ops n l) c c' \<and> nodes c' = (nodes c)(l := L, f := F)"
proof -
  from assms(1) obtain plan where plan: "replicate_start av peers f (nodes c l) = Some plan"
    by (auto simp: replicate_round_def split: bind_splits)
  show ?thesis
  proof (cases plan)
    case PeerFailed
    with assms(1) plan have "L = replicate_failed f (nodes c l)" "F = nodes c f" by (simp_all add: replicate_round_def)
    then show ?thesis using run_single [of "replication_step ops n l" c, OF rs_failed [of ops n l c f]] assms(4) by (intro exI conjI) (assumption, auto)
  next
    case NotLeader
    with assms(1) plan have "L = nodes c l" "F = nodes c f" by (simp_all add: replicate_round_def)
    then show ?thesis using run_refl [of "replication_step ops n l" c] by (intro exI conjI) (assumption, auto)
  next
    case SendSnapshot
    then show ?thesis using plan assms(5) by simp
  next
    case (SendLog args too)
    let ?c1 = "c\<lparr>logRequests := insert (f, args) (logRequests c)\<rparr>"
    have s1: "run (replication_step ops n l) c ?c1"
      using plan SendLog assms(2-4) by (intro run_single rs_send [of f]) simp_all
    from assms(1) plan SendLog obtain resp where
      r: "LogRequest (ops f) (nodes c f) args = Some (F, resp)" "replicate_response (ops l) f resp (nodes c l) = Some L"
      by (auto simp: replicate_round_def split: bind_splits)
    from r(1) obtain F1 mresp where chk: "LogRequest_check (nodes c f) args = Some (F1, mresp)"
      by (auto simp: LogRequest_halves split: bind_splits)
    have "\<exists>c2. run (replication_step ops n l) c c2 \<and> nodes c2 = (nodes c)(f := F) \<and> (f, resp) \<in> logReplies c2"
    proof (cases mresp)
      case None
      let ?c2 = "?c1\<lparr>nodes := (nodes c)(f := F1), accepted := insert (f, args) (accepted c)\<rparr>"
      have "replication_step ops n l ?c1 ?c2" using rs_check [of f args ?c1 F1 ops n l] chk None by simp
      moreover have "LogRequest_append (ops f) F1 args = Some (F, resp)" using r(1) chk None by (simp add: LogRequest_halves)
      then have "replication_step ops n l ?c2 (?c2\<lparr>nodes := (nodes ?c2)(f := F), logReplies := insert (f, resp) (logReplies ?c2)\<rparr>)"
        by (intro rs_append [of f args]) simp_all
      ultimately show ?thesis using run_step [of "replication_step ops n l" c, OF run_step [of "replication_step ops n l" c, OF s1]] by (intro exI conjI) (assumption, simp_all)
    next
      case (Some x)
      then have "x = resp" "F1 = F" using r(1) chk by (simp_all add: LogRequest_halves)
      then have "replication_step ops n l ?c1 (?c1\<lparr>nodes := (nodes ?c1)(f := F), logReplies := insert (f, resp) (logReplies ?c1)\<rparr>)"
        using chk Some by (intro rs_refuse [of f args]) simp_all
      from run_step [of "replication_step ops n l" c, OF s1 this] show ?thesis by (intro exI conjI) (assumption, simp_all)
    qed
    then obtain c2 where c2: "run (replication_step ops n l) c c2" "nodes c2 = (nodes c)(f := F)" "(f, resp) \<in> logReplies c2" by blast
    have "replication_step ops n l c2 (c2\<lparr>nodes := (nodes c2)(l := L)\<rparr>)"
      using r(2) c2(2,3) assms(4) by (intro rs_reply [of f resp]) simp_all
    from run_step [of "replication_step ops n l" c, OF c2(1) this] c2(2) assms(4) show ?thesis by (intro exI conjI) (assumption, auto simp: fun_upd_twist)
  qed
qed

lemma replicate_all_run:
  assumes "replicate_all ops n l fs (nodes c) = Some ns'" and "distinct fs" and "totalNodes (nodes c l) = n"
    and "\<And>f. f \<in> set fs \<Longrightarrow> f \<noteq> l \<and> 0 \<le> f \<and> f < n \<and> (\<exists>s. attending ops a l G (nodes c) f s)"
  shows "\<exists>c'. run (replication_step ops n l) c c' \<and> nodes c' = ns'"
  using assms
proof (induction fs arbitrary: c)
  case Nil
  then show ?case by (intro exI [of _ c]) (simp add: run_refl)
next
  case (Cons f fs)
  have f: "f \<noteq> l" "0 \<le> f" "f < n" using Cons.prems(4) [of f] by simp_all
  obtain s where s: "attending ops a l G (nodes c) f s" using Cons.prems(4) [of f] by auto
  obtain L F where r: "replicate_round (ops l) (ops f) (\<lambda>_. True) (inMemPeers n) True (\<lambda>_. True) f (nodes c l, nodes c f) = Some (L, F)"
    "\<And>g s'. g \<noteq> l \<Longrightarrow> g \<noteq> f \<Longrightarrow> attending ops a l G (nodes c) g s' \<Longrightarrow> attending ops a l G ((nodes c)(l := L, f := F)) g s'"
    "totalNodes L = n" using attending_round [OF s f Cons.prems(3)] by blast
  have "replicate_start (\<lambda>_. True) (inMemPeers n) f (nodes c l) \<noteq> Some SendSnapshot"
    using s servingD(11,14) [of "ops l" "a l" G f s "nodes c l"]
    by (auto simp: attending_def replicate_start_def split: if_splits bind_splits)
  from round_run [of ops l f, OF r(1) f(2,3,1) this] obtain c1 where
    c1: "run (replication_step ops n l) c c1" "nodes c1 = (nodes c)(l := L, f := F)" by blast
  have "\<exists>c'. run (replication_step ops n l) c1 c' \<and> nodes c' = ns'"
  proof (rule Cons.IH)
    show "replicate_all ops n l fs (nodes c1) = Some ns'" using Cons.prems(1) r(1) c1(2) by simp
    show "totalNodes (nodes c1 l) = n" using c1(2) r(3) f(1) by simp
    fix g assume g: "g \<in> set fs"
    then have "g \<noteq> f" "g \<noteq> l \<and> 0 \<le> g \<and> g < n" using Cons.prems(2) Cons.prems(4) [of g] by auto
    moreover obtain s' where "attending ops a l G (nodes c) g s'" using Cons.prems(4) [of g] g by auto
    ultimately show "g \<noteq> l \<and> 0 \<le> g \<and> g < n \<and> (\<exists>s. attending ops a l G (nodes c1) g s)"
      unfolding c1(2) using r(2) [of g s'] by blast
  qed (use Cons.prems(2) in simp)
  then obtain c' where c': "run (replication_step ops n l) c1 c'" "nodes c' = ns'" by blast
  from run_trans [of "replication_step ops n l", OF c'(1) c1(1)] c'(2) show ?case by blast
qed

lemma put_run:
  assumes "elected n l a ns" and "2 \<le> n" and "n < 2 ^ 31" and "0 \<le> l" and "l < n" and "wire_ok \<lparr>Term = 1, Msg = m\<rparr>"
    and "\<And>j. chan_blind (ops j)"
  shows "\<exists>c. run (replication_step ops n l) \<lparr>nodes = ns, logRequests = {}, accepted = {}, logReplies = {}\<rparr> c \<and>
    (\<forall>j. 0 \<le> j \<and> j < n \<longrightarrow> application (nodes c j) = app_step (ops j) (a j) m \<and> commitedLength (nodes c j) = 1)"
proof -
  let ?c = "\<lparr>nodes = ns, logRequests = {}, accepted = {}, logReplies = {}\<rparr>" and ?G = "[\<lparr>Term = 1, Msg = m\<rparr>]"
  from two_passes [of n l a ns m ops, OF assms] obtain L ns1 ns2 where
    r: "Broadcast (inMemPeers n) (ns l) m = Some (L, Appended)" "replicate_all ops n l (others n l) (ns(l := L)) = Some ns1"
      "replicate_all ops n l (others n l) ns1 = Some ns2"
      "\<forall>j. 0 \<le> j \<and> j < n \<longrightarrow> application (ns2 j) = app_step (ops j) (a j) m \<and> commitedLength (ns2 j) = 1"
      "currentTerm L = 1" "abs_len L = 1" "totalNodes L = n" "totalNodes (ns1 l) = n"
      "\<forall>f \<in> set (others n l). attending ops a l ?G (ns(l := L)) f 1 \<and> attending ops a l ?G ns1 f 2" by blast
  let ?c1 = "?c\<lparr>nodes := ns(l := L)\<rparr>"
  have "replication_step ops n l ?c ?c1"
    using rs_broadcast [of "inMemPeers n" ?c l m L ops n] r(1,5,6) assms(6) by (simp add: in_int32_def)
  then have s1: "run (replication_step ops n l) ?c ?c1" by (rule run_single)
  have "\<exists>c2. run (replication_step ops n l) ?c1 c2 \<and> nodes c2 = ns1"
  proof (rule replicate_all_run [of ops n l "others n l" _ _ a ?G])
    fix f assume f: "f \<in> set (others n l)"
    with r(9) have "attending ops a l ?G (nodes ?c1) f 1" by simp
    with f show "f \<noteq> l \<and> 0 \<le> f \<and> f < n \<and> (\<exists>s. attending ops a l ?G (nodes ?c1) f s)" by auto
  qed (use r(2,7) in simp_all)
  then obtain c2 where c2: "run (replication_step ops n l) ?c1 c2" "nodes c2 = ns1" by blast
  have "\<exists>c3. run (replication_step ops n l) c2 c3 \<and> nodes c3 = ns2"
  proof (rule replicate_all_run [of ops n l "others n l" _ _ a ?G])
    fix f assume f: "f \<in> set (others n l)"
    with r(9) have "attending ops a l ?G (nodes c2) f 2" by (simp add: c2(2))
    with f show "f \<noteq> l \<and> 0 \<le> f \<and> f < n \<and> (\<exists>s. attending ops a l ?G (nodes c2) f s)" by auto
  qed (use r(3,8) c2(2) in simp_all)
  then obtain c3 where c3: "run (replication_step ops n l) c2 c3" "nodes c3 = ns2" by blast
  have "run (replication_step ops n l) ?c c3" by (rule run_trans [OF c3(1) run_trans [OF c2(1) s1]])
  with r(4) c3(2) show ?thesis by blast
qed

text \<open>A fresh cluster of three in which a put has been committed by all.\<close>

lemma example_office:
  "\<exists>c c'. takes_office (\<lambda>_. example_ops) (\<lambda>_. newTestApp) 3 1 [] c \<and> run (replication_step (\<lambda>_. example_ops) 3 1) c c' \<and>
    (\<forall>j. 0 \<le> j \<and> j < 3 \<longrightarrow> commitedLength (nodes c' j) = 1)"
proof -
  obtain ns :: "int \<Rightarrow> (unit, testApp) Raft" where ns: "elected 3 1 (\<lambda>_. newTestApp) ns"
    using hold_election_elects [of 3 1 "\<lambda>_. newTestApp" "createCluster 3"] createCluster_fresh by fastforce
  have "wire_ok \<lparr>Term = 1, Msg = example_put 1 10 None\<rparr>" by (simp add: wire_ok_def example_put_def in_int32_def)
  moreover have "chan_blind example_ops" by (simp add: example_ops_def testApp_chan_blind)
  ultimately show ?thesis using put_run [OF ns, of "example_put 1 10 None" "\<lambda>_. example_ops"] elected_takes_office [OF ns, of "\<lambda>_. example_ops"]
    by auto
qed

section \<open>Agreement during a term of office\<close>



text \<open>Replicas agree: during a term of office any two nodes that have committed equally many entries have
  the same application state, and a node that has committed fewer only has to apply further entries of the same log
  to reach the other's state. The application must not look at the response channels, which
  are not sent.\<close>
theorem replicas_agree:
  assumes "run (replication_step (\<lambda>_. ops) n l) c c'" and "takes_office (\<lambda>_. ops) (\<lambda>_. a) n l G c" and "chan_blind ops"
    and "0 \<le> i" and "i < n" and "0 \<le> j" and "j < n" and "commitedLength (nodes c' i) \<le> commitedLength (nodes c' j)"
  shows "\<exists>es. application (nodes c' j) = replay ops (application (nodes c' i)) es \<and>
    int (length es) = commitedLength (nodes c' j) - commitedLength (nodes c' i)"
proof -
  from takes_office_steady [OF assms(2)] have "\<exists>G'. prefix G G' \<and> steady (\<lambda>_. ops) (\<lambda>_. a) n l (currentTerm (nodes c l)) G' c" by blast
  from replication.run_inv [OF assms(1) this] obtain G' where
    G': "steady (\<lambda>_. ops) (\<lambda>_. a) n l (currentTerm (nodes c l)) G' c'" by blast
  let ?i = "nat (commitedLength (nodes c' i))" and ?j = "nat (commitedLength (nodes c' j))"
  have "take ?j G' = take ?i G' @ take (?j - ?i) (drop ?i G')" using assms(8) by (simp flip: take_add)
  moreover have "?j \<le> length G'" "0 \<le> commitedLength (nodes c' i)"
    using steady_prefix [OF G', of j] steady_prefix [OF G', of i] assms(4-7)
    by (auto simp: follows_def rsm_def go_len_def dest!: prefix_length_le)
  moreover have "application (nodes c' k) = replay ops a (take (nat (commitedLength (nodes c' k))) G')" if "k \<in> {i, j}" for k
    using steady_application [OF G', of k] that assms(3-7) by auto
  ultimately show ?thesis using assms(8)
    by (intro exI [of _ "take (?j - ?i) (drop ?i G')"]) (simp add: min_absorb2 diff_le_mono)
qed

theorem replicas_agree_witness:
  "\<exists>c c'. run (replication_step (\<lambda>_. example_ops) 3 1) c c' \<and> commitedLength (nodes c' 0) = 1 \<and>
    application (nodes c' 2) = application (nodes c' 0)"
proof -
  from example_office obtain c c' where c: "takes_office (\<lambda>_. example_ops) (\<lambda>_. newTestApp) 3 1 [] c"
    "run (replication_step (\<lambda>_. example_ops) 3 1) c c'" "commitedLength (nodes c' 0) = 1" "commitedLength (nodes c' 2) = 1" by auto
  have b: "chan_blind example_ops" by (simp add: example_ops_def testApp_chan_blind)
  from replicas_agree [OF c(2,1) b, of 0 2] c(2-4) show ?thesis by auto
qed

end
