(* ===== verification/Control_Plane.thy ===== *)
theory Control_Plane
  imports Raft_Memory Controller
begin

text \<open>
  The control plane: the state machine of the controllers as the application that the Raft nodes
  replicate. Controllers under one Raft leader have the same topology.
\<close>

section \<open>The state machine as an application\<close>

text \<open>
  \<open>ControllerApp\<close> with its controller attached, as the application of a Raft node. The state carries
  how many commands were applied, since \<open>local\<close> says for each of them whether the controller led and
  what its clock showed. \<open>marshal\<close> and \<open>unmarshal\<close> are the JSON of the topology.
\<close>

definition controller_append :: "(nat \<Rightarrow> bool \<times> go_time) \<Rightarrow> nat \<times> Controller \<Rightarrow> Command option Message \<Rightarrow>
    (nat \<times> Controller) \<times> bool \<times> int" where
  "controller_append local app msg =
     (case ControllerApp_AppendMessage (fst (local (fst app))) (snd (local (fst app))) (Some (snd app)) msg of
        Some (Some c, r) \<Rightarrow> ((Suc (fst app), c), r)
      | _ \<Rightarrow> (app, False, 0))"

definition controller_restore :: "(byte list \<Rightarrow> config_json) \<Rightarrow> nat \<times> Controller \<Rightarrow> byte list \<Rightarrow>
    (nat \<times> Controller) \<times> string option \<times> int" where
  "controller_restore unmarshal app bytes =
     (case ControllerApp_RestoreFromSnapshot (unmarshal bytes) (Some (snd app)) of
        (Some c, True, v) \<Rightarrow> ((fst app, c), None, v)
      | (_, _, v) \<Rightarrow> (app, Some ''json error'', v))"

definition controller_ops :: "(config_json \<Rightarrow> byte list) \<Rightarrow> (byte list \<Rightarrow> config_json) \<Rightarrow> (nat \<Rightarrow> bool \<times> go_time) \<Rightarrow>
    (Command option, nat \<times> Controller) Application" where
  "controller_ops marshal unmarshal local =
     \<lparr>AppendMessage = controller_append local,
      GetSnapshot = (\<lambda>app. Inr (marshal (ControllerApp_GetSnapshot (Some (snd app))))),
      RestoreFromSnapshot = controller_restore unmarshal,
      GetValue = (\<lambda>app key. ControllerApp_GetValue key (Some (snd app)))\<rparr>"

text \<open>With a controller attached a command is always applied.\<close>

lemma controller_append_eq:
  "\<exists>c r. ControllerApp_AppendMessage (fst (local k)) (snd (local k)) (Some d) msg = Some (Some c, r) \<and>
    controller_append local (k, d) msg = ((Suc k, c), r)"
proof -
  obtain c r where "ControllerApp_AppendMessage (fst (local k)) (snd (local k)) (Some d) msg = Some (Some c, r)"
    using AppendMessage_same [OF same_topology_refl [of "c_config d"]] by blast
  then show ?thesis by (simp add: controller_append_def)
qed

lemma controller_chan_blind: "chan_blind (controller_ops marshal unmarshal local)"
  by (simp add: chan_blind_def app_step_def controller_ops_def controller_append_def ControllerApp_AppendMessage_def)

section \<open>Agreement\<close>

lemma controller_replay_same:
  assumes "same_topology (c_config c) (c_config c')"
  shows "same_topology (c_config (snd (replay (controller_ops m1 u1 local1) (k1, c) es)))
    (c_config (snd (replay (controller_ops m2 u2 local2) (k2, c') es)))"
  using assms
proof (induction es arbitrary: k1 k2 c c')
  case (Cons e es)
  obtain d d' r where d: "ControllerApp_AppendMessage (fst (local1 k1)) (snd (local1 k1)) (Some c) (Msg e) = Some (Some d, r)"
    "ControllerApp_AppendMessage (fst (local2 k2)) (snd (local2 k2)) (Some c') (Msg e) = Some (Some d', r)"
    "same_topology (c_config d) (c_config d')"
    using AppendMessage_same [OF Cons.prems] by blast
  then show ?case using Cons.IH [OF d(3)] by (simp add: app_step_def controller_ops_def controller_append_def)
qed simp


text \<open>Three controllers, of which the first is elected and registers a data node.\<close>

definition example_local :: "nat \<Rightarrow> bool \<times> go_time" where
  "example_local k = (False, int k)"

definition example_controllers :: "(Command option, nat \<times> Controller) Application" where
  "example_controllers = controller_ops (\<lambda>_. []) (\<lambda>_. NotConfig) example_local"

lemma example_registration:
  "\<exists>c c'. takes_office (\<lambda>_. example_controllers) (\<lambda>_. (0, NewController 5)) 3 0 [] c \<and>
    run (replication_step (\<lambda>_. example_controllers) 3 0) c c' \<and>
    (\<forall>j. 0 \<le> j \<and> j < 3 \<longrightarrow> commitedLength (nodes c' j) = 1 \<and>
      application (nodes c' j) = app_step example_controllers (0, NewController 5) (RegisterNode_message ''n1'' ''a1''))"
proof -
  let ?a = "\<lambda>_ :: int. (0 :: nat, NewController 5)"
  let ?ns = "\<lambda>i. initial_raft (0 :: nat, NewController 5) i 3 100 (NewRaftDataSaver None None None) :: (Command option, nat \<times> Controller) Raft"
  have "fresh 3 j (?a j) (?ns j)" if "0 \<le> j" "j < 3" for j
    using that by (simp add: fresh_def initial_raft_def member_def go_len_def newSnapshotter_def)
  from hold_election_elects [of 3 0 ?a ?ns, OF _ _ _ _ this] obtain ns :: "int \<Rightarrow> (Command option, nat \<times> Controller) Raft"
    where ns: "elected 3 0 ?a ns" by auto
  have m: "wire_ok \<lparr>Term = 1, Msg = RegisterNode_message ''n1'' ''a1''\<rparr>"
    by (simp add: wire_ok_def RegisterNode_message_def command_message_def in_int32_def)
  have "chan_blind example_controllers" by (simp add: example_controllers_def controller_chan_blind)
  from put_run [OF ns _ _ _ _ m, of "\<lambda>_. example_controllers"] this elected_takes_office [OF ns, of "\<lambda>_. example_controllers"] show ?thesis by auto
qed


section \<open>A registration\<close>

lemma register_applied:
  assumes "m = (RegisterNode_message newNode address)\<lparr>ResponseChan := ch\<rparr>"
  shows "AppendMessage (controller_ops marshal unmarshal local) (k, c) m =
    ((Suc k, applyRegisterNode (fst (local k)) (snd (local k)) newNode address c), True, 0)"
  using assms by (simp add: controller_ops_def controller_append_def ControllerApp_AppendMessage_def RegisterNode_message_def
      command_message_def decode_register_def)

text \<open>C8: A registration reaches every controller: in a fresh cluster of controllers of any size from two on, one is elected and registers a data node by \<open>BroadcastSync\<close>. After one round of its replicators the
  call returns without an error, and after a second one every controller has the node in its topology, active and with its address, and has advanced its epoch by one.
  Each controller has its own clock.\<close>
theorem registration_reaches_all:
  fixes ns0 :: "int \<Rightarrow> (Command option, nat \<times> Controller) Raft"
  assumes "2 \<le> n" and "n < 2 ^ 31" and "0 \<le> l" and "l < n"
    and "ns0 = (\<lambda>j. initial_raft (0, NewController grace) j n threshold (NewRaftDataSaver None None None))"
    and "ops = (\<lambda>j. controller_ops marshal unmarshal (local j))"
  shows "\<exists>ns L ns1 ns2. hold_election n l ns0 = Some ns \<and>
    BroadcastSync_start (inMemPeers n) ch (ns l) (RegisterNode_message newNode address) = Some (L, Appended) \<and>
    replicate_all ops n l (others n l) (ns(l := L)) = Some ns1 \<and> RegisterNode (\<lambda>_. BroadcastSync_finish ch (ns1 l)) newNode address = None \<and>
    replicate_all ops n l (others n l) ns1 = Some ns2 \<and>
    (\<forall>j. 0 \<le> j \<and> j < n \<longrightarrow> (let cfg = c_config (snd (application (ns2 j)))
       in Nodes cfg newNode = Some \<lparr>node_ID = newNode, Address = address, node_Status = StatusActive, LastHeartbeat = snd (local j 0)\<rparr> \<and>
          Epoch cfg = Epoch (c_config (NewController grace)) + 1 \<and> Shards cfg = Shards (c_config (NewController grace))))"
proof -
  let ?a = "\<lambda>_ :: int. (0 :: nat, NewController grace)" and ?m = "(RegisterNode_message newNode address)\<lparr>ResponseChan := Some ch\<rparr>"
  have "fresh n j (?a j) (ns0 j)" if "0 \<le> j" "j < n" for j
    using that assms(5) by (simp add: fresh_def initial_raft_def member_def go_len_def newSnapshotter_def)
  from hold_election_elects [OF assms(1-4), of ?a ns0, OF this] obtain ns where ns: "hold_election n l ns0 = Some ns" "elected n l ?a ns" by blast
  have m: "wire_ok \<lparr>Term = 1, Msg = ?m\<rparr>" by (simp add: wire_ok_def RegisterNode_message_def command_message_def in_int32_def)
  have "chan_blind (ops j)" for j using assms(6) by (simp add: controller_chan_blind)
  from two_passes [OF ns(2) assms(1-4) m, of ops, OF this] obtain L ns1 ns2 where
    r: "Broadcast (inMemPeers n) (ns l) ?m = Some (L, Appended)"
      "replicate_all ops n l (others n l) (ns(l := L)) = Some ns1" "chans (ns1 l) = answers (ops l) (?a l) Map.empty [\<lparr>Term = 1, Msg = ?m\<rparr>]"
      "replicate_all ops n l (others n l) ns1 = Some ns2" "\<And>j. 0 \<le> j \<Longrightarrow> j < n \<Longrightarrow> application (ns2 j) = app_step (ops j) (?a j) ?m" by blast
  have "RegisterNode (\<lambda>_. BroadcastSync_finish ch (ns1 l)) newNode address = None"
    using r(3) assms(6) by (simp add: BroadcastSync_finish_def RegisterNode_def broadcast_error_def register_applied)
  moreover have "application (ns2 j) = (1, applyRegisterNode (fst (local j 0)) (snd (local j 0)) newNode address (NewController grace))" if "0 \<le> j" "j < n" for j
    using r(5) [OF that] assms(6) by (simp add: app_step_def register_applied)
  moreover have "Nodes (c_config (NewController grace)) newNode = None" by (simp add: NewController_def NewClusterConfig_def)
  ultimately show ?thesis using ns(1) r(1,2,4)
    by (intro exI [of _ ns] exI [of _ L] exI [of _ ns1] exI [of _ ns2]) (simp add: BroadcastSync_start_def applyRegisterNode_def Let_def)
qed

theorem registration_reaches_all_witness:
  "\<exists>ns L ns1 ns2. hold_election 3 0 (\<lambda>j. initial_raft (0, NewController 5) j 3 100 (NewRaftDataSaver None None None)) = Some ns \<and>
    BroadcastSync_start (inMemPeers 3) 7 (ns 0) (RegisterNode_message ''n1'' ''a1'') = Some (L, Appended) \<and>
    replicate_all (\<lambda>_. example_controllers) 3 0 (others 3 0) (ns(0 := L)) = Some ns1 \<and> RegisterNode (\<lambda>_. BroadcastSync_finish 7 (ns1 0)) ''n1'' ''a1'' = None \<and>
    replicate_all (\<lambda>_. example_controllers) 3 0 (others 3 0) ns1 = Some ns2 \<and>
    map_option Address (Nodes (c_config (snd (application (ns2 2)))) ''n1'') = Some ''a1''"
proof -
  from registration_reaches_all [of 3 0 _ 5 100 "\<lambda>_. example_controllers" "\<lambda>_. []" "\<lambda>_. NotConfig" "\<lambda>_. example_local" 7 "''n1''" "''a1''"]
  obtain ns L ns1 ns2 where r: "hold_election 3 0 (\<lambda>j. initial_raft (0, NewController 5) j 3 100 (NewRaftDataSaver None None None)) = Some ns"
    "BroadcastSync_start (inMemPeers 3) 7 (ns 0) (RegisterNode_message ''n1'' ''a1'') = Some (L, Appended)"
    "replicate_all (\<lambda>_. example_controllers) 3 0 (others 3 0) (ns(0 := L)) = Some ns1" "RegisterNode (\<lambda>_. BroadcastSync_finish 7 (ns1 0)) ''n1'' ''a1'' = None"
    "replicate_all (\<lambda>_. example_controllers) 3 0 (others 3 0) ns1 = Some ns2"
    "\<forall>j. 0 \<le> j \<and> j < 3 \<longrightarrow> map_option Address (Nodes (c_config (snd (application (ns2 j)))) ''n1'') = Some ''a1''"
    by (auto simp: example_controllers_def Let_def)
  then show ?thesis by (intro exI [of _ ns] exI [of _ L] exI [of _ ns1] exI [of _ ns2]) simp
qed

end
