(* ===== verification/Raft_Handlers.thy ===== *)
theory Raft_Handlers
  imports Raft_Machine
begin

text \<open>
  Type safety of a Raft node: a well-formed node that is called with well-formed arguments does not
  panic, whatever the call, and is well-formed afterwards.
\<close>

section \<open>Calls\<close>

text \<open>
  What can happen to a node from outside: the calls of the service, the replies its own calls get,
  the rounds of its replicators, its timers, and its clients. \<^term>\<open>None\<close> is a panic.
\<close>

datatype 'd node_call =
    ElectionTimer
  | VoteRequestCall VoteRequestArgs
  | VoteReply VoteResponse
  | LogRequestCall "'d LogRequestArgs"
  | ReplicateTo int
  | LogReply int LogResponse
  | LogFailed int
  | HeartbeatCall
  | ForwardCall bool "'d pb_Message"
  | BroadcastCall "'d Message"

fun handle_call :: "('d, 'a) Application \<Rightarrow> (int \<Rightarrow> bool) \<Rightarrow> (int \<Rightarrow> bool) \<Rightarrow> 'd node_call \<Rightarrow> ('d, 'a) Raft \<Rightarrow> ('d, 'a) Raft option" where
  "handle_call ops available peers ElectionTimer r = Some (fst (election_timeout r))"
| "handle_call ops available peers (VoteRequestCall args) r = Some (fst (VoteRequest r args))"
| "handle_call ops available peers (VoteReply vote) r = receiveVote r vote"
| "handle_call ops available peers (LogRequestCall args) r = map_option fst (LogRequest ops r args)"
| "handle_call ops available peers (ReplicateTo f) r = map_option (\<lambda>_. r) (replicate_start available peers f r)"
| "handle_call ops available peers (LogReply f resp) r = replicate_response ops f resp r"
| "handle_call ops available peers (LogFailed f) r = Some (replicate_failed f r)"
| "handle_call ops available peers HeartbeatCall r = Some (receiveHeartbeat r)"
| "handle_call ops available peers (ForwardCall hop msg) r = Some (fst (Forward peers hop r msg))"
| "handle_call ops available peers (BroadcastCall m) r = map_option fst (Broadcast peers r m)"

section \<open>Well-formed nodes and calls\<close>

definition known_type :: "'d LogEntry \<Rightarrow> bool" where
  "known_type e \<longleftrightarrow> toProtoMsgType (MsgType (Msg e)) \<noteq> None"

definition well_formed :: "('d, 'a) Application \<Rightarrow> 'a \<Rightarrow> ('d, 'a) Raft \<Rightarrow> bool" where
  "well_formed ops a r \<longleftrightarrow> member r \<and> (\<exists>full. rsm ops a full r \<and> (\<forall>e \<in> set full. known_type e))"

fun well_typed :: "('d, 'a) Raft \<Rightarrow> 'd node_call \<Rightarrow> bool" where
  "well_typed r (LogRequestCall args) \<longleftrightarrow>
     (\<exists>suf. mapM from_pb_entry (Suffix args) = Some suf \<and> keeps_committed r (PrefixLen args) suf \<and> (\<forall>e \<in> set suf. known_type e))"
| "well_typed r (ReplicateTo f) \<longleftrightarrow> 0 \<le> f \<and> f < totalNodes r"
| "well_typed r (LogReply f resp) \<longleftrightarrow> 0 \<le> f \<and> f < totalNodes r"
| "well_typed r (BroadcastCall m) \<longleftrightarrow> toProtoMsgType (MsgType m) \<noteq> None"
| "well_typed r _ \<longleftrightarrow> True"

lemma well_formed_idle: "well_formed ops a r \<Longrightarrow> data r' = data r \<and> tables r' = tables r \<Longrightarrow> well_formed ops a r'"
  using rsm_data [of r' r] member_tables [of r' r] by (auto simp: well_formed_def)

lemma full_append_set: "set (full_append li p suf full) \<subseteq> set full \<union> set suf"
  by (auto simp: full_append_def dest: in_set_takeD in_set_dropD)

lemma mapM_known: "\<forall>e \<in> set es. known_type e \<Longrightarrow> mapM to_pb_entry es \<noteq> None"
  by (induction es) (auto simp: known_type_def to_pb_entry_def to_pb_message_def)

section \<open>Progress and preservation\<close>

lemma replicate_start_total:
  assumes "well_formed ops a r" and "0 \<le> f" and "f < totalNodes r"
  shows "replicate_start available peers f r \<noteq> None"
proof -
  from assms(1) obtain full where full: "member r" "rsm ops a full r" "\<forall>e \<in> set full. known_type e" by (auto simp: well_formed_def)
  obtain nx where nx: "next_index r f = Some nx"
    using full(1) assms(2,3) by (simp add: next_index_def go_index_Some member_def)
  have "raft_log r = drop (nat (snap_index r)) full" using full(2) by (simp add: rsm_def)
  then have "\<exists>ps. mapM to_pb_entry (drop i (raft_log r)) = Some ps" for i
    using full(3) mapM_known [of "drop i (raft_log r)"] by (auto dest: in_set_dropD)
  then obtain ps where ps: "\<And>i. mapM to_pb_entry (drop i (raft_log r)) = Some (ps i)" by metis
  have "prepareLogRequestArgs r f \<noteq> None"
    using nx ps ps [of 0] by (auto simp: prepareLogRequestArgs_def Let_def go_slice_from_def go_len_def)
  then show ?thesis using nx by (auto simp: replicate_start_def)
qed

lemma LogRequest_well_formed:
  assumes "well_formed ops a r" and "mapM from_pb_entry (Suffix args) = Some suf" and "keeps_committed r (PrefixLen args) suf"
    and "\<forall>e \<in> set suf. known_type e"
  shows "\<exists>r' resp. LogRequest ops r args = Some (r', resp) \<and> well_formed ops a r'"
proof (cases "currentTerm r \<le> lr_Term args \<and> prefix_ok r (PrefixLen args) (PrefixTerm args)")
  case True
  from assms(1) obtain full where r: "member r" "rsm ops a full r" "\<forall>e \<in> set full. known_type e" by (auto simp: well_formed_def)
  from LogRequest_accept [OF r(2) assms(2) _ _ assms(3)] True obtain r' resp where
    r': "LogRequest ops r args = Some (r', resp)" "rsm ops a (full_append (snap_index r) (PrefixLen args) suf full) r'"
      "core r' = core (accept_leader r (LeaderId args) (lr_Term args))" by blast
  moreover have "\<forall>e \<in> set (full_append (snap_index r) (PrefixLen args) suf full). known_type e"
    using full_append_set [of "snap_index r" "PrefixLen args" suf full] r(3) assms(4) by blast
  ultimately show ?thesis using LogRequest_member [OF r'(3) r(1)] by (auto simp: well_formed_def)
next
  case False
  then show ?thesis using LogRequest_reject [OF assms(2), of r ops] well_formed_idle [OF assms(1)] by (auto simp: data_def tables_def)
qed

lemma Broadcast_well_formed:
  assumes "well_formed ops a r" and "\<And>t. known_type \<lparr>Term = t, Msg = m\<rparr>"
  shows "\<exists>r' act. Broadcast peers r m = Some (r', act) \<and> well_formed ops a r'"
proof (cases "currentRole r = Leader")
  case True
  from assms(1) obtain full where r: "member r" "rsm ops a full r" "\<forall>e \<in> set full. known_type e" by (auto simp: well_formed_def)
  from broadcast_append_rsm [OF r(2,1), of m] obtain r' where
    r': "broadcast_append r m = Some r'" "member r'" "rsm ops a (full @ [\<lparr>Term = currentTerm r, Msg = m\<rparr>]) r'" by blast
  then have "well_formed ops a r'" using r(3) assms(2) unfolding well_formed_def
    by (intro conjI exI [of _ "full @ [\<lparr>Term = currentTerm r, Msg = m\<rparr>]"]) simp_all
  then show ?thesis using True r'(1) by (simp add: Broadcast_def getLeaderData_def)
next
  case False
  then have "\<exists>r' act. Broadcast peers r m = Some (r', act) \<and> data r' = data r \<and> tables r' = tables r"
    by (auto simp: Broadcast_def getLeaderData_def data_def tables_def)
  then show ?thesis using well_formed_idle [OF assms(1)] by auto
qed


lemma example_well_formed: "well_formed example_ops newTestApp example_leader"
  using example_member example_rsm unfolding well_formed_def
  by (intro conjI exI [of _ "raft_log example_leader"]) (simp_all add: known_type_def toProtoMsgType_def example_defs)


section \<open>A message that cannot be sent\<close>

lemma mapM_None: "e \<in> set es \<Longrightarrow> f e = None \<Longrightarrow> mapM f es = None"
  by (induction es) (auto split: bind_split)

text \<open>C38: The known message types matter: a leader that receives a message with an unknown type over
  \<open>Forward\<close> appends it to its log, and the next round of a replicator panics while it converts the
  log for any follower that does not have the entry yet. One such message takes the leader down.\<close>
theorem unknown_type_crashes_leader:
  assumes "member r" and "currentRole r = Leader" and "0 \<le> f" and "f < totalNodes r" and "available f" and "getPeer peers f"
    and "snap_index r < sentLengths r ! nat f" and "sentLengths r ! nat f \<le> abs_len r + 1" and "0 \<le> snap_index r"
    and "toProtoMsgType (MsgType (from_pb_message msg)) = None"
  shows "\<exists>r'. Forward peers hop r msg = (r, ForwardLocal (from_pb_message msg)) \<and>
    Broadcast peers r (from_pb_message msg) = Some (r', Appended) \<and> replicate_start available peers f r' = None"
proof -
  let ?m = "from_pb_message msg" and ?s = "sentLengths r ! nat f"
  obtain r' where r': "broadcast_append r ?m = Some r'" "raft_log r' = raft_log r @ [\<lparr>Term = currentTerm r, Msg = ?m\<rparr>]"
    "snapshotter r' = snapshotter r" "currentRole r' = Leader" "sentLengths r' = sentLengths r"
    using assms(1,2) by (auto simp: broadcast_append_def go_store_def member_def Let_def)
  have nx: "next_index r' f = Some ?s" using r'(3,5) assms(1,3,4,7,9) by (simp add: next_index_def go_index_Some member_def)
  have "to_pb_entry \<lparr>Term = currentTerm r, Msg = ?m\<rparr> = None" using assms(10) by (simp add: to_pb_entry_def to_pb_message_def)
  then have "mapM to_pb_entry (drop i (raft_log r')) = None" if "i \<le> length (raft_log r)" for i
    using that r'(2) by (intro mapM_None [of "\<lparr>Term = currentTerm r, Msg = ?m\<rparr>"]) simp_all
  then have "prepareLogRequestArgs r' f = None"
    using nx r'(2,3) assms(7,8) by (auto simp: prepareLogRequestArgs_def Let_def go_slice_from_def go_len_def)
  then have "replicate_start available peers f r' = None"
    using nx r'(3,4) assms(5-7) by (simp add: replicate_start_def)
  with r'(1) assms(2) show ?thesis by (simp add: Broadcast_def Forward_def getLeaderData_def)
qed

definition example_odd :: "unit pb_Message" where
  "example_odd = \<lparr>pb_Type = 7, pb_Key = 1, pb_Value = None, pb_CommandPayload = (), pb_IdempotencyToken = [], pb_ClientId = []\<rparr>"

theorem unknown_type_crashes_leader_witness:
  "\<exists>r'. Broadcast (\<lambda>_. True) example_leader (from_pb_message example_odd) = Some (r', Appended) \<and>
    replicate_start (\<lambda>_. True) (\<lambda>_. True) 1 r' = None"
proof -
  have "itoa 7 = ''7''" by code_simp
  then have "toProtoMsgType (MsgType (from_pb_message example_odd)) = None"
    by (simp add: example_odd_def from_pb_message_def Message_Type_String_def Message_Type_name_def toProtoMsgType_def msg_type_defs)
  from unknown_type_crashes_leader [OF example_member _ _ _ _ _ _ _ _ this, of 1 "\<lambda>_. True" "\<lambda>_. True" False] show ?thesis
    by (auto simp: example_defs go_len_def getPeer_def)
qed

end
