(* ===== verification/Raft_Files.thy ===== *)
theory Raft_Files
  imports Raft_Persist
begin

text \<open>
  The files under \<open>persistance.go\<close>: a small file system with directories, in which opening a file can
  fail and a process can die between two operations. Where the directories exist, saving and loading do what the data saver of
  \<open>Raft_Persist\<close> does with its two files; where they do not, nothing is ever saved.
\<close>

section \<open>A file system\<close>

text \<open>
  A path is the list of its components from the working directory on, in clean form, so that
  \<open>filepath.Dir\<close> drops the last component and stays at the working directory. A log file holds the streams of its encoders;
  a metadata file holds a record unless it has only been created.
\<close>

type_synonym path = "string list"

datatype 'd content = Logs "'d LogEntry list list" | Meta "(int \<times> int \<times> int) option"

datatype 'd inode = Directory | RegularFile "'d content"

type_synonym 'd fs = "path \<rightharpoonup> 'd inode"

datatype fs_error = NotExist | NotDirectory | IsDirectory | DecodeError string

definition fs_message :: "fs_error \<Rightarrow> string" where
  "fs_message e = (case e of
     NotExist \<Rightarrow> ''open file'' | NotDirectory \<Rightarrow> ''not a directory'' | IsDirectory \<Rightarrow> ''is a directory'' | DecodeError msg \<Rightarrow> msg)"

definition filepath_Dir :: "path \<Rightarrow> path" where
  "filepath_Dir p = butlast p"

fun os_Stat_from :: "path \<Rightarrow> path \<Rightarrow> 'd fs \<Rightarrow> fs_error + 'd inode" where
  "os_Stat_from d [] fs = (case fs d of Some i \<Rightarrow> Inr i | None \<Rightarrow> Inl NotExist)"
| "os_Stat_from d (c # cs) fs =
     (case fs d of
        Some Directory \<Rightarrow> os_Stat_from (d @ [c]) cs fs
      | Some (RegularFile _) \<Rightarrow> Inl NotDirectory
      | None \<Rightarrow> Inl NotExist)"

definition os_Stat :: "path \<Rightarrow> 'd fs \<Rightarrow> fs_error + 'd inode" where
  "os_Stat p fs = os_Stat_from [] p fs"

fun os_MkdirAll_from :: "path \<Rightarrow> path \<Rightarrow> 'd fs \<Rightarrow> 'd fs \<times> fs_error option" where
  "os_MkdirAll_from d [] fs = (fs, None)"
| "os_MkdirAll_from d (c # cs) fs =
     (case fs (d @ [c]) of
        Some Directory \<Rightarrow> os_MkdirAll_from (d @ [c]) cs fs
      | Some (RegularFile _) \<Rightarrow> (fs, Some NotDirectory)
      | None \<Rightarrow> os_MkdirAll_from (d @ [c]) cs (fs(d @ [c] \<mapsto> Directory)))"

definition os_MkdirAll :: "path \<Rightarrow> 'd fs \<Rightarrow> 'd fs \<times> fs_error option" where
  "os_MkdirAll p fs = os_MkdirAll_from [] p fs"

text \<open>
  Opening for writing creates the file with the given content if it is missing; \<open>trunc\<close> also empties an
  existing one, as \<open>os.Create\<close> does.
\<close>

definition os_OpenFile :: "bool \<Rightarrow> 'd content \<Rightarrow> path \<Rightarrow> 'd fs \<Rightarrow> 'd fs \<times> fs_error option" where
  "os_OpenFile trunc new p fs =
     (case os_Stat (filepath_Dir p) fs of
        Inl e \<Rightarrow> (fs, Some e)
      | Inr (RegularFile _) \<Rightarrow> (fs, Some NotDirectory)
      | Inr Directory \<Rightarrow>
          (case fs p of
             None \<Rightarrow> (fs(p \<mapsto> RegularFile new), None)
           | Some Directory \<Rightarrow> (fs, Some IsDirectory)
           | Some (RegularFile _) \<Rightarrow> (if trunc then fs(p \<mapsto> RegularFile new) else fs, None)))"

section \<open>Saving\<close>

definition ensureDir :: "path \<Rightarrow> 'd fs \<Rightarrow> 'd fs \<times> fs_error option" where
  "ensureDir filename fs =
     (let dir = filepath_Dir filename
      in case os_Stat dir fs of
           Inr Directory \<Rightarrow> (fs, None)
         | Inr (RegularFile _) \<Rightarrow> (fs, Some NotDirectory)
         | Inl NotExist \<Rightarrow> os_MkdirAll dir fs
         | Inl e \<Rightarrow> (fs, Some e))"

definition handleFileExistanceAndCreation :: "path \<Rightarrow> 'd fs \<Rightarrow> 'd fs \<times> fs_error option" where
  "handleFileExistanceAndCreation p fs =
     (let dir = filepath_Dir p
      in case ensureDir dir fs of
           (fs, Some e) \<Rightarrow> (fs, Some e)
         | (fs, None) \<Rightarrow> os_OpenFile False (Logs []) p fs)"

definition write_metadata :: "path \<Rightarrow> int \<Rightarrow> int \<Rightarrow> int \<Rightarrow> 'd fs \<Rightarrow> 'd fs" where
  "write_metadata p term voted committed fs = fs(p \<mapsto> RegularFile (Meta (Some (term, voted, committed))))"

definition append_stream :: "path \<Rightarrow> 'd LogEntry list \<Rightarrow> 'd fs \<Rightarrow> 'd fs" where
  "append_stream p logs fs =
     (case fs p of
        Some (RegularFile (Logs streams)) \<Rightarrow> fs(p \<mapsto> RegularFile (Logs (saveLog logs (Some streams))))
      | _ \<Rightarrow> fs)"

text \<open>
  \<open>saveValuesManager\<close> makes four operations: it opens the log file, creates the metadata file, writes the metadata and appends the
  entries. \<open>save_files\<close> does the first \<open>ops\<close> of them, for a process that dies afterwards; with four the call returns.
\<close>

definition save_files :: "nat \<Rightarrow> path \<Rightarrow> path \<Rightarrow> int \<Rightarrow> int \<Rightarrow> int \<Rightarrow> 'd LogEntry list \<Rightarrow> 'd fs \<Rightarrow> 'd fs \<times> fs_error option" where
  "save_files ops logsFilename metadataFilename term voted committed logs fs =
     (if ops = 0 then (fs, None)
      else case handleFileExistanceAndCreation logsFilename fs of
        (fs, Some e) \<Rightarrow> (fs, Some e)
      | (fs, None) \<Rightarrow>
          if ops = 1 then (fs, None)
          else case os_OpenFile True (Meta None) metadataFilename fs of
             (fs, Some e) \<Rightarrow> (fs, Some e)
           | (fs, None) \<Rightarrow>
               let fs = (if ops = 2 then fs else write_metadata metadataFilename term voted committed fs)
               in (if ops \<le> 3 then fs else append_stream logsFilename logs fs, None))"

text \<open>One save by a worker: when it fails, the saved index stays where it was and the next save tries the same entries again.\<close>

definition doSaveValues_files :: "path \<Rightarrow> path \<Rightarrow> ('d, 'a) Raft \<times> 'd fs \<Rightarrow> (('d, 'a) Raft \<times> 'd fs) \<times> fs_error option" where
  "doSaveValues_files logsFilename metadataFilename x =
     (case x of (r, fs) \<Rightarrow>
        let rds = logSaver r;
            len = go_len (raft_log r);
            rds = (if previousSavedIndex rds > len then rds\<lparr>previousSavedIndex := len\<rparr> else rds);
            idx = previousSavedIndex rds
        in if idx = len then ((r\<lparr>logSaver := rds\<rparr>, fs), None)
           else
             let logCopy = take maxBatchSize (drop (nat idx) (raft_log r))
             in case save_files 4 logsFilename metadataFilename (currentTerm r) (votedFor r) (commitedLength r) logCopy fs of
                  (fs, Some e) \<Rightarrow> ((r\<lparr>logSaver := rds\<rparr>, fs), Some e)
                | (fs, None) \<Rightarrow>
                    let newIndex = idx + go_len logCopy;
                        newIndex = (if newIndex > len then len else newIndex);
                        rds = rds\<lparr>previousSavedIndex := newIndex\<rparr>;
                        rds = (if newIndex < len \<and> saveQueue rds < 1024
                               then rds\<lparr>saveQueue := saveQueue rds + 1, pendingSaves := pendingSaves rds + 1\<rparr> else rds)
                    in ((r\<lparr>logSaver := rds\<rparr>, fs), None))"

definition saveWorker_files :: "path \<Rightarrow> path \<Rightarrow> ('d, 'a) Raft \<times> 'd fs \<Rightarrow> ('d, 'a) Raft \<times> 'd fs" where
  "saveWorker_files logsFilename metadataFilename x =
     (case x of (r, fs) \<Rightarrow>
        if saveQueue (logSaver r) = 0 then (r, fs)
        else
          let r = r\<lparr>logSaver := (logSaver r)\<lparr>saveQueue := saveQueue (logSaver r) - 1\<rparr>\<rparr>
          in case doSaveValues_files logsFilename metadataFilename (r, fs) of ((r, fs), err) \<Rightarrow>
               (r\<lparr>logSaver := (logSaver r)\<lparr>lastSaveErr := map_option fs_message err, pendingSaves := pendingSaves (logSaver r) - 1\<rparr>\<rparr>, fs))"

text \<open>\<open>WaitForPendingSaves\<close> blocks, \<^term>\<open>None\<close>, until all requests are done, and then tells how the last save went.\<close>

definition WaitForPendingSaves :: "'d DataSaver \<Rightarrow> string option option" where
  "WaitForPendingSaves rds = (if pendingSaves rds = 0 then Some (lastSaveErr rds) else None)"

section \<open>Loading\<close>

definition openFileForReading :: "path \<Rightarrow> 'd fs \<Rightarrow> 'd fs \<times> (fs_error + 'd content)" where
  "openFileForReading p fs =
     (let dir = filepath_Dir p
      in case ensureDir dir fs of
           (fs, Some e) \<Rightarrow> (fs, Inl e)
         | (fs, None) \<Rightarrow>
             (fs, case os_Stat p fs of
                    Inl e \<Rightarrow> Inl e
                  | Inr Directory \<Rightarrow> Inl IsDirectory
                  | Inr (RegularFile content) \<Rightarrow> Inr content))"

definition loadMetadata :: "'d content \<Rightarrow> fs_error + int \<times> int \<times> int" where
  "loadMetadata content =
     (case content of Meta (Some meta) \<Rightarrow> Inr meta | _ \<Rightarrow> Inl (DecodeError ''decode metadata: EOF''))"

definition load_files :: "path \<Rightarrow> path \<Rightarrow> 'd DataSaver \<Rightarrow> 'd fs \<Rightarrow>
    'd fs \<times> 'd DataSaver \<times> (fs_error + int \<times> int \<times> int \<times> 'd LogEntry list)" where
  "load_files logsFilename metadataFilename rds fs =
     (case openFileForReading logsFilename fs of
        (fs, Inl e) \<Rightarrow> (fs, rds, Inl e)
      | (fs, Inr logFile) \<Rightarrow>
          (case openFileForReading metadataFilename fs of
             (fs, Inl e) \<Rightarrow> (fs, rds, Inl e)
           | (fs, Inr metaFile) \<Rightarrow>
               (case loadMetadata metaFile of
                  Inl e \<Rightarrow> (fs, rds, Inl e)
                | Inr (term, voted, committed) \<Rightarrow>
                    (case logFile of
                       Meta _ \<Rightarrow> (fs, rds, Inl (DecodeError ''decode log entry''))
                     | Logs streams \<Rightarrow>
                         (case loadLogs streams of
                            Inl e \<Rightarrow> (fs, rds, Inl (DecodeError e))
                          | Inr logs \<Rightarrow> (fs, rds\<lparr>previousSavedIndex := go_len logs\<rparr>, Inr (term, voted, committed, logs)))))))"

section \<open>A missing directory\<close>

lemma os_Stat_from_Inr: "os_Stat_from d cs fs = Inr i \<Longrightarrow> fs (d @ cs) = Some i"
  by (induction d cs fs rule: os_Stat_from.induct) (auto split: option.splits inode.splits)

lemma os_Stat_Inr: "os_Stat p fs = Inr i \<Longrightarrow> fs p = Some i"
  using os_Stat_from_Inr [of "[]"] by (auto simp: os_Stat_def)

lemma os_MkdirAll_from_frame:
  "os_MkdirAll_from d cs fs = (fs', e) \<Longrightarrow> length (d @ cs) < length q \<Longrightarrow> fs' q = fs q"
  by (induction d cs fs rule: os_MkdirAll_from.induct) (auto split: option.splits inode.splits)

lemma os_MkdirAll_frame: "os_MkdirAll p fs = (fs', e) \<Longrightarrow> length p < length q \<Longrightarrow> fs' q = fs q"
  using os_MkdirAll_from_frame [of "[]"] by (auto simp: os_MkdirAll_def)

lemma ensureDir_frame: "ensureDir p fs = (fs', e) \<Longrightarrow> p \<noteq> [] \<Longrightarrow> length p \<le> length q \<Longrightarrow> fs' q = fs q"
  using os_MkdirAll_frame [of "butlast p" fs fs' e q]
  by (cases p rule: rev_cases) (auto simp: ensureDir_def Let_def filepath_Dir_def split: sum.splits inode.splits fs_error.splits)

lemma ensureDir_root: "ensureDir [] fs = (fs', e) \<Longrightarrow> fs' = fs"
  by (auto simp: ensureDir_def Let_def filepath_Dir_def os_MkdirAll_def split: sum.splits inode.splits fs_error.splits)

lemma ensureDir_dir:
  assumes "ensureDir (filepath_Dir p) fs = (fs', e)"
  shows "fs' (filepath_Dir p) = fs (filepath_Dir p) \<and> fs' p = fs p"
proof (cases "filepath_Dir p = []")
  case True
  then show ?thesis using assms ensureDir_root [of fs fs' e] by simp
next
  case False
  then show ?thesis
    using ensureDir_frame [OF assms False, of p] ensureDir_frame [OF assms False, of "filepath_Dir p"] by (simp add: filepath_Dir_def)
qed

lemma os_Stat_from_snoc:
  "os_Stat_from d (cs @ [c]) fs = (case os_Stat_from d cs fs of
     Inr Directory \<Rightarrow> (case fs (d @ cs @ [c]) of Some i \<Rightarrow> Inr i | None \<Rightarrow> Inl NotExist)
   | Inr (RegularFile _) \<Rightarrow> Inl NotDirectory
   | Inl e \<Rightarrow> Inl e)"
  by (induction d cs fs rule: os_Stat_from.induct) (auto split: option.splits inode.splits)

lemma os_Stat_step:
  assumes "p \<noteq> []"
  shows "os_Stat p fs = (case os_Stat (filepath_Dir p) fs of
     Inr Directory \<Rightarrow> (case fs p of Some i \<Rightarrow> Inr i | None \<Rightarrow> Inl NotExist)
   | Inr (RegularFile _) \<Rightarrow> Inl NotDirectory
   | Inl e \<Rightarrow> Inl e)"
proof -
  obtain ys y where p: "p = ys @ [y]" using assms by (cases p rule: rev_cases) auto
  show ?thesis unfolding p by (simp add: os_Stat_def filepath_Dir_def os_Stat_from_snoc [of "[]", unfolded append_Nil])
qed

lemma handle_without_directory:
  assumes "fs (filepath_Dir p) = None"
  shows "\<exists>fs' e. handleFileExistanceAndCreation p fs = (fs', Some e) \<and> fs' (filepath_Dir p) = None \<and> fs' p = fs p"
proof -
  obtain fs' err where e: "ensureDir (filepath_Dir p) fs = (fs', err)" by fastforce
  have none: "fs' (filepath_Dir p) = None" "fs' p = fs p" using ensureDir_dir [OF e] assms by simp_all
  then have "\<exists>e. os_Stat (filepath_Dir p) fs' = Inl e" using os_Stat_Inr [of "filepath_Dir p" fs'] by (cases "os_Stat (filepath_Dir p) fs'") auto
  then show ?thesis using e none by (cases err) (auto simp: handleFileExistanceAndCreation_def os_OpenFile_def)
qed

lemma save_without_directory:
  assumes "fs (filepath_Dir p) = None"
  shows "\<exists>fs' e. save_files 4 p q term voted committed logs fs = (fs', Some e) \<and> fs' (filepath_Dir p) = None \<and> fs' p = fs p"
  using handle_without_directory [of fs p, OF assms] by (auto simp: save_files_def)

lemma worker_without_directory:
  assumes "fs (filepath_Dir p) = None"
  shows "snd (saveWorker_files p q (r, fs)) (filepath_Dir p) = None"
proof -
  obtain fs' e where s: "save_files 4 p q (currentTerm r) (votedFor r) (commitedLength r) logs fs = (fs' logs, Some (e logs))"
    "fs' logs (filepath_Dir p) = None" for logs
    using save_without_directory [of fs p q "currentTerm r" "votedFor r" "commitedLength r", OF assms] by metis
  then show ?thesis using assms by (simp add: saveWorker_files_def doSaveValues_files_def Let_def)
qed

text \<open>C39: If the directory of the log file does not exist, nothing is ever saved: \<open>ensureDir\<close>, which gets the directory and not the file,
  creates at most the directory above it. However often the workers save, whatever the node's state is each time, the directory is
  still missing, the next save of new entries reports an error and leaves the saved index alone, and a restart has nothing to load.\<close>
theorem missing_directory_saves_nothing:
  assumes "fs (filepath_Dir p) = None" and "fs' = fold (\<lambda>r fs. snd (saveWorker_files p q (r, fs))) rs fs"
    and "0 < saveQueue (logSaver r)" and "previousSavedIndex (logSaver r) < go_len (raft_log r)"
  shows "fs' (filepath_Dir p) = None \<and> lastSaveErr (logSaver (fst (saveWorker_files p q (r, fs')))) \<noteq> None \<and>
    previousSavedIndex (logSaver (fst (saveWorker_files p q (r, fs')))) = previousSavedIndex (logSaver r) \<and>
    isl (snd (snd (load_files p q rds fs')))"
proof -
  have "fold (\<lambda>r fs. snd (saveWorker_files p q (r, fs))) rs fs (filepath_Dir p) = None"
    using assms(1) by (induction rs arbitrary: fs) (simp_all add: worker_without_directory)
  then have none: "fs' (filepath_Dir p) = None" using assms(2) by simp
  obtain fs2 e where s: "save_files 4 p q (currentTerm r) (votedFor r) (commitedLength r) logs fs' = (fs2 logs, Some (e logs))" for logs
    using save_without_directory [of fs' p q "currentTerm r" "votedFor r" "commitedLength r", OF none] by metis
  have w: "saveWorker_files p q (r, fs') =
      (r\<lparr>logSaver := (logSaver r)\<lparr>saveQueue := saveQueue (logSaver r) - 1,
        lastSaveErr := Some (fs_message (e (take maxBatchSize (drop (nat (previousSavedIndex (logSaver r))) (raft_log r))))),
        pendingSaves := pendingSaves (logSaver r) - 1\<rparr>\<rparr>, fs2 (take maxBatchSize (drop (nat (previousSavedIndex (logSaver r))) (raft_log r))))"
    using assms(3,4) s by (simp add: saveWorker_files_def doSaveValues_files_def Let_def)
  obtain fs3 err where en: "ensureDir (filepath_Dir p) fs' = (fs3, err)" by fastforce
  have "fs3 (filepath_Dir p) = None" using ensureDir_dir [OF en] none by simp
  then have "os_Stat (filepath_Dir p) fs3 \<noteq> Inr i" for i using os_Stat_Inr [of "filepath_Dir p" fs3 i] by auto
  then obtain e3 where "os_Stat (filepath_Dir p) fs3 = Inl e3" by (cases "os_Stat (filepath_Dir p) fs3") auto
  then have "os_Stat p fs3 = Inl e3" by (cases "p = []") (simp_all add: os_Stat_step, simp add: filepath_Dir_def)
  then have "isl (snd (snd (load_files p q rds fs')))"
    using en by (cases err) (simp_all add: load_files_def openFileForReading_def)
  then show ?thesis using none by (simp add: w)
qed

definition example_disk :: "unit fs" where
  "example_disk = [[] \<mapsto> Directory, [''data''] \<mapsto> Directory]"

definition example_queued :: "(unit, testApp) Raft" where
  "example_queued = example_saved\<lparr>logSaver := (logSaver example_saved)\<lparr>saveQueue := 1, pendingSaves := 1\<rparr>\<rparr>"

theorem missing_directory_saves_nothing_witness:
  "let fs' = fold (\<lambda>r fs. snd (saveWorker_files [''new'', ''log''] [''new'', ''meta''] (r, fs))) [example_queued, example_queued] example_disk
   in fs' [''new''] = None \<and>
      lastSaveErr (logSaver (fst (saveWorker_files [''new'', ''log''] [''new'', ''meta''] (example_queued, fs')))) \<noteq> None"
  using missing_directory_saves_nothing [of example_disk "[''new'', ''log'']" _ "[''new'', ''meta'']" "[example_queued, example_queued]" example_queued]
  by (simp add: Let_def filepath_Dir_def example_disk_def example_queued_def example_saved_def example_defs)

section \<open>Existing directories\<close>

text \<open>What the two files hold, and when they are the files of a data saver.\<close>

definition with_files :: "path \<Rightarrow> path \<Rightarrow> 'd fs \<Rightarrow> 'd DataSaver \<Rightarrow> 'd DataSaver" where
  "with_files p q fs rds = rds
     \<lparr>logsFile := (case fs p of Some (RegularFile (Logs streams)) \<Rightarrow> Some streams | _ \<Rightarrow> None),
      metadataFile := (case fs q of Some (RegularFile (Meta meta)) \<Rightarrow> meta | _ \<Rightarrow> None)\<rparr>"

definition files_ok :: "path \<Rightarrow> path \<Rightarrow> 'd fs \<Rightarrow> bool" where
  "files_ok p q fs \<longleftrightarrow> p \<noteq> q \<and> p \<noteq> [] \<and> q \<noteq> [] \<and> os_Stat (filepath_Dir p) fs = Inr Directory \<and> os_Stat (filepath_Dir q) fs = Inr Directory \<and>
     (\<forall>i. fs p = Some i \<longrightarrow> (\<exists>streams. i = RegularFile (Logs streams))) \<and>
     (\<forall>i. fs q = Some i \<longrightarrow> (\<exists>meta. i = RegularFile (Meta (Some meta))))"

lemma with_files_simps [simp]:
  "previousSavedIndex (with_files p q fs rds) = previousSavedIndex rds" "saveQueue (with_files p q fs rds) = saveQueue rds"
  "pendingSaves (with_files p q fs rds) = pendingSaves rds" "lastSaveErr (with_files p q fs rds) = lastSaveErr rds"
  "with_files p q fs rds\<lparr>previousSavedIndex := i\<rparr> = with_files p q fs (rds\<lparr>previousSavedIndex := i\<rparr>)"
  "with_files p q fs rds\<lparr>saveQueue := k\<rparr> = with_files p q fs (rds\<lparr>saveQueue := k\<rparr>)"
  "with_files p q fs rds\<lparr>pendingSaves := n\<rparr> = with_files p q fs (rds\<lparr>pendingSaves := n\<rparr>)"
  "with_files p q fs rds\<lparr>lastSaveErr := e\<rparr> = with_files p q fs (rds\<lparr>lastSaveErr := e\<rparr>)"
  by (simp_all add: with_files_def)

lemma os_Stat_update:
  assumes "os_Stat q fs = Inr Directory" and "fs p \<noteq> Some Directory"
  shows "os_Stat q (fs(p \<mapsto> i)) = Inr Directory"
proof -
  have "os_Stat_from d cs fs = Inr Directory \<Longrightarrow> fs p \<noteq> Some Directory \<Longrightarrow> os_Stat_from d cs (fs(p \<mapsto> i)) = Inr Directory" for d cs
    by (induction d cs fs rule: os_Stat_from.induct) (auto split: option.splits inode.splits)
  with assms show ?thesis by (simp add: os_Stat_def)
qed

lemma ensureDir_existing: "os_Stat d fs = Inr Directory \<Longrightarrow> ensureDir d fs = (fs, None)"
  using os_Stat_step [of d fs]
  by (cases "d = []") (auto simp: ensureDir_def filepath_Dir_def Let_def split: sum.splits inode.splits)

lemma save_existing:
  assumes "files_ok p q fs"
  shows "\<exists>fs'. save_files 4 p q term voted committed logs fs = (fs', None) \<and> files_ok p q fs' \<and>
    with_files p q fs' rds = saveValuesManager term voted committed logs (with_files p q fs rds)"
proof -
  let ?old = "case fs p of Some (RegularFile (Logs streams)) \<Rightarrow> streams | _ \<Rightarrow> []"
  let ?fs = "fs(p \<mapsto> RegularFile (Logs (saveLog logs (Some ?old))), q \<mapsto> RegularFile (Meta (Some (term, voted, committed))))"
  have ok: "p \<noteq> q" "p \<noteq> []" "q \<noteq> []" "os_Stat (filepath_Dir p) fs = Inr Directory" "os_Stat (filepath_Dir q) fs = Inr Directory"
    "fs p \<noteq> Some Directory" "fs q \<noteq> Some Directory" using assms by (auto simp: files_ok_def)
  have h: "handleFileExistanceAndCreation p fs = (fs(p \<mapsto> RegularFile (Logs ?old)), None)"
    using assms ok(4) by (cases "fs p")
      (auto simp: handleFileExistanceAndCreation_def ensureDir_existing os_OpenFile_def files_ok_def fun_upd_idem)
  have "os_Stat (filepath_Dir q) (fs(p \<mapsto> RegularFile (Logs ?old))) = Inr Directory" by (rule os_Stat_update [OF ok(5,6)])
  then have "os_OpenFile True (Meta None) q (fs(p \<mapsto> RegularFile (Logs ?old))) = (fs(p \<mapsto> RegularFile (Logs ?old), q \<mapsto> RegularFile (Meta None)), None)"
    using ok(1,7) by (auto simp: os_OpenFile_def split: option.splits inode.splits)
  then have save: "save_files 4 p q term voted committed logs fs = (?fs, None)"
    using h ok(1) by (simp add: save_files_def write_metadata_def append_stream_def fun_upd_twist)
  have dirs: "os_Stat d ?fs = Inr Directory" if "os_Stat d fs = Inr Directory" for d
  proof (rule os_Stat_update)
    show "os_Stat d (fs(p \<mapsto> RegularFile (Logs (saveLog logs (Some ?old))))) = Inr Directory" by (rule os_Stat_update [OF that ok(6)])
  qed (use ok(1,7) in simp)
  have "files_ok p q ?fs" using ok(1-3) dirs [OF ok(4)] dirs [OF ok(5)] by (simp add: files_ok_def)
  moreover have "saveLog logs (Some ?old) = saveLog logs (logsFile (with_files p q fs rds))"
    by (simp add: with_files_def saveLog_def split: option.split inode.split content.split)
  ultimately show ?thesis using save ok(1) by (simp add: with_files_def saveValuesManager_def saveMetadata_def)
qed

lemma open_existing:
  assumes "p \<noteq> []" and "os_Stat (filepath_Dir p) fs = Inr Directory"
  shows "openFileForReading p fs = (fs, case fs p of None \<Rightarrow> Inl NotExist | Some Directory \<Rightarrow> Inl IsDirectory | Some (RegularFile c) \<Rightarrow> Inr c)"
  using assms by (simp add: openFileForReading_def Let_def ensureDir_existing os_Stat_step split: option.split)

lemma load_existing:
  assumes "files_ok p q fs"
  shows "\<exists>rds' res. load_files p q rds fs = (fs, rds', res) \<and>
    LoadValues (with_files p q fs rds) = (with_files p q fs rds', map_sum fs_message id res)"
proof -
  have ok: "p \<noteq> []" "q \<noteq> []" "os_Stat (filepath_Dir p) fs = Inr Directory" "os_Stat (filepath_Dir q) fs = Inr Directory"
    "\<And>i. fs p = Some i \<Longrightarrow> \<exists>streams. i = RegularFile (Logs streams)" "\<And>i. fs q = Some i \<Longrightarrow> \<exists>meta. i = RegularFile (Meta (Some meta))"
    using assms by (auto simp: files_ok_def)
  consider "fs p = None" | s where "fs p = Some (RegularFile (Logs s))" "fs q = None"
    | s t v c where "fs p = Some (RegularFile (Logs s))" "fs q = Some (RegularFile (Meta (Some (t, v, c))))"
    using ok(5,6) by (cases "fs p"; cases "fs q") fastforce+
  then show ?thesis
  proof cases
    case 3
    then show ?thesis using open_existing [OF ok(1,3)] open_existing [OF ok(2,4)]
      by (cases "loadLogs s") (simp_all add: load_files_def LoadValues_def loadMetadata_def with_files_def fs_message_def)
  qed (simp_all add: load_files_def LoadValues_def with_files_def fs_message_def open_existing [OF ok(1,3)] open_existing [OF ok(2,4)])
qed

lemma doSave_existing:
  assumes "files_ok p q fs"
  shows "\<exists>r' fs'. doSaveValues_files p q (r, fs) = ((r', fs'), None) \<and> files_ok p q fs' \<and>
    r'\<lparr>logSaver := with_files p q fs' (logSaver r')\<rparr> = doSaveValues (r\<lparr>logSaver := with_files p q fs (logSaver r)\<rparr>)"
proof (cases "previousSavedIndex (logSaver r) < go_len (raft_log r)")
  case False
  then show ?thesis using assms by (simp add: doSaveValues_files_def doSaveValues_def Let_def)
next
  case True
  let ?logs = "take maxBatchSize (drop (nat (previousSavedIndex (logSaver r))) (raft_log r))"
  obtain fs' where s: "save_files 4 p q (currentTerm r) (votedFor r) (commitedLength r) ?logs fs = (fs', None)" "files_ok p q fs'"
    "saveValuesManager (currentTerm r) (votedFor r) (commitedLength r) ?logs (with_files p q fs (logSaver r)) = with_files p q fs' (logSaver r)"
    using save_existing [OF assms, of "currentTerm r" "votedFor r" "commitedLength r" ?logs "logSaver r"] by auto
  with True show ?thesis by (simp add: doSaveValues_files_def doSaveValues_def Let_def)
qed


lemma example_disk_ok: "files_ok [''data'', ''log''] [''data'', ''meta''] example_disk"
  by (simp add: files_ok_def example_disk_def os_Stat_def filepath_Dir_def)


section \<open>Dying during a save\<close>



end
