(* ===== verification/Raft_Stability.thy ===== *)
theory Raft_Stability
  imports Raft_Timer
begin

text \<open>
  The heartbeat loop of a leader (\<open>heartbeat.go\<close>), the network and the election timers of its followers
  together, over time: a leader whose heartbeats arrive in time is not challenged.
\<close>

section \<open>The heartbeat loop\<close>

text \<open>The timer of the loop by its deadline. Nothing is ever sent on \<open>resetTimerCh\<close> of this loop.\<close>

record raft_Heartbeat =
  hb_timeout :: duration
  hb_deadline :: go_time

definition newHeartbeat :: "go_time \<Rightarrow> raft_Heartbeat" where
  "newHeartbeat now = \<lparr>hb_timeout = heartbeat_interval, hb_deadline = now + heartbeat_interval\<rparr>"

datatype heartbeat_event = HbReset | HbTimer | HbCancel

text \<open>One turn of the loop: the timer, or \<^term>\<open>None\<close> when the loop has returned, and the nodes that get a heartbeat.\<close>

definition heartbeatLoop :: "(int \<Rightarrow> bool) \<Rightarrow> ('d, 'a) Raft \<Rightarrow> go_time \<Rightarrow> heartbeat_event \<Rightarrow> raft_Heartbeat \<Rightarrow> raft_Heartbeat option \<times> int list" where
  "heartbeatLoop peers r now ev h =
     (case ev of
        HbReset \<Rightarrow> (Some (h\<lparr>hb_deadline := now + hb_timeout h\<rparr>), [])
      | HbTimer \<Rightarrow> (Some (h\<lparr>hb_deadline := now + hb_timeout h\<rparr>), heartbeat_tick peers r)
      | HbCancel \<Rightarrow> (None, []))"

section \<open>A leader and its followers\<close>

text \<open>
  A heartbeat on its way is the follower it goes to and the time it was sent. The network delivers it within
  \<open>latency\<close>; the goroutines of the timer loops run within \<open>delay\<close> after they can.
\<close>

record ('d, 'a) TimedCluster =
  tc_now :: go_time
  tc_leader :: "('d, 'a) Raft"
  tc_heartbeat :: raft_Heartbeat
  tc_flight :: "(int \<times> go_time) set"
  tc_follower :: "int \<Rightarrow> ('d, 'a) HeardNode"

text \<open>A follower hears a heartbeat; \<open>heard\<close> and \<open>waiting\<close> only record when.\<close>

definition get_heartbeat :: "('d, 'a) HeardNode \<Rightarrow> ('d, 'a) HeardNode" where
  "get_heartbeat n = (hear n)\<lparr>heard := tn_now n, waiting := (if resetTimerCh (tn_raft n) then waiting n else tn_now n)\<rparr>"

inductive timed_step :: "(int \<Rightarrow> bool) \<Rightarrow> int set \<Rightarrow> duration \<Rightarrow> duration \<Rightarrow> ('d, 'a) TimedCluster \<Rightarrow> ('d, 'a) TimedCluster \<Rightarrow> bool"
  for peers fs latency delay where
  ts_heartbeat: "hb_deadline (tc_heartbeat c) \<le> tc_now c \<Longrightarrow>
    heartbeatLoop peers (tc_leader c) (tc_now c) HbTimer (tc_heartbeat c) = (Some h, targets) \<Longrightarrow>
    timed_step peers fs latency delay c (c\<lparr>tc_heartbeat := h, tc_flight := tc_flight c \<union> (\<lambda>f. (f, tc_now c)) ` set targets\<rparr>)"
| ts_deliver: "(f, sent) \<in> tc_flight c \<Longrightarrow>
    timed_step peers fs latency delay c (c\<lparr>tc_flight := tc_flight c - {(f, sent)},
      tc_follower := (tc_follower c)(f := get_heartbeat (tc_follower c f))\<rparr>)"
| ts_reset: "resetTimerCh (tn_raft (tc_follower c f)) \<Longrightarrow>
    timed_step peers fs latency delay c (c\<lparr>tc_follower := (tc_follower c)(f := elector_reset draw (tc_follower c f))\<rparr>)"
| ts_fire: "tn_fired (tc_follower c f) \<Longrightarrow>
    timed_step peers fs latency delay c (c\<lparr>tc_follower := (tc_follower c)(f := elector_fire draw (tc_follower c f))\<rparr>)"
| ts_pass: "0 \<le> d \<Longrightarrow> tc_now c + d \<le> hb_deadline (tc_heartbeat c) + delay \<Longrightarrow>
    (\<And>f sent. (f, sent) \<in> tc_flight c \<Longrightarrow> tc_now c + d \<le> sent + latency) \<Longrightarrow>
    (\<And>f. f \<in> fs \<Longrightarrow> resetTimerCh (tn_raft (tc_follower c f)) \<Longrightarrow> tc_now c + d \<le> waiting (tc_follower c f) + delay) \<Longrightarrow>
    timed_step peers fs latency delay c (c\<lparr>tc_now := tc_now c + d, tc_follower := (\<lambda>f. pass d (tc_follower c f))\<rparr>)"

text \<open>The longest time between two heartbeats that a follower hears.\<close>

abbreviation longest_gap :: "duration \<Rightarrow> duration \<Rightarrow> duration" where
  "longest_gap latency delay \<equiv> heartbeat_interval + delay + latency"

text \<open>
  Every follower is quiet, and the next heartbeat it will hear is on its way, sent in time, or the
  leader's timer will send it in time.
\<close>

definition attended :: "duration \<Rightarrow> duration \<Rightarrow> ('d, 'a) TimedCluster \<Rightarrow> ('d, 'a) Raft \<Rightarrow> int \<Rightarrow> bool" where
  "attended latency delay c r f \<longleftrightarrow>
     (let n = tc_follower c f
      in quiet (longest_gap latency delay) delay r n \<and> tn_now n = tc_now c \<and>
         (hb_deadline (tc_heartbeat c) \<le> heard n + heartbeat_interval \<or>
          (\<exists>sent. (f, sent) \<in> tc_flight c \<and> sent \<le> heard n + heartbeat_interval + delay)))"

definition led :: "(int \<Rightarrow> bool) \<Rightarrow> int set \<Rightarrow> duration \<Rightarrow> duration \<Rightarrow> ('d, 'a) Raft \<Rightarrow> (int \<Rightarrow> ('d, 'a) Raft) \<Rightarrow> ('d, 'a) TimedCluster \<Rightarrow> bool" where
  "led peers fs latency delay l r c \<longleftrightarrow> tc_leader c = l \<and> currentRole l = Leader \<and> fs \<subseteq> set (heartbeat_targets peers l) \<and>
     hb_timeout (tc_heartbeat c) = heartbeat_interval \<and> hb_deadline (tc_heartbeat c) \<le> tc_now c + heartbeat_interval \<and>
     tc_now c \<le> hb_deadline (tc_heartbeat c) + delay \<and>
     0 \<le> latency \<and> 0 \<le> delay \<and> longest_gap latency delay + delay < minElectionTimeout \<and>
     (\<forall>f \<in> fs. attended latency delay c (r f) f)"

lemma ledD:
  assumes "led peers fs latency delay l r c"
  shows "tc_leader c = l" "currentRole l = Leader" "fs \<subseteq> set (heartbeat_targets peers l)" "hb_timeout (tc_heartbeat c) = heartbeat_interval"
    "hb_deadline (tc_heartbeat c) \<le> tc_now c + heartbeat_interval" "tc_now c \<le> hb_deadline (tc_heartbeat c) + delay"
    "\<And>f. f \<in> fs \<Longrightarrow> attended latency delay c (r f) f"
    "0 \<le> longest_gap latency delay" "0 \<le> delay" "longest_gap latency delay + delay < minElectionTimeout"
  using assms by (simp_all add: led_def heartbeat_interval_def)

lemma led_intro:
  assumes "led peers fs latency delay l r c" and "tc_leader c' = tc_leader c" and "hb_timeout (tc_heartbeat c') = heartbeat_interval"
    and "hb_deadline (tc_heartbeat c') \<le> tc_now c' + heartbeat_interval" and "tc_now c' \<le> hb_deadline (tc_heartbeat c') + delay"
    and "\<And>f. f \<in> fs \<Longrightarrow> attended latency delay c' (r f) f"
  shows "led peers fs latency delay l r c'"
  using assms by (simp add: led_def)

text \<open>A follower stays attended when nothing happens to it and no heartbeat to it is lost.\<close>

lemma attended_idle:
  assumes "attended latency delay c r f" and "tc_follower c' f = tc_follower c f" and "tc_now c' = tc_now c" and "tc_heartbeat c' = tc_heartbeat c"
    and "\<And>sent. (f, sent) \<in> tc_flight c \<Longrightarrow> (f, sent) \<in> tc_flight c'"
  shows "attended latency delay c' r f"
  using assms by (auto simp: attended_def Let_def)

lemma attended_heartbeat:
  assumes "attended latency delay c r f" and "tc_now c \<le> hb_deadline (tc_heartbeat c) + delay" and "f \<in> set targets"
  shows "attended latency delay (c\<lparr>tc_heartbeat := h, tc_flight := tc_flight c \<union> (\<lambda>f. (f, tc_now c)) ` set targets\<rparr>) r f"
proof (cases "hb_deadline (tc_heartbeat c) \<le> heard (tc_follower c f) + heartbeat_interval")
  case True
  with assms(2) have "tc_now c \<le> heard (tc_follower c f) + heartbeat_interval + delay" by simp
  then show ?thesis using assms(1,3) by (auto simp: attended_def Let_def)
qed (use assms(1) in \<open>auto simp: attended_def Let_def\<close>)

lemma led_heartbeat:
  assumes "led peers fs latency delay l r c" and "hb_deadline (tc_heartbeat c) \<le> tc_now c"
    and "heartbeatLoop peers (tc_leader c) (tc_now c) HbTimer (tc_heartbeat c) = (Some h, targets)"
  shows "led peers fs latency delay l r (c\<lparr>tc_heartbeat := h, tc_flight := tc_flight c \<union> (\<lambda>f. (f, tc_now c)) ` set targets\<rparr>)"
proof -
  note led = ledD [OF assms(1)]
  have h: "hb_timeout h = heartbeat_interval" "hb_deadline h = tc_now c + heartbeat_interval" "targets = heartbeat_targets peers l"
    using assms(3) led(1,2,4) by (auto simp: heartbeatLoop_def heartbeat_tick_def)
  show ?thesis
  proof (rule led_intro [OF assms(1)])
    fix f assume f: "f \<in> fs"
    show "attended latency delay (c\<lparr>tc_heartbeat := h, tc_flight := tc_flight c \<union> (\<lambda>f. (f, tc_now c)) ` set targets\<rparr>) (r f) f"
      using led(3) h(3) f by (intro attended_heartbeat led(6,7)) auto
  qed (use h(1,2) led(9) in \<open>simp_all add: heartbeat_interval_def\<close>)
qed

lemma quiet_led:
  assumes "led peers fs latency delay l r c" and "f \<in> fs" and "follower_step (longest_gap latency delay) delay (tc_follower c f) n"
  shows "quiet (longest_gap latency delay) delay (r f) n"
  using quiet_step [OF assms(3) _ ledD(8-10) [OF assms(1)]] ledD(7) [OF assms(1,2)] by (simp add: attended_def Let_def)

lemma led_deliver:
  assumes "led peers fs latency delay l r c"
  shows "led peers fs latency delay l r (c\<lparr>tc_flight := tc_flight c - {(f, sent)},
    tc_follower := (tc_follower c)(f := get_heartbeat (tc_follower c f))\<rparr>)"
    (is "led _ _ _ _ _ _ ?c")
proof (rule led_intro [OF assms])
  fix g assume g: "g \<in> fs"
  have a: "attended latency delay c (r g) g" by (rule ledD(7) [OF assms g])
  show "attended latency delay ?c (r g) g"
  proof (cases "g = f")
    case True
    then have f: "f \<in> fs" using g by simp
    have "quiet (longest_gap latency delay) delay (r f) (tc_follower ?c f)"
      using quiet_led [OF assms f fs_hear] by (simp add: get_heartbeat_def)
    then show ?thesis using a True ledD(5) [OF assms] by (simp add: attended_def Let_def get_heartbeat_def hear_def)
  qed (rule attended_idle [OF a], auto)
qed (use ledD(4-6) [OF assms] in simp_all)

lemma led_local:
  assumes "led peers fs latency delay l r c" and "f \<in> fs \<Longrightarrow> follower_step (longest_gap latency delay) delay (tc_follower c f) n"
    and "tn_now n = tn_now (tc_follower c f)" and "heard n = heard (tc_follower c f)"
  shows "led peers fs latency delay l r (c\<lparr>tc_follower := (tc_follower c)(f := n)\<rparr>)" (is "led _ _ _ _ _ _ ?c")
proof (rule led_intro [OF assms(1)])
  fix g assume g: "g \<in> fs"
  have a: "attended latency delay c (r g) g" by (rule ledD(7) [OF assms(1) g])
  show "attended latency delay ?c (r g) g"
  proof (cases "g = f")
    case True
    then show ?thesis using a quiet_led [OF assms(1), of f n] assms(2-4) g by (simp add: attended_def Let_def)
  qed (rule attended_idle [OF a], auto)
qed (use ledD(4-6) [OF assms(1)] in simp_all)

lemma led_pass:
  assumes "led peers fs latency delay l r c" and "0 \<le> d" and "tc_now c + d \<le> hb_deadline (tc_heartbeat c) + delay"
    and "\<And>f sent. (f, sent) \<in> tc_flight c \<Longrightarrow> tc_now c + d \<le> sent + latency"
    and "\<And>f. f \<in> fs \<Longrightarrow> resetTimerCh (tn_raft (tc_follower c f)) \<Longrightarrow> tc_now c + d \<le> waiting (tc_follower c f) + delay"
  shows "led peers fs latency delay l r (c\<lparr>tc_now := tc_now c + d, tc_follower := (\<lambda>f. pass d (tc_follower c f))\<rparr>)" (is "led _ _ _ _ _ _ ?c")
proof (rule led_intro [OF assms(1)])
  fix f assume f: "f \<in> fs"
  let ?n = "tc_follower c f"
  have a: "attended latency delay c (r f) f" by (rule ledD(7) [OF assms(1) f])
  have "tc_now c + d \<le> heard ?n + longest_gap latency delay"
  proof (cases "hb_deadline (tc_heartbeat c) \<le> heard ?n + heartbeat_interval")
    case True
    then show ?thesis using assms(1,3) by (simp add: led_def)
  next
    case False
    with a obtain sent where "(f, sent) \<in> tc_flight c" "sent \<le> heard ?n + heartbeat_interval + delay"
      by (auto simp: attended_def Let_def)
    with assms(4) [of f sent] show ?thesis by simp
  qed
  then have "follower_step (longest_gap latency delay) delay ?n (pass d ?n)"
    using a assms(2,5) f by (intro fs_pass) (simp_all add: attended_def Let_def)
  from quiet_led [OF assms(1) f this] a show "attended latency delay ?c (r f) f" by (simp add: attended_def Let_def pass_def)
qed (use ledD(4-6) [OF assms(1)] assms(2,3) in simp_all)

lemma led_step:
  assumes "timed_step peers fs latency delay c c'" and "led peers fs latency delay l r c"
  shows "led peers fs latency delay l r c'"
  using assms(1)
proof cases
  case ts_heartbeat
  then show ?thesis using led_heartbeat [OF assms(2)] by simp
next
  case ts_deliver
  then show ?thesis using led_deliver [OF assms(2)] by simp
next
  case (ts_reset f draw)
  then show ?thesis using led_local [OF assms(2) fs_reset] by (simp add: elector_reset_def)
next
  case (ts_fire f draw)
  then show ?thesis using led_local [OF assms(2) fs_fire] by (simp add: elector_fire_def)
next
  case (ts_pass d)
  then show ?thesis using led_pass [OF assms(2), of d] by blast
qed

interpretation leadership: step_invariant "timed_step peers fs latency delay" "led peers fs latency delay l r" for peers fs latency delay l r
  by unfold_locales (rule led_step)

text \<open>A cluster in which a leader's heartbeat loop has run for less than an interval and every follower has just heard from it.\<close>

definition timed_cluster :: "go_time \<Rightarrow> go_time \<Rightarrow> ('d, 'a) Raft \<Rightarrow> (int \<Rightarrow> ('d, 'a) Raft) \<Rightarrow> (int \<Rightarrow> nat) \<Rightarrow> ('d, 'a) TimedCluster" where
  "timed_cluster now since l r draw =
     \<lparr>tc_now = now, tc_leader = l, tc_heartbeat = newHeartbeat since, tc_flight = {},
      tc_follower = (\<lambda>f. \<lparr>tn_raft = r f, tn_now = now, tn_deadline = now + nextTimeout (draw f), tn_fired = False, heard = now, waiting = now\<rparr>)\<rparr>"

text \<open>C17: A leader whose heartbeats arrive in time is not challenged: when the network takes at most \<open>latency\<close> for a heartbeat and each timer loop runs at most \<open>delay\<close> late, and
  \<open>latency\<close> and two delays fit between the heartbeat interval of 100 ms and the smallest election timeout of 400 ms, then over any interleaving of the leader's heartbeat loop, the network and the followers' timer
  loops no election timer fires: the leader and, apart from the token for their loops, all followers stay as they are, whatever the random timeouts.\<close>
theorem heartbeats_keep_leader:
  assumes "run (timed_step peers fs latency delay) (timed_cluster now since l r draw) c"
    and "currentRole l = Leader" and "fs \<subseteq> set (heartbeat_targets peers l)" and "since \<le> now" and "now \<le> since + heartbeat_interval"
    and "0 \<le> latency" and "0 \<le> delay" and "heartbeat_interval + latency + 2 * delay < minElectionTimeout"
  shows "tc_leader c = l \<and> (\<forall>f \<in> fs. \<not> tn_fired (tc_follower c f) \<and>
    (tn_raft (tc_follower c f))\<lparr>resetTimerCh := False\<rparr> = (r f)\<lparr>resetTimerCh := False\<rparr>)"
proof -
  have "attended latency delay (timed_cluster now since l r draw) (r f) f" for f
    using assms(4-7) nextTimeout_bounds [of "draw f"]
    by (auto simp: attended_def timed_cluster_def newHeartbeat_def quiet_def heartbeat_interval_def intro!: exI [of _ now])
  then have "led peers fs latency delay l r (timed_cluster now since l r draw)"
    using assms(2-8) by (simp add: led_def timed_cluster_def newHeartbeat_def)
  from leadership.run_inv [OF assms(1) this] show ?thesis by (auto simp: led_def attended_def Let_def quiet_def)
qed

text \<open>In a cluster of three, a heartbeat reaches one follower after 20 ms.\<close>

theorem heartbeats_keep_leader_witness:
  "\<exists>c. run (timed_step (\<lambda>_. True) {1, 2} 50000000 10000000)
      (timed_cluster 0 0 (sample_follower\<lparr>currentRole := Leader, raft_id := 0\<rparr>) (\<lambda>_. sample_follower) (\<lambda>_. 5)) c \<and>
    tc_now c = 120000000 \<and> resetTimerCh (tn_raft (tc_follower c 1)) \<and> \<not> tn_fired (tc_follower c 1) \<and> \<not> tn_fired (tc_follower c 2)"
proof -
  let ?step = "timed_step (\<lambda>_. True) {1, 2} 50000000 10000000" and ?l = "sample_follower\<lparr>currentRole := Leader, raft_id := 0\<rparr>"
  let ?c0 = "timed_cluster 0 0 ?l (\<lambda>_. sample_follower) (\<lambda>_. 5)"
  let ?c1 = "?c0\<lparr>tc_now := tc_now ?c0 + 100000000, tc_follower := (\<lambda>f. pass 100000000 (tc_follower ?c0 f))\<rparr>"
  let ?h = "(tc_heartbeat ?c1)\<lparr>hb_deadline := tc_now ?c1 + hb_timeout (tc_heartbeat ?c1)\<rparr>"
  let ?c2 = "?c1\<lparr>tc_heartbeat := ?h, tc_flight := tc_flight ?c1 \<union> (\<lambda>f. (f, tc_now ?c1)) ` set (heartbeat_targets (\<lambda>_. True) ?l)\<rparr>"
  let ?c3 = "?c2\<lparr>tc_now := tc_now ?c2 + 20000000, tc_follower := (\<lambda>f. pass 20000000 (tc_follower ?c2 f))\<rparr>"
  let ?c4 = "?c3\<lparr>tc_flight := tc_flight ?c3 - {(1, 100000000)},
    tc_follower := (tc_follower ?c3)(1 := get_heartbeat (tc_follower ?c3 1))\<rparr>"
  note sample = timed_cluster_def newHeartbeat_def heartbeat_interval_def sample_follower_def initial_raft_def
  have targets: "set (heartbeat_targets (\<lambda>_. True) ?l) = {1, 2}" by (auto simp: heartbeat_targets_def getPeer_def sample)
  have "?step ?c0 ?c1" by (rule ts_pass) (simp_all add: sample)
  moreover have "?step ?c1 ?c2" by (rule ts_heartbeat) (simp_all add: sample heartbeatLoop_def heartbeat_tick_def)
  moreover have "?step ?c2 ?c3" by (rule ts_pass) (auto simp: sample pass_def targets [unfolded sample])
  moreover have "?step ?c3 ?c4" by (rule ts_deliver) (simp add: targets, simp add: sample)
  ultimately have run: "run ?step ?c0 ?c4" by (meson run_refl run_step)
  have "tc_leader ?c4 = ?l \<and> (\<forall>f \<in> {1, 2}. \<not> tn_fired (tc_follower ?c4 f) \<and>
      (tn_raft (tc_follower ?c4 f))\<lparr>resetTimerCh := False\<rparr> = sample_follower\<lparr>resetTimerCh := False\<rparr>)"
    using heartbeats_keep_leader [OF run] targets by (simp add: heartbeat_interval_def minElectionTimeout_def)
  then have "\<not> tn_fired (tc_follower ?c4 1)" "\<not> tn_fired (tc_follower ?c4 2)" by blast+
  moreover have "tc_now ?c4 = 120000000" "resetTimerCh (tn_raft (tc_follower ?c4 1))"
    by (simp_all add: timed_cluster_def get_heartbeat_def hear_def receiveHeartbeat_def ResetTimer_def)
  ultimately show ?thesis using run by blast
qed

end
