(* ===== verification/Raft_Peers.thy ===== *)
theory Raft_Peers
  imports Raft_Machine Connection
begin

text \<open>
  Where a node gets its peers from (\<open>utils.go\<close>): the connection manager, or a slice that tests set. The
  handlers of the node take the answers as functions of the peer; here they come from the connections, and a leader that cannot
  reach a quorum any more steps down.
\<close>

section \<open>Peers of a node\<close>

text \<open>A client of a peer is the number of its connection, \<^term>\<open>None\<close> is \<open>nil\<close>.\<close>

record 'f Peers =
  connMgr :: "'f ConnectionManager option"
  testPeers :: "nat option list option"

definition getPeers :: "'f Peers \<Rightarrow> nat option list" where
  "getPeers pe = (case connMgr pe of
     Some cm \<Rightarrow> GetPeers cm
   | None \<Rightarrow> (case testPeers pe of Some ps \<Rightarrow> ps | None \<Rightarrow> []))"

definition getPeer_client :: "'f Peers \<Rightarrow> int \<Rightarrow> nat option" where
  "getPeer_client pe i =
     (if i = -1 then None
      else (case connMgr pe of
              Some cm \<Rightarrow> GetPeer i cm
            | None \<Rightarrow> (case testPeers pe of
                         Some ps \<Rightarrow> if i \<ge> 0 \<and> i < go_len ps then ps ! nat i else None
                       | None \<Rightarrow> None)))"

definition isPeerAvailable :: "'f Peers \<Rightarrow> int \<Rightarrow> bool" where
  "isPeerAvailable pe nodeId = (case connMgr pe of Some cm \<Rightarrow> IsPeerAvailable nodeId cm | None \<Rightarrow> True)"

definition getAvailablePeerCount :: "int \<Rightarrow> 'f Peers \<Rightarrow> int" where
  "getAvailablePeerCount n pe = (case connMgr pe of
     Some cm \<Rightarrow> GetAvailablePeerCount cm
   | None \<Rightarrow> (case testPeers pe of Some ps \<Rightarrow> go_len ps - 1 | None \<Rightarrow> n - 1))"

definition setPeers :: "nat option list \<Rightarrow> 'f Peers \<Rightarrow> 'f Peers" where
  "setPeers ps pe = pe\<lparr>testPeers := Some ps\<rparr>"

text \<open>Which peers have a client.\<close>

definition has_client :: "'f Peers \<Rightarrow> int \<Rightarrow> bool" where
  "has_client pe i \<longleftrightarrow> getPeer_client pe i \<noteq> None"

lemma available_has_client:
  assumes "connMgr pe = Some cm" and "connections_ok cm" and "isPeerAvailable pe i" and "i \<noteq> cm_selfID cm"
  shows "has_client pe i"
proof -
  have i: "0 \<le> i" "i < cm_totalNodes cm" "peerAvailable cm ! nat i" using assms(1,3) by (auto simp: isPeerAvailable_def IsPeerAvailable_def split: if_splits)
  then have "peer_ok cm (nat i)" "cm_peers cm = cm_conns cm" using assms(2) by (simp_all add: connections_ok_def sizes_ok_def)
  then show ?thesis using i assms(1,4) by (auto simp: has_client_def getPeer_client_def GetPeer_def peer_ok_def)
qed

lemma count_available_card:
  "distinct is \<Longrightarrow> count_available is cm = int (card {i \<in> set is. int i \<noteq> cm_selfID cm \<and> peerAvailable cm ! i})"
proof (induction "is")
  case (Cons i "is")
  have "{j \<in> set (i # is). int j \<noteq> cm_selfID cm \<and> peerAvailable cm ! j} =
      (if int i \<noteq> cm_selfID cm \<and> peerAvailable cm ! i then {i} else {}) \<union> {j \<in> set is. int j \<noteq> cm_selfID cm \<and> peerAvailable cm ! j}" by auto
  with Cons show ?case by (auto simp: card_insert_if)
qed simp

lemma health_loop_self: "cm_selfID (health_loop now getState is cm) = cm_selfID cm"
  by (induction "is" arbitrary: cm) (simp_all add: check_peer_def reconnectPeer_def Let_def split: option.split)

lemma conn_step_self: "conn_step scale cm cm' \<Longrightarrow> cm_selfID cm' = cm_selfID cm"
  by (cases rule: conn_step.cases, assumption)
    (auto simp: connectPeerAsync_def dialPeer_def check_peer_def reconnectPeer_def healthCheckLoop_def performHealthCheck_def health_loop_self Close_def Let_def
      split: option.splits Option.bind_splits sum.splits if_splits)

interpretation self_id: step_invariant "conn_step scale" "\<lambda>cm. cm_selfID cm = l" for scale l
  by unfold_locales (simp add: conn_step_self)

section \<open>Counting failures\<close>

text \<open>A leader whose replicators have failed so many times in a row, and nothing else.\<close>

definition counting :: "int \<Rightarrow> int \<Rightarrow> (int \<Rightarrow> int) \<Rightarrow> ('d, 'a) Raft \<Rightarrow> bool" where
  "counting n self failures r \<longleftrightarrow> currentRole r = Leader \<and> raft_id r = self \<and> totalNodes r = n \<and>
     (\<exists>reps. replicators r = Some reps \<and> length reps = nat n \<and>
       (\<forall>i < nat n. reps ! i = (if int i = self then None else Some ((NewReplicator (int i))\<lparr>consecutiveFailures := failures (int i)\<rparr>))))"

definition healthy :: "int \<Rightarrow> int \<Rightarrow> (int \<Rightarrow> int) \<Rightarrow> int set" where
  "healthy n self failures = {f \<in> {0..<n} - {self}. failures f < 5}"

lemma finite_healthy [simp]: "finite (healthy n self failures)"
  by (rule finite_subset [of _ "{0..<n}"]) (auto simp: healthy_def)

definition well :: "Replicator option \<Rightarrow> bool" where
  "well rep \<longleftrightarrow> (case rep of None \<Rightarrow> False | Some p \<Rightarrow> consecutiveFailures p < maxConsecutiveFailures p)"

lemma count_healthy_sum:
  "count_healthy self i reps = (\<Sum>j<length reps. if i + int j \<noteq> self \<and> well (reps ! j) then 1 else 0)"
proof (induction reps arbitrary: i)
  case (Cons rep reps)
  have "count_healthy self i (rep # reps) = (if i \<noteq> self \<and> well rep then 1 else 0) + count_healthy self (i + 1) reps"
    by (simp add: well_def split: option.split)
  also have "\<dots> = (if i \<noteq> self \<and> well rep then 1 else 0) + (\<Sum>j<length reps. if i + 1 + int j \<noteq> self \<and> well (reps ! j) then 1 else 0)"
    by (simp only: Cons.IH)
  finally show ?case by (simp add: sum.lessThan_Suc_shift add.assoc del: sum.lessThan_Suc count_healthy.simps)
qed simp

lemma count_healthy_card: "count_healthy self 0 reps = int (card {j \<in> {..<length reps}. int j \<noteq> self \<and> well (reps ! j)})"
  by (simp add: count_healthy_sum sum.If_cases Int_def)

lemma counting_healthy:
  assumes "counting n self failures r" and "replicators r = Some reps"
  shows "count_healthy self 0 reps = int (card (healthy n self failures))"
proof -
  have reps: "length reps = nat n" "\<And>i. i < nat n \<Longrightarrow> reps ! i = (if int i = self then None else Some ((NewReplicator (int i))\<lparr>consecutiveFailures := failures (int i)\<rparr>))"
    using assms by (auto simp: counting_def)
  have "healthy n self failures = int ` {j \<in> {..<length reps}. int j \<noteq> self \<and> well (reps ! j)}"
  proof (rule set_eqI)
    fix f
    have "f \<in> int ` {j \<in> {..<length reps}. int j \<noteq> self \<and> well (reps ! j)} \<longleftrightarrow> 0 \<le> f \<and> nat f < length reps \<and> f \<noteq> self \<and> well (reps ! nat f)"
      by (auto simp: image_iff intro!: exI [of _ "nat f"])
    also have "\<dots> \<longleftrightarrow> f \<in> healthy n self failures"
      using reps(1) reps(2) [of "nat f"] by (auto simp: healthy_def well_def NewReplicator_def)
    finally show "f \<in> healthy n self failures \<longleftrightarrow> f \<in> int ` {j \<in> {..<length reps}. int j \<noteq> self \<and> well (reps ! j)}" by simp
  qed
  then show ?thesis by (simp add: count_healthy_card card_image)
qed

text \<open>One failed round.\<close>

lemma on_replicator_failure:
  assumes "counting n self failures r" and "0 \<le> f" and "f < n"
  shows "counting n self (failures(f := failures f + 1)) (on_replicator (\<lambda>p. p\<lparr>consecutiveFailures := consecutiveFailures p + 1\<rparr>) f r)"
proof -
  from assms(1) obtain reps where reps: "replicators r = Some reps" "length reps = nat n"
    "\<And>i. i < nat n \<Longrightarrow> reps ! i = (if int i = self then None else Some ((NewReplicator (int i))\<lparr>consecutiveFailures := failures (int i)\<rparr>))"
    by (auto simp: counting_def)
  then show ?thesis using assms by (auto simp: counting_def on_replicator_def go_len_def nth_list_update)
qed

lemma replicate_failed_counting:
  assumes "counting n self failures r" and "0 \<le> f" and "f < n" and "failures' = failures(f := failures f + 1)"
  shows "if majority n - 1 \<le> int (card (healthy n self failures')) then counting n self failures' (replicate_failed f r)
    else currentRole (replicate_failed f r) = Follower \<and> replicators (replicate_failed f r) = None"
proof -
  let ?r = "on_replicator (\<lambda>p. p\<lparr>consecutiveFailures := consecutiveFailures p + 1\<rparr>) f r"
  have c: "counting n self failures' ?r" using on_replicator_failure [OF assms(1-3)] assms(4) by simp
  then obtain reps where reps: "replicators ?r = Some reps" "currentRole ?r = Leader" "raft_id ?r = self" "totalNodes ?r = n" by (auto simp: counting_def)
  then have eq: "replicate_failed f r = (if int (card (healthy n self failures')) < majority n - 1 then becomeFollowerUnlocked (currentTerm ?r) ?r else ?r)"
    using counting_healthy [OF c reps(1)] by (simp add: replicate_failed_def checkQuorumHealth_def)
  then show ?thesis using c by (simp add: becomeFollowerUnlocked_def)
qed

lemma replicate_failed_idle_follower:
  "currentRole r = Follower \<Longrightarrow> replicators r = None \<Longrightarrow> replicate_failed f r = r"
  by (simp add: replicate_failed_def on_replicator_def checkQuorumHealth_def)

lemma fold_failed_follower: "currentRole r = Follower \<Longrightarrow> replicators r = None \<Longrightarrow> fold replicate_failed fs r = r"
  by (induction fs) (simp_all add: replicate_failed_idle_follower)

lemma fold_failed:
  assumes "counting n self failures r" and "set fs \<subseteq> {0..<n} - {self}" and "majority n - 1 \<le> int (card (healthy n self failures))"
  shows "if majority n - 1 \<le> int (card (healthy n self (\<lambda>f. failures f + int (count_list fs f))))
    then counting n self (\<lambda>f. failures f + int (count_list fs f)) (fold replicate_failed fs r)
    else currentRole (fold replicate_failed fs r) = Follower \<and> replicators (fold replicate_failed fs r) = None"
  using assms
proof (induction fs arbitrary: failures r)
  case (Cons f fs)
  let ?g = "failures(f := failures f + 1)" and ?h = "\<lambda>f'. failures f' + int (count_list (f # fs) f')"
  have h: "?h = (\<lambda>f. ?g f + int (count_list fs f))" by auto
  have f: "0 \<le> f" "f < n" using Cons.prems(2) by auto
  note step = replicate_failed_counting [OF Cons.prems(1) f refl]
  show ?case
  proof (cases "majority n - 1 \<le> int (card (healthy n self ?g))")
    case True
    then have "counting n self ?g (replicate_failed f r)" using step by (simp only: if_True)
    moreover have "set fs \<subseteq> {0..<n} - {self}" using Cons.prems(2) by simp
    ultimately show ?thesis using True unfolding h fold_simps by (rule Cons.IH)
  next
    case False
    have "healthy n self ?h \<subseteq> healthy n self ?g" by (auto simp: healthy_def)
    then have "card (healthy n self ?h) \<le> card (healthy n self ?g)" by (intro card_mono finite_healthy)
    then show ?thesis using False step fold_failed_follower [of "replicate_failed f r" fs] by simp
  qed
qed simp

section \<open>Stepping down\<close>

lemma leader_loop_replicators:
  assumes "leader_loop fs r = Some r'" and "replicators r = Some reps" and "\<forall>f \<in> set fs. 0 \<le> f \<and> f < go_len reps"
  shows "raft_id r' = raft_id r \<and> totalNodes r' = totalNodes r \<and> currentRole r' = currentRole r \<and>
    (\<exists>reps'. replicators r' = Some reps' \<and> length reps' = length reps \<and>
      (\<forall>i < length reps. reps' ! i = (if int i \<in> set fs - {raft_id r} then Some (NewReplicator (int i)) else reps ! i)))"
  using assms
proof (induction fs arbitrary: r reps)
  case (Cons f fs)
  show ?case
  proof (cases "f = raft_id r")
    case True
    with Cons.prems(1) have "leader_loop fs r = Some r'" by simp
    with Cons.IH [OF this Cons.prems(2)] Cons.prems(3) True show ?thesis by simp
  next
    case False
    then obtain sent acked where st: "leader_loop fs (r\<lparr>sentLengths := sent, ackedLengths := acked,
        replicators := Some (reps[nat f := Some (NewReplicator f)])\<rparr>) = Some r'"
      using Cons.prems by (auto simp: go_store_Some split: Option.bind_splits)
    have "\<forall>f \<in> set fs. 0 \<le> f \<and> f < go_len (reps[nat f := Some (NewReplicator f)])" using Cons.prems(3) by (auto simp: go_len_def)
    with Cons.IH [OF st] Cons.prems(3) False show ?thesis by (auto simp: nth_list_update go_len_def)
  qed
qed simp

lemma becomeLeader_counting:
  assumes "becomeLeader r0 = Some r" and "member r0"
  shows "counting (totalNodes r0) (raft_id r0) (\<lambda>_. 0) r"
proof -
  have "\<forall>f \<in> set [0..totalNodes r0 - 1]. 0 \<le> f \<and> f < go_len (replicate (nat (totalNodes r0)) None)" by (auto simp: go_len_def)
  from leader_loop_replicators [OF assms(1) [unfolded becomeLeader_def] _ this] assms(2) show ?thesis
    by (auto simp: counting_def NewReplicator_def member_def)
qed

text \<open>With a connection manager in good order, a round fails for want of the peer exactly when the peer is not available.\<close>

lemma replicate_start_available:
  assumes "connMgr pe = Some cm" and "connections_ok cm" and "f \<noteq> cm_selfID cm" and "0 \<le> f"
  shows "replicate_start (isPeerAvailable pe) (has_client pe) f r = Some PeerFailed \<longleftrightarrow> \<not> IsPeerAvailable f cm"
proof (cases "IsPeerAvailable f cm")
  case True
  then have "isPeerAvailable pe f" using assms(1) by (simp add: isPeerAvailable_def)
  moreover from this have "getPeer (has_client pe) f" using available_has_client [OF assms(1,2)] assms(3,4) by (simp add: getPeer_def)
  ultimately show ?thesis using True by (auto simp: replicate_start_def split: Option.bind_splits if_splits)
next
  case False
  then show ?thesis using assms(1) by (simp add: replicate_start_def isPeerAvailable_def)
qed

lemma fold_failed_frame:
  "currentTerm (fold replicate_failed fs r) = currentTerm r \<and> data (fold replicate_failed fs r) = data r"
proof (induction fs arbitrary: r)
  case (Cons f fs)
  have "currentTerm (replicate_failed f r) = currentTerm r"
    by (simp add: replicate_failed_def on_replicator_def checkQuorumHealth_def Let_def becomeFollowerUnlocked_def ResetTimer_def)
  then show ?case using Cons.IH [of "replicate_failed f r"] replicate_failed_idle [of f r] by simp
qed simp

text \<open>C18: A leader keeps its office exactly as long as it can reach a quorum. A round of replication fails for want of the peer exactly when the connection manager, in whatever state it has got to, has not marked the
  peer available. After any sequence of failed rounds a new leader still leads if and only if, with itself, a majority of the nodes has failed fewer than five times; otherwise
  it is a follower of the same term without replicators. Its log, its committed length and its application are unchanged either way.\<close>
theorem leader_needs_quorum:
  assumes "becomeLeader r = Some L" and "member r" and "n = totalNodes r" and "l = raft_id r" and "set fs \<subseteq> {0..<n} - {l}"
    and "NewConnectionManager l n addrs cfg = Some cm0" and "go_len addrs = n" and "run (conn_step scale) cm0 cm" and "connMgr pe = Some cm"
  shows "(\<forall>f \<in> {0..<n} - {l}. \<forall>q :: ('d, 'a) Raft. replicate_start (isPeerAvailable pe) (has_client pe) f q = Some PeerFailed \<longleftrightarrow> \<not> IsPeerAvailable f cm) \<and>
    (let L' = fold replicate_failed fs L; quorum = (majority n \<le> 1 + int (card {f \<in> {0..<n} - {l}. count_list fs f < 5}))
     in currentRole L' = (if quorum then Leader else Follower) \<and> (replicators L' = None \<longleftrightarrow> \<not> quorum) \<and>
        currentTerm L' = currentTerm r \<and> data L' = data r)"
proof -
  have ok: "connections_ok cm" using connections.run_inv [OF assms(8)] NewConnectionManager_ok [OF assms(6,7)] by simp
  have self: "cm_selfID cm = l" using self_id.run_inv [OF assms(8)] assms(6) by (auto simp: NewConnectionManager_def split: if_splits)
  have A: "replicate_start (isPeerAvailable pe) (has_client pe) f q = Some PeerFailed \<longleftrightarrow> \<not> IsPeerAvailable f cm"
    if "f \<in> {0..<n} - {l}" for f and q :: "('d, 'a) Raft"
    by (rule replicate_start_available [OF assms(9) ok]) (use that self in simp_all)
  have c: "counting n l (\<lambda>_. 0) L" using becomeLeader_counting [OF assms(1,2)] assms(3,4) by simp
  have n: "0 \<le> l" "l < n" using assms(2-4) by (simp_all add: member_def)
  have "healthy n l (\<lambda>_. 0) = {0..<n} - {l}" by (auto simp: healthy_def)
  then have "majority n - 1 \<le> int (card (healthy n l (\<lambda>_. 0)))" using n by (simp add: majority_eq)
  from fold_failed [OF c assms(5) this]
  have F: "if majority n \<le> 1 + int (card {f \<in> {0..<n} - {l}. count_list fs f < 5})
    then currentRole (fold replicate_failed fs L) = Leader \<and> replicators (fold replicate_failed fs L) \<noteq> None
    else currentRole (fold replicate_failed fs L) = Follower \<and> replicators (fold replicate_failed fs L) = None"
    by (auto simp: healthy_def counting_def split: if_splits)
  have "currentTerm L = currentTerm r \<and> data L = data r"
    using becomeLeader_ok [OF assms(2)] assms(1) by (auto simp: vote_state_def)
  then show ?thesis using A F fold_failed_frame [of fs L] unfolding Let_def by (simp split: if_splits)
qed

definition example_retry :: "int Config" where
  "example_retry = \<lparr>logsFilename = ''l'', metadataFilename = ''m'', snapshotFilename = ''s'', cfg_totalNodes = 3, cfg_raftId = 0,
     cfg_raftAddrs = [''a'', ''b'', ''c''], cfg_snapshotThreshold = 100,
     connectionRetryConfig = \<lparr>InitialBackoff = 1, MaxBackoff = 10, Multiplier = 2, MaxRetries = 0\<rparr>,
     connectionTimeout = 5, healthCheckInterval = 7, startupMode = StartAlways, artificialDelay = 0\<rparr>"

text \<open>A leader of three that fails to reach its first follower leads on, and one that fails to reach both does not.\<close>

theorem leader_needs_quorum_witness:
  "\<exists>L :: (unit, unit) Raft. becomeLeader (initial_raft () 0 3 100 (NewRaftDataSaver None None None)) = Some L \<and>
     currentRole (fold replicate_failed [1, 1, 1, 1, 1] L) = Leader \<and> currentRole (fold replicate_failed [1, 1, 1, 1, 1, 2, 2, 2, 2, 2] L) = Follower"
proof -
  let ?r = "initial_raft () 0 3 100 (NewRaftDataSaver None None None) :: (unit, unit) Raft"
  have m: "member ?r" by (simp add: member_def initial_raft_def go_len_def)
  then obtain L where L: "becomeLeader ?r = Some L" using becomeLeader_ok by blast
  obtain cm where cm: "NewConnectionManager 0 3 [''a'', ''b'', ''c''] example_retry = Some cm" "cm_selfID cm = 0"
    by (simp add: NewConnectionManager_def)
  note q = leader_needs_quorum [OF L m refl refl, of _ "[''a'', ''b'', ''c'']" example_retry cm "\<lambda>d m. d * m" cm "\<lparr>connMgr = Some cm, testPeers = None\<rparr>"]
  have r: "totalNodes ?r = 3" "raft_id ?r = 0" by (simp_all add: initial_raft_def)
  have s1: "{f \<in> {0..<3} - {0}. count_list [1, 1, 1, 1, 1] f < 5} = {2 :: int}" by auto
  have s2: "{f \<in> {0..<3} - {0}. count_list [1, 1, 1, 1, 1, 2, 2, 2, 2, 2] f < 5} = ({} :: int set)" by auto
  have "set [1 :: int, 1, 1, 1, 1] \<subseteq> {0..<3} - {0}" "set [1 :: int, 1, 1, 1, 1, 2, 2, 2, 2, 2] \<subseteq> {0..<3} - {0}" by auto
  with q [of "[1, 1, 1, 1, 1]"] q [of "[1, 1, 1, 1, 1, 2, 2, 2, 2, 2]"] cm run_refl [of "conn_step (\<lambda>d m. d * m)" cm]
  have "currentRole (fold replicate_failed [1, 1, 1, 1, 1] L) = Leader" "currentRole (fold replicate_failed [1, 1, 1, 1, 1, 2, 2, 2, 2, 2] L) = Follower"
    unfolding r s1 s2 by (auto simp: go_len_def majority_def Let_def)
  with L show ?thesis by blast
qed

end
