(* ===== verification/Replica_Sync.thy ===== *)
theory Replica_Sync
  imports Controller "HOL-Library.List_Lexorder" "HOL-Library.Char_ord"
begin

text \<open>
  What a rebalance does to the data: the nodes that become replicas of a shard pull its entries from
  the primary, one after the other, and end with everything the primary has.
\<close>

section \<open>Pulling\<close>

definition data_at :: "nodes \<Rightarrow> string \<Rightarrow> kv" where
  "data_at ns u = (case ns u of None \<Rightarrow> Map.empty | Some s \<Rightarrow> cm_data (store s))"

definition node_url :: "ClusterConfig \<Rightarrow> string \<Rightarrow> string" where
  "node_url cfg n = ''http://'' @ Address (the (Nodes cfg n))"

text \<open>The servers at the addresses \<open>us\<close> are up and know that there are \<open>n\<close> shards.\<close>

definition ready :: "int \<Rightarrow> string set \<Rightarrow> nodes \<Rightarrow> bool" where
  "ready n us ns \<longleftrightarrow> 0 < n \<and> (\<forall>u \<in> us. \<exists>s. ns u = Some s \<and> TotalShards (config s) = n \<and> finite (dom (cm_data (store s))))"

definition task_ok :: "ClusterConfig \<Rightarrow> string set \<Rightarrow> replicaSyncTask \<Rightarrow> bool" where
  "task_ok cfg us t \<longleftrightarrow> Nodes cfg (t_primaryID t) \<noteq> None \<and> Nodes cfg (t_replicaID t) \<noteq> None \<and>
     node_url cfg (t_primaryID t) \<in> us \<and> node_url cfg (t_replicaID t) \<in> us \<and>
     node_url cfg (t_primaryID t) \<noteq> node_url cfg (t_replicaID t) \<and> 0 \<le> t_shardID t \<and> t_shardID t < 2 ^ 63"

definition orders_ok :: "(replicaSyncTask \<Rightarrow> Server \<Rightarrow> string list \<times> string list) \<Rightarrow> bool" where
  "orders_ok ord \<longleftrightarrow> (\<forall>t s. finite (dom (cm_data (store s))) \<longrightarrow>
     range_order (fst (ord t s)) (cm_data (store s)) \<and> range_order (snd (ord t s)) (shard_part s (t_shardID t)))"

text \<open>A server without its data: a pull changes nothing else of it.\<close>

definition bare :: "Server \<Rightarrow> Server" where
  "bare s = s\<lparr>store := NewConcurrentMapCache\<rparr>"

definition same_servers :: "nodes \<Rightarrow> nodes \<Rightarrow> bool" where
  "same_servers ns ns' \<longleftrightarrow> (\<forall>u. map_option bare (ns' u) = map_option bare (ns u))"

lemma sync_task_eq:
  assumes "ready n us ns" and "task_ok cfg us t" and "orders_ok ord" and "\<forall>u. net u = Delivered"
  shows "ready n us (sync_task net ord cfg t ns)"
    and "data_at (sync_task net ord cfg t ns) u k =
      (if u = node_url cfg (t_replicaID t) \<and> shard_of k n = t_shardID t \<and> data_at ns (node_url cfg (t_primaryID t)) k \<noteq> None
       then data_at ns (node_url cfg (t_primaryID t)) k else data_at ns u k)"
    and "same_servers ns (sync_task net ord cfg t ns)"
proof -
  obtain pn rn where nodes: "Nodes cfg (t_primaryID t) = Some pn" "Nodes cfg (t_replicaID t) = Some rn"
    "''http://'' @ Address pn \<in> us" "''http://'' @ Address rn \<in> us" "0 \<le> t_shardID t" "t_shardID t < 2 ^ 63"
    using assms(2) by (auto simp: task_ok_def node_url_def)
  obtain source s where servers: "ns (''http://'' @ Address pn) = Some source" "TotalShards (config source) = n" "finite (dom (cm_data (store source)))"
    "ns (''http://'' @ Address rn) = Some s" "TotalShards (config s) = n" "finite (dom (cm_data (store s)))" and n: "0 < n"
    using assms(1) nodes(3,4) unfolding ready_def by blast
  obtain ks ks' where o: "ord t source = (ks, ks')" by fastforce
  then have "range_order ks (cm_data (store source))" "range_order ks' (shard_part source (t_shardID t))"
    using assms(3) servers(3) unfolding orders_ok_def by (metis fst_conv, metis snd_conv)
  from triggerPull_ok [OF servers(1,4) assms(4) [rule_format] assms(4) [rule_format] nodes(5,6) _ this]
  have eq: "sync_task net ord cfg t ns = ns(''http://'' @ Address rn \<mapsto> pulled source (t_shardID t) s)"
    using nodes(1,2) servers(1,2) n o by (simp add: sync_task_def pull_order_def)
  have "finite (dom (shard_part source (t_shardID t)))" using servers(3) by (simp add: shard_part_def)
  then show "ready n us (sync_task net ord cfg t ns)"
    using assms(1) servers(5,6) unfolding eq by (simp add: ready_def pulled_def)
  show "data_at (sync_task net ord cfg t ns) u k =
      (if u = node_url cfg (t_replicaID t) \<and> shard_of k n = t_shardID t \<and> data_at ns (node_url cfg (t_primaryID t)) k \<noteq> None
       then data_at ns (node_url cfg (t_primaryID t)) k else data_at ns u k)"
    using nodes(1,2) servers(1,2,4) unfolding eq
    by (auto simp: data_at_def node_url_def pulled_def shard_part_def map_add_def restrict_map_def split: option.splits)
  show "same_servers ns (sync_task net ord cfg t ns)" using servers(4) unfolding eq by (simp add: same_servers_def bare_def pulled_def)
qed

text \<open>Tasks for one shard name one primary.\<close>

definition one_primary :: "replicaSyncTask set \<Rightarrow> bool" where
  "one_primary ts \<longleftrightarrow> (\<forall>t \<in> ts. \<forall>t' \<in> ts. t_shardID t = t_shardID t' \<longrightarrow> t_primaryID t = t_primaryID t')"

lemma one_primaryD: "one_primary ts \<Longrightarrow> t \<in> ts \<Longrightarrow> t' \<in> ts \<Longrightarrow> t_shardID t = t_shardID t' \<Longrightarrow> t_primaryID t = t_primaryID t'"
  unfolding one_primary_def by blast

lemma sync_keeps_primary:
  assumes "ready n us ns" and "task_ok cfg us t" and "orders_ok ord" and "\<forall>u. net u = Delivered"
    and "shard_of k n = t_shardID t'" and "t_shardID t = t_shardID t' \<Longrightarrow> t_primaryID t = t_primaryID t'"
  shows "data_at (sync_task net ord cfg t ns) (node_url cfg (t_primaryID t')) k = data_at ns (node_url cfg (t_primaryID t')) k"
  using sync_task_eq(2) [OF assms(1-4), of "node_url cfg (t_primaryID t')" k] assms(2,5,6) by (auto simp: task_ok_def)

text \<open>What node \<open>u\<close> holds under \<open>k\<close> afterwards it has as the replica of one of the tasks.\<close>

definition taken_over :: "int \<Rightarrow> ClusterConfig \<Rightarrow> replicaSyncTask set \<Rightarrow> nodes \<Rightarrow> nodes \<Rightarrow> string \<Rightarrow> string \<Rightarrow> bool" where
  "taken_over n cfg ts ns ns' u k \<longleftrightarrow> (\<exists>t \<in> ts. u = node_url cfg (t_replicaID t) \<and> shard_of k n = t_shardID t \<and>
     data_at ns' u k = data_at ns (node_url cfg (t_primaryID t)) k \<and> data_at ns (node_url cfg (t_primaryID t)) k \<noteq> None)"

lemma taken_over_same:
  assumes "taken_over n cfg ts ns1 ns' u k"
    and "\<And>t. t \<in> ts \<Longrightarrow> shard_of k n = t_shardID t \<Longrightarrow> data_at ns1 (node_url cfg (t_primaryID t)) k = data_at ns (node_url cfg (t_primaryID t)) k"
    and "ts \<subseteq> ts'"
  shows "taken_over n cfg ts' ns ns' u k"
  using assms unfolding taken_over_def by (metis subsetD)

lemma one_primary_tl: "one_primary (set (t # ts)) \<Longrightarrow> one_primary (set ts)"
  unfolding one_primary_def by (meson list.set_intros(2))

lemma syncNewReplicas_changes:
  assumes "ready n us ns" and "\<forall>t \<in> set ts. task_ok cfg us t" and "orders_ok ord" and "\<forall>u. net u = Delivered" and "one_primary (set ts)"
  shows "data_at (syncNewReplicas net ord ts cfg ns) u k = data_at ns u k \<or>
    taken_over n cfg (set ts) ns (syncNewReplicas net ord ts cfg ns) u k"
  using assms
proof (induction ts arbitrary: ns)
  case (Cons t ts)
  let ?ns = "sync_task net ord cfg t ns" let ?fin = "syncNewReplicas net ord ts cfg ?ns"
  have t: "task_ok cfg us t" and ts: "\<forall>t \<in> set ts. task_ok cfg us t" using Cons.prems(2) by simp_all
  note step = sync_task_eq [OF Cons.prems(1) t Cons.prems(3,4)]
  have "taken_over n cfg (set (t # ts)) ns ?fin u k" if "taken_over n cfg (set ts) ?ns ?fin u k"
    by (rule taken_over_same [OF that sync_keeps_primary [OF Cons.prems(1) t Cons.prems(3,4)]])
      (auto intro: one_primaryD [OF Cons.prems(5)])
  moreover have "data_at ?fin u k = data_at ns u k \<or> taken_over n cfg (set (t # ts)) ns ?fin u k" if "data_at ?fin u k = data_at ?ns u k"
    using that step(2) [of u k] by (simp add: taken_over_def del: not_None_eq split: if_splits)
  ultimately show ?case
    using Cons.IH [OF step(1) ts Cons.prems(3,4) one_primary_tl [OF Cons.prems(5)]] unfolding syncNewReplicas.simps by blast
qed simp

lemma syncNewReplicas_fills:
  assumes "ready n us ns" and "\<forall>t \<in> set ts. task_ok cfg us t" and "orders_ok ord" and "\<forall>u. net u = Delivered" and "one_primary (set ts)"
    and "t \<in> set ts" and "shard_of k n = t_shardID t" and "data_at ns (node_url cfg (t_primaryID t)) k = Some v"
  shows "data_at (syncNewReplicas net ord ts cfg ns) (node_url cfg (t_replicaID t)) k = Some v"
  using assms
proof (induction ts arbitrary: ns)
  case (Cons a ts)
  let ?ns = "sync_task net ord cfg a ns" let ?fin = "syncNewReplicas net ord ts cfg ?ns"
  have a: "task_ok cfg us a" and ts: "\<forall>t \<in> set ts. task_ok cfg us t" using Cons.prems(2) by simp_all
  note step = sync_task_eq [OF Cons.prems(1) a Cons.prems(3,4)]
  note tl = step(1) ts Cons.prems(3,4) one_primary_tl [OF Cons.prems(5)]
  have primary: "data_at ?ns (node_url cfg (t_primaryID t')) k = Some v" if "t' \<in> set (a # ts)" "shard_of k n = t_shardID t'" for t'
  proof -
    have "t_primaryID t' = t_primaryID t"
      by (rule one_primaryD [OF Cons.prems(5) that(1) Cons.prems(6)]) (use that(2) Cons.prems(7) in simp)
    moreover have "data_at ?ns (node_url cfg (t_primaryID t)) k = data_at ns (node_url cfg (t_primaryID t)) k"
      by (rule sync_keeps_primary [OF Cons.prems(1) a Cons.prems(3,4,7)]) (auto intro: one_primaryD [OF Cons.prems(5) _ Cons.prems(6)])
    ultimately show ?thesis using Cons.prems(8) by simp
  qed
  have "data_at ?fin (node_url cfg (t_replicaID a)) k = Some v" if "t = a"
  proof -
    have "data_at ?ns (node_url cfg (t_replicaID a)) k = Some v" using step(2) Cons.prems(7,8) that by simp
    then show ?thesis using syncNewReplicas_changes [OF tl, of "node_url cfg (t_replicaID a)" k] primary by (auto simp: taken_over_def)
  qed
  then show ?case using Cons.IH [OF tl _ Cons.prems(7) primary [OF Cons.prems(6,7)]] Cons.prems(6) by auto
qed simp

lemma syncNewReplicas_same_servers:
  assumes "ready n us ns" and "\<forall>t \<in> set ts. task_ok cfg us t" and "orders_ok ord" and "\<forall>u. net u = Delivered"
  shows "same_servers ns (syncNewReplicas net ord ts cfg ns)"
  using assms
proof (induction ts arbitrary: ns)
  case (Cons t ts)
  then have t: "task_ok cfg us t" and ts: "\<forall>t \<in> set ts. task_ok cfg us t" by simp_all
  note step = sync_task_eq [OF Cons.prems(1) t Cons.prems(3,4)]
  then show ?case using Cons.IH [OF step(1) ts Cons.prems(3,4)] by (simp add: same_servers_def)
qed (simp add: same_servers_def)

section \<open>The tasks of a rebalance\<close>

lemma assign_shard_tasks:
  assumes "\<forall>r \<in> set (ReplicaIDs shard). is_active cfg r"
  shows "t \<in> set (snd (snd (assign_shard (Nodes cfg) active k i shard))) \<longleftrightarrow>
    (\<exists>r \<in> set (ReplicaIDs (fst (assign_shard (Nodes cfg) active k i shard))) - set (ReplicaIDs shard).
       t = \<lparr>t_shardID = i, t_primaryID = PrimaryID (fst (assign_shard (Nodes cfg) active k i shard)), t_replicaID = r\<rparr>)"
proof -
  let ?s = "fst (assign_primary active k shard)"
  have same: "ReplicaIDs ?s = ReplicaIDs shard" by (simp add: assign_primary_def)
  have id: "active_list (ReplicaIDs shard) (Nodes cfg) = ReplicaIDs shard" by (rule active_list_id [OF assms])
  let ?new = "take (nat (desired_replicas active - go_len (ReplicaIDs ?s))) (filter (\<lambda>n. n \<noteq> PrimaryID ?s \<and> n \<notin> set (ReplicaIDs ?s)) active)"
  have "set ?new \<inter> set (ReplicaIDs ?s) = {}" using in_set_takeD by fastforce
  then show ?thesis
    by (auto simp: assign_shard_def case_prod_beta assign_replicas_def Let_def id add_replicas_eq same)
qed

text \<open>Between \<open>c\<close> and \<open>c'\<close> the node \<open>r\<close> has become a replica of shard \<open>i\<close>, whose primary in \<open>c'\<close> is \<open>p\<close>.\<close>

definition new_replica :: "Controller \<Rightarrow> Controller \<Rightarrow> int \<Rightarrow> string \<Rightarrow> string \<Rightarrow> bool" where
  "new_replica c c' i p r \<longleftrightarrow> (\<exists>shard shard'. Shards (c_config c) i = Some shard \<and> Shards (c_config c') i = Some shard' \<and>
     p = PrimaryID shard' \<and> r \<in> set (ReplicaIDs shard') \<and> r \<notin> set (ReplicaIDs shard))"

lemma Controller_Rebalance_tasks:
  assumes "range_order nodeOrder (Nodes (c_config c))" and "range_order is (Shards (c_config c))" and "topology_ok (c_config c)"
    and "Controller_Rebalance nodeOrder is c = (c', Some ts)"
  shows "t \<in> set ts \<longleftrightarrow> new_replica c c' (t_shardID t) (t_primaryID t) (t_replicaID t)"
proof -
  let ?cfg = "c_config c" let ?active = "active_list nodeOrder (Nodes ?cfg)"
  have act: "\<forall>r \<in> set (ReplicaIDs shard). is_active ?cfg r" if "Shards ?cfg i = Some shard" for i shard
    using assms(3) that by (auto simp: topology_ok_def topology_live_def)
  have "c_config c' = ?cfg\<lparr>Shards := fst (assign_loop (Nodes ?cfg) ?active 0 is (Shards ?cfg)), Epoch := Epoch ?cfg + 1\<rparr>"
    and ts: "ts = snd (assign_loop (Nodes ?cfg) ?active 0 is (Shards ?cfg))"
    using assms(4) by (auto simp: Controller_Rebalance_eq Let_def split: if_splits prod.splits)
  then have m: "Shards (c_config c') = fst (assign_loop (Nodes ?cfg) ?active 0 is (Shards ?cfg))" by simp
  have dom: "i \<in> set is \<longleftrightarrow> Shards ?cfg i \<noteq> None" for i using assms(2) by (auto simp: range_order_def)
  have "distinct is" using assms(2) by (simp add: range_order_def)
  from assign_loop_tasks [OF this, of "Nodes ?cfg" ?active 0 "Shards ?cfg", folded m ts] obtain idx where
    new: "\<forall>i. Shards (c_config c') i = (if i \<in> set is then map_option (\<lambda>shard. fst (assign_shard (Nodes ?cfg) ?active (idx i) i shard)) (Shards ?cfg i)
      else Shards ?cfg i)"
    and tasks: "\<forall>t. t \<in> set ts \<longleftrightarrow> (\<exists>i \<in> set is. \<exists>shard. Shards ?cfg i = Some shard \<and>
      t \<in> set (snd (snd (assign_shard (Nodes ?cfg) ?active (idx i) i shard))))"
    by blast
  have some: "Shards (c_config c') i = Some (fst (assign_shard (Nodes ?cfg) ?active (idx i) i shard))" if "Shards ?cfg i = Some shard" for i shard
    using new dom that by simp
  have "t \<in> set ts \<longleftrightarrow> (\<exists>i shard. Shards ?cfg i = Some shard \<and> t \<in> set (snd (snd (assign_shard (Nodes ?cfg) ?active (idx i) i shard))))"
    using tasks dom by auto
  also have "\<dots> \<longleftrightarrow> new_replica c c' (t_shardID t) (t_primaryID t) (t_replicaID t)"
  proof
    assume "\<exists>i shard. Shards ?cfg i = Some shard \<and> t \<in> set (snd (snd (assign_shard (Nodes ?cfg) ?active (idx i) i shard)))"
    then obtain i shard where "Shards ?cfg i = Some shard" "t \<in> set (snd (snd (assign_shard (Nodes ?cfg) ?active (idx i) i shard)))" by blast
    then show "new_replica c c' (t_shardID t) (t_primaryID t) (t_replicaID t)"
      using some [of i shard] by (auto simp: new_replica_def assign_shard_tasks [OF act])
  next
    assume "new_replica c c' (t_shardID t) (t_primaryID t) (t_replicaID t)"
    then show "\<exists>i shard. Shards ?cfg i = Some shard \<and> t \<in> set (snd (snd (assign_shard (Nodes ?cfg) ?active (idx i) i shard)))"
      unfolding new_replica_def using some by (cases t) (fastforce simp: assign_shard_tasks [OF act])
  qed
  finally show ?thesis .
qed

lemma Controller_Rebalance_tasks_ok:
  assumes "range_order nodeOrder (Nodes (c_config c))" and "range_order is (Shards (c_config c))" and "topology_ok (c_config c)"
    and "TotalShards (c_config c) < 2 ^ 63" and "inj_on (node_url (c_config c)) {n. is_active (c_config c) n}"
    and "Controller_Rebalance nodeOrder is c = (c', Some ts)"
  shows "\<forall>t \<in> set ts. task_ok (c_config c') (node_url (c_config c) ` {n. is_active (c_config c) n}) t"
    and "one_primary (set ts)"
proof -
  note tasks = Controller_Rebalance_tasks [OF assms(1-3,6)]
  show "one_primary (set ts)" unfolding one_primary_def using tasks by (auto simp: new_replica_def)
  have same: "Nodes (c_config c') = Nodes (c_config c)" using Controller_Rebalance_frame(1) [of nodeOrder "is" c] assms(6) by simp
  let ?active = "active_list nodeOrder (Nodes (c_config c))"
  have ne: "?active \<noteq> []" using assms(6) by (auto simp: Controller_Rebalance_eq Let_def split: if_splits)
  have set: "set ?active = {n. is_active (c_config c) n}" by (rule active_list_all [OF assms(1)])
  show "\<forall>t \<in> set ts. task_ok (c_config c') (node_url (c_config c) ` {n. is_active (c_config c) n}) t"
  proof
    fix t assume "t \<in> set ts"
    then obtain shard shard' where t: "Shards (c_config c) (t_shardID t) = Some shard" "Shards (c_config c') (t_shardID t) = Some shard'"
      "t_replicaID t \<in> set (ReplicaIDs shard')" "t_primaryID t = PrimaryID shard'"
      unfolding tasks new_replica_def by blast
    have "Shards (c_config (fst (Controller_Rebalance nodeOrder is c))) (t_shardID t) = Some shard'" using t(2) assms(6) by simp
    from Controller_Rebalance_shards(2) [OF assms(1,2) _ _ _ ne this] have "fully_replicated ?active shard'"
      using assms(3) by (simp add: topology_ok_def)
    then have p: "is_active (c_config c) (t_primaryID t)" "is_active (c_config c) (t_replicaID t)" "t_replicaID t \<noteq> t_primaryID t"
      using set t(3,4) by (auto simp: fully_replicated_def shard_wf_def)
    have "t_shardID t \<in> {0..<TotalShards (c_config c)}" using assms(3) t(1) unfolding topology_ok_def by blast
    moreover have "node_url (c_config c) (t_primaryID t) \<noteq> node_url (c_config c) (t_replicaID t)" using inj_onD [OF assms(5)] p by fastforce
    ultimately show "task_ok (c_config c') (node_url (c_config c) ` {n. is_active (c_config c) n}) t"
      using p assms(4) by (auto simp: task_ok_def same node_url_def is_active_def split: option.splits)
  qed
qed

lemma rebalance_fills:
  assumes "range_order nodeOrder (Nodes (c_config c))" and "range_order is (Shards (c_config c))" and "topology_ok (c_config c)"
    and "TotalShards (c_config c) < 2 ^ 63" and "inj_on (node_url (c_config c)) {n. is_active (c_config c) n}"
    and "ready (TotalShards (c_config c)) (node_url (c_config c) ` {n. is_active (c_config c) n}) ns"
    and "orders_ok ord" and "\<forall>u. net u = Delivered"
    and "Rebalance_full sync net ord nodeOrder is (c, ns) = ((c', ns'), err)"
  shows "(\<forall>p r k v. new_replica c c' (shard_of k (TotalShards (c_config c))) p r \<and> data_at ns (node_url (c_config c) p) k = Some v \<longrightarrow>
      data_at ns' (node_url (c_config c) r) k = Some v \<and> data_at ns' (node_url (c_config c) p) k = Some v) \<and>
    (\<forall>u k. data_at ns' u k \<noteq> data_at ns u k \<longrightarrow>
      (\<exists>p r. new_replica c c' (shard_of k (TotalShards (c_config c))) p r \<and> u = node_url (c_config c) r \<and>
         data_at ns' u k = data_at ns (node_url (c_config c) p) k \<and> data_at ns' u k \<noteq> None)) \<and>
    same_servers ns ns' \<and> c' = fst (Controller_Rebalance nodeOrder is c)"
proof (cases "snd (Controller_Rebalance nodeOrder is c)")
  case None
  then have "Controller_Rebalance nodeOrder is c = (c, None)" by (auto simp: Controller_Rebalance_eq Let_def split: if_splits prod.splits)
  then show ?thesis using assms(9) by (auto simp: Rebalance_full_def new_replica_def same_servers_def)
next
  case (Some ts)
  then have reb: "Controller_Rebalance nodeOrder is c = (c', Some ts)" and ns': "ns' = syncNewReplicas net ord ts (c_config c') ns"
    using assms(9) by (auto simp: Rebalance_full_def split: prod.splits)
  have url: "node_url (c_config c') = node_url (c_config c)"
    using Controller_Rebalance_frame(1) [of nodeOrder "is" c] reb by (auto simp: node_url_def)
  note tasks = Controller_Rebalance_tasks [OF assms(1-3) reb]
  note ok = Controller_Rebalance_tasks_ok [OF assms(1-5) reb]
  note sync = assms(6) ok(1) assms(7,8) ok(2)
  have change: "\<exists>p r. new_replica c c' (shard_of k (TotalShards (c_config c))) p r \<and> u = node_url (c_config c) r \<and>
      data_at ns' u k = data_at ns (node_url (c_config c) p) k \<and> data_at ns' u k \<noteq> None"
    if "data_at ns' u k \<noteq> data_at ns u k" for u k
    using syncNewReplicas_changes [OF sync, of u k, folded ns'] that unfolding taken_over_def url by (metis tasks)
  have "data_at ns' (node_url (c_config c) r) k = Some v \<and> data_at ns' (node_url (c_config c) p) k = Some v"
    if "new_replica c c' (shard_of k (TotalShards (c_config c))) p r" "data_at ns (node_url (c_config c) p) k = Some v" for p r k v
  proof
    let ?t = "\<lparr>t_shardID = shard_of k (TotalShards (c_config c)), t_primaryID = p, t_replicaID = r\<rparr>"
    have "?t \<in> set ts" unfolding tasks using that(1) by simp
    from syncNewReplicas_fills [OF sync this, of k v, folded ns', unfolded url] show "data_at ns' (node_url (c_config c) r) k = Some v"
      using that(2) by simp
    show "data_at ns' (node_url (c_config c) p) k = Some v"
      using change [of "node_url (c_config c) p" k] that by (fastforce simp: new_replica_def)
  qed
  moreover have "same_servers ns ns'" using syncNewReplicas_same_servers [OF assms(6) ok(1) assms(7,8)] ns' by simp
  ultimately show ?thesis using change reb by (simp only: fst_conv) blast
qed

section \<open>Properties\<close>

text \<open>C13: \<open>Rebalance\<close> fills the replicas it adds. When the calls get through, every node that becomes a replica of a shard ends with every
  entry of the shard that the primary holds, the primary, an old or a newly chosen one, still holds it, and any entry of any node that is
  different afterwards is one that a new replica has taken over from a primary. This is so whatever comes of the broadcast of
  the topology.\<close>
theorem rebalance_fills_new_replicas:
  assumes "range_order nodeOrder (Nodes (c_config c))" and "range_order is (Shards (c_config c))" and "topology_ok (c_config c)"
    and "TotalShards (c_config c) < 2 ^ 63" and "inj_on (node_url (c_config c)) {n. is_active (c_config c) n}"
    and "ready (TotalShards (c_config c)) (node_url (c_config c) ` {n. is_active (c_config c) n}) ns"
    and "orders_ok ord" and "\<forall>u. net u = Delivered"
    and "Rebalance_full sync net ord nodeOrder is (c, ns) = ((c', ns'), err)"
  shows "(\<forall>p r k v. new_replica c c' (shard_of k (TotalShards (c_config c))) p r \<and> data_at ns (node_url (c_config c) p) k = Some v \<longrightarrow>
      data_at ns' (node_url (c_config c) r) k = Some v \<and> data_at ns' (node_url (c_config c) p) k = Some v) \<and>
    (\<forall>u k. data_at ns' u k \<noteq> data_at ns u k \<longrightarrow>
      (\<exists>p r. new_replica c c' (shard_of k (TotalShards (c_config c))) p r \<and> u = node_url (c_config c) r \<and>
         data_at ns' u k = data_at ns (node_url (c_config c) p) k \<and> data_at ns' u k \<noteq> None))"
  using rebalance_fills [OF assms] by blast

text \<open>The cluster of two nodes with a shard that has no replica, and an entry on its primary.\<close>

definition filled_nodes :: nodes where
  "filled_nodes = move_nodes(''http://a1'' \<mapsto> put_on example_write (move_server ''n1''))"

definition sorted_orders :: "replicaSyncTask \<Rightarrow> Server \<Rightarrow> string list \<times> string list" where
  "sorted_orders t s = (sorted_list_of_set (dom (cm_data (store s))), sorted_list_of_set (dom (shard_part s (t_shardID t))))"

lemma sorted_orders_ok: "orders_ok sorted_orders"
  by (simp add: orders_ok_def sorted_orders_def range_order_def shard_part_def)

lemma move_active: "{n. is_active move_config n} = {''n1'', ''n2''}"
  by (auto simp: is_active_def move_defs split: if_splits)

theorem rebalance_fills_new_replicas_witness:
  "\<exists>c' ns' err. Rebalance_full (\<lambda>_. (False, 0, None)) (\<lambda>_. Delivered) sorted_orders [''n1'', ''n2''] [0] (move_controller, filled_nodes) =
      ((c', ns'), err) \<and> data_at filled_nodes ''http://a2'' ''k'' = None \<and> data_at ns' ''http://a2'' ''k'' = Some ''v''"
proof -
  let ?r = "Rebalance_full (\<lambda>_. (False, 0, None)) (\<lambda>_. Delivered) sorted_orders [''n1'', ''n2''] [0] (move_controller, filled_nodes)"
  obtain c' ns' err where r: "?r = ((c', ns'), err)" by (metis prod.exhaust)
  have cfg: "c_config move_controller = move_config" by (simp add: move_controller_def)
  have urls: "node_url move_config ''n1'' = ''http://a1''" "node_url move_config ''n2'' = ''http://a2''" by (simp_all add: node_url_def move_defs)
  have ord: "range_order [''n1'', ''n2''] (Nodes move_config)" "range_order [0] (Shards move_config)" "topology_ok move_config"
    "TotalShards move_config = 1"
    by (auto simp: range_order_def move_defs topology_ok_def topology_wf_def topology_live_def nodes_named_def shard_wf_def is_active_def)
  have urls2: "node_url move_config ` {n. is_active move_config n} = {''http://a1'', ''http://a2''}" by (simp add: move_active urls)
  have "ready (TotalShards move_config) (node_url move_config ` {n. is_active move_config n}) filled_nodes"
    unfolding urls2 by (simp add: ready_def filled_nodes_def put_on_def move_defs example_write_def ConcurrentMapCache_Put_def)
  moreover have "inj_on (node_url move_config) {n. is_active move_config n}" by (simp add: move_active urls)
  moreover have "TotalShards move_config < 2 ^ 63" by (simp add: ord(4))
  ultimately have "data_at ns' (node_url (c_config move_controller) ''n2'') ''k'' = Some ''v''"
    if "Shards (c_config c') 0 = Some \<lparr>shard_ID = 0, PrimaryID = ''n1'', ReplicaIDs = [''n2''], shard_Status = ShardStatusActive\<rparr>"
    using conjunct1 [OF rebalance_fills_new_replicas [OF _ _ _ _ _ _ sorted_orders_ok _ r], rule_format, of "''k''" "''n1''" "''n2''" "''v''"] that ord
    by (simp add: cfg urls new_replica_def key_shard_id_pos) (simp add: data_at_def filled_nodes_def put_on_def move_defs example_write_def key_shard_id_pos ConcurrentMapCache_Put_def)
  moreover have "data_at filled_nodes ''http://a2'' ''k'' = None" by (simp add: data_at_def filled_nodes_def move_defs)
  moreover have "Shards (c_config c') 0 = Some \<lparr>shard_ID = 0, PrimaryID = ''n1'', ReplicaIDs = [''n2''], shard_Status = ShardStatusActive\<rparr>"
    using r by (auto simp: Rebalance_full_def Controller_Rebalance_eq Let_def active_list_def needs_update_def desired_replicas_def go_len_def
        assign_shard_def assign_primary_def assign_replicas_def move_defs)
  ultimately show ?thesis using r urls by (simp add: cfg)
qed

end
