(* ===== verification/Scale_Out.thy ===== *)
theory Scale_Out
  imports Failover Replica_Sync
begin

text \<open>
  A cluster that grows: the controller rebalances, the new replicas are filled and the nodes learn of the new topology with their
  next heartbeat. The cluster is stable again, every copy of a shard holds what its primary held, and it can lose any one node.
\<close>

section \<open>The cluster before and after\<close>

text \<open>Every active node has a server of its own at its address that knows its name, and leases have a positive duration.\<close>

definition populated :: "ClusterConfig \<Rightarrow> World \<Rightarrow> bool" where
  "populated cfg w \<longleftrightarrow> inj_on (node_url cfg) (dom (Nodes cfg)) \<and>
     (\<forall>n. is_active cfg n \<longrightarrow> (\<exists>s. w_nodes w (node_url cfg n) = Some s \<and> nodeID s = n)) \<and>
     (\<forall>u s. w_nodes w u = Some s \<longrightarrow> 0 < lease_duration (lease s) \<and> finite (dom (cm_data (store s))))"

text \<open>The epoch must not wrap during the two changes of the topology.\<close>

definition can_scale :: "ClusterConfig \<Rightarrow> string \<Rightarrow> World \<Rightarrow> bool" where
  "can_scale cfg c w \<longleftrightarrow> stable cfg [c] w \<and> topology_ok cfg \<and> populated cfg w \<and> TotalShards cfg < 2 ^ 63 \<and>
     Epoch cfg < Epoch cfg + 1 \<and> Epoch cfg + 1 < Epoch cfg + 2"

text \<open>The controller at \<open>c\<close> rebalances, and the nodes at \<open>us\<close> renew their leases.\<close>

definition scale_out :: "(Command option Message \<Rightarrow> bool \<times> int \<times> string option) \<Rightarrow> (replicaSyncTask \<Rightarrow> Server \<Rightarrow> string list \<times> string list) \<Rightarrow>
    string list \<Rightarrow> int list \<Rightarrow> string \<Rightarrow> string list \<Rightarrow> World \<Rightarrow> World" where
  "scale_out sync ord nodeOrder is c us w =
     (case w_controllers w c of
        None \<Rightarrow> w
      | Some ctl \<Rightarrow>
          (case fst (Rebalance_full sync (\<lambda>_. Delivered) ord nodeOrder is (ctl, w_nodes w)) of (ctl', ns') \<Rightarrow>
             renew_all c us (w\<lparr>w_nodes := ns', w_controllers := (w_controllers w)(c \<mapsto> ctl')\<rparr>)))"

section \<open>The topology\<close>

lemma assign_shard_keeps:
  assumes "PrimaryID shard \<noteq> []"
  shows "PrimaryID (fst (assign_shard nodes active k i shard)) = PrimaryID shard"
    and "shard_Status (fst (assign_shard nodes active k i shard)) = shard_Status shard"
  using assms by (simp_all add: assign_shard_def assign_primary_def assign_replicas_def case_prod_beta Let_def)

text \<open>Where every shard has a primary, a rebalance changes nothing but the replicas and the epoch.\<close>

lemma Controller_Rebalance_keeps:
  assumes "range_order is (Shards (c_config c))" and "\<forall>i shard. Shards (c_config c) i = Some shard \<longrightarrow> PrimaryID shard \<noteq> []"
  shows "Shards (c_config (fst (Controller_Rebalance nodeOrder is c))) i = Some shard' \<Longrightarrow>
      \<exists>shard. Shards (c_config c) i = Some shard \<and> PrimaryID shard' = PrimaryID shard \<and> shard_Status shard' = shard_Status shard"
    and "c_config (fst (Controller_Rebalance nodeOrder is c)) = c_config c \<or>
      Epoch (c_config (fst (Controller_Rebalance nodeOrder is c))) = Epoch (c_config c) + 1"
proof -
  let ?cfg = "c_config c" let ?active = "active_list nodeOrder (Nodes ?cfg)"
  let ?loop = "assign_loop (Nodes ?cfg) ?active 0 is (Shards ?cfg)"
  have cases: "c_config (fst (Controller_Rebalance nodeOrder is c)) = ?cfg \<or>
      c_config (fst (Controller_Rebalance nodeOrder is c)) = ?cfg\<lparr>Shards := fst ?loop, Epoch := Epoch ?cfg + 1\<rparr>"
    by (auto simp: Controller_Rebalance_eq Let_def split: prod.splits)
  then show "c_config (fst (Controller_Rebalance nodeOrder is c)) = ?cfg \<or>
      Epoch (c_config (fst (Controller_Rebalance nodeOrder is c))) = Epoch ?cfg + 1" by auto
  assume sh: "Shards (c_config (fst (Controller_Rebalance nodeOrder is c))) i = Some shard'"
  have d: "distinct is" "i \<in> set is \<longleftrightarrow> Shards ?cfg i \<noteq> None" using assms(1) by (auto simp: range_order_def)
  from assign_loop_eq [OF d(1), of "Nodes ?cfg" ?active 0 "Shards ?cfg"] obtain idx where
    "\<forall>i. fst ?loop i = (if i \<in> set is then map_option (\<lambda>shard. fst (assign_shard (Nodes ?cfg) ?active (idx i) i shard)) (Shards ?cfg i) else Shards ?cfg i)"
    by blast
  then have "fst ?loop i = Some shard' \<Longrightarrow> \<exists>shard. Shards ?cfg i = Some shard \<and> shard' = fst (assign_shard (Nodes ?cfg) ?active (idx i) i shard)"
    using d(2) by (auto split: if_splits)
  then show "\<exists>shard. Shards ?cfg i = Some shard \<and> PrimaryID shard' = PrimaryID shard \<and> shard_Status shard' = shard_Status shard"
    using cases sh assign_shard_keeps assms(2) by auto
qed

lemma stable_primaries:
  assumes "stable cfg cs w" and "topology_ok cfg"
  shows "\<forall>i shard. Shards cfg i = Some shard \<longrightarrow> PrimaryID shard \<noteq> [] \<and> is_active cfg (PrimaryID shard) \<and>
    shard_Status shard \<noteq> ShardStatusLocked \<and> shard_Status shard \<noteq> ShardStatusMigrating"
proof (intro allI impI)
  fix i shard
  assume sh: "Shards cfg i = Some shard"
  then have "i \<in> {0..<TotalShards cfg}" using assms(2) unfolding topology_ok_def by blast
  then obtain node where n: "Nodes cfg (PrimaryID shard) = Some node" "shard_Status shard \<noteq> ShardStatusLocked" "shard_Status shard \<noteq> ShardStatusMigrating"
    using assms(1) sh unfolding stable_def by fastforce
  have ok: "Nodes cfg [] = None" "PrimaryID shard = [] \<or> is_active cfg (PrimaryID shard)"
    using assms(2) sh by (auto simp: topology_ok_def nodes_named_def topology_live_def)
  have "PrimaryID shard \<noteq> []"
  proof
    assume "PrimaryID shard = []"
    then show False using n(1) ok(1) by simp
  qed
  then show "PrimaryID shard \<noteq> [] \<and> is_active cfg (PrimaryID shard) \<and> shard_Status shard \<noteq> ShardStatusLocked \<and> shard_Status shard \<noteq> ShardStatusMigrating"
    using ok(2) n(2,3) by simp
qed

section \<open>The data\<close>

text \<open>The orders of the loops, and all nodes renew.\<close>

definition scale_orders :: "(replicaSyncTask \<Rightarrow> Server \<Rightarrow> string list \<times> string list) \<Rightarrow> string list \<Rightarrow> int list \<Rightarrow> string list \<Rightarrow> ClusterConfig \<Rightarrow> World \<Rightarrow> bool" where
  "scale_orders ord nodeOrder is us cfg w \<longleftrightarrow> orders_ok ord \<and> range_order nodeOrder (Nodes cfg) \<and> range_order is (Shards cfg) \<and>
     distinct us \<and> set us = dom (w_nodes w)"

lemma can_scale_ready:
  assumes "can_scale cfg c w"
  shows "ready (TotalShards cfg) (node_url cfg ` {n. is_active cfg n}) (w_nodes w)"
    and "inj_on (node_url cfg) {n. is_active cfg n}"
proof -
  have pop: "populated cfg w" and st: "stable cfg [c] w" using assms by (simp_all add: can_scale_def)
  show "inj_on (node_url cfg) {n. is_active cfg n}"
    using pop unfolding populated_def by (rule inj_on_subset [OF conjunct1]) (auto simp: is_active_def)
  have "\<exists>s. w_nodes w (node_url cfg n) = Some s \<and> TotalShards (config s) = TotalShards cfg \<and> finite (dom (cm_data (store s)))" if act: "is_active cfg n" for n
  proof -
    obtain s where s: "w_nodes w (node_url cfg n) = Some s" using pop act unfolding populated_def by blast
    then have "config s = cfg" "finite (dom (cm_data (store s)))" using pop st unfolding populated_def stable_def by blast+
    then show ?thesis using s by simp
  qed
  then show "ready (TotalShards cfg) (node_url cfg ` {n. is_active cfg n}) (w_nodes w)"
    using st by (simp add: ready_def stable_def)
qed

lemma same_serversD:
  assumes "same_servers ns ns'" and "ns' u = Some s'"
  shows "\<exists>s. ns u = Some s \<and> nodeID s' = nodeID s \<and> lease s' = lease s \<and> config s' = config s"
proof -
  have "map_option bare (ns u) = Some (bare s')" using assms unfolding same_servers_def by (metis option.simps(9))
  then obtain s where "ns u = Some s" "bare s = bare s'" by auto
  then show ?thesis by (cases s; cases s') (simp add: bare_def)
qed

lemma same_servers_dom: "same_servers ns ns' \<Longrightarrow> ns' u = None \<longleftrightarrow> ns u = None"
  unfolding same_servers_def by (metis map_option_is_None)

lemma scale_out_world:
  assumes can: "can_scale cfg c w" and ord: "scale_orders ord nodeOrder is us cfg w"
  obtains ctl ctl' ctl2 ns' where "c_config ctl = cfg" "ctl' = fst (Controller_Rebalance nodeOrder is ctl)" "same_servers (w_nodes w) ns'"
    "clock (scale_out sync ord nodeOrder is c us w) = clock w"
    "w_controllers (scale_out sync ord nodeOrder is c us w) c = Some ctl2" "c_config ctl2 = c_config ctl'"
    "\<And>u. w_nodes (scale_out sync ord nodeOrder is c us w) u = map_option (renewed (c_config ctl') (clock w)) (ns' u)"
    "\<And>p r k v. new_replica ctl ctl' (shard_of k (TotalShards cfg)) p r \<Longrightarrow> data_at (w_nodes w) (node_url cfg p) k = Some v \<Longrightarrow>
       data_at ns' (node_url cfg r) k = Some v"
    "\<And>u k. data_at ns' u k \<noteq> data_at (w_nodes w) u k \<Longrightarrow> \<exists>p r. new_replica ctl ctl' (shard_of k (TotalShards cfg)) p r \<and>
       data_at ns' u k = data_at (w_nodes w) (node_url cfg p) k"
proof -
  have st: "stable cfg [c] w" "topology_ok cfg" "TotalShards cfg < 2 ^ 63" using can by (simp_all add: can_scale_def)
  have o: "orders_ok ord" "range_order nodeOrder (Nodes cfg)" "range_order is (Shards cfg)" "distinct us" "set us = dom (w_nodes w)"
    using ord by (simp_all add: scale_orders_def)
  obtain ctl where ctl: "w_controllers w c = Some ctl" "c_config ctl = cfg" using st(1) by (auto simp: stable_def)
  obtain ctl' ns' err where full: "Rebalance_full sync (\<lambda>_. Delivered) ord nodeOrder is (ctl, w_nodes w) = ((ctl', ns'), err)" by (metis prod.exhaust)
  have del: "\<forall>u :: string. Delivered = Delivered" by simp
  note fills = rebalance_fills [OF _ _ _ _ _ _ o(1) del full, unfolded ctl(2), OF o(2,3) st(2,3) can_scale_ready(2,1) [OF can]]
  let ?w = "w\<lparr>w_nodes := ns', w_controllers := (w_controllers w)(c \<mapsto> ctl')\<rparr>"
  have w2: "scale_out sync ord nodeOrder is c us w = renew_all c us ?w" using ctl(1) full by (simp add: scale_out_def)
  have same: "same_servers (w_nodes w) ns'" and ctl': "ctl' = fst (Controller_Rebalance nodeOrder is ctl)" using fills by blast+
  have there: "\<forall>u \<in> set us. w_nodes ?w u \<noteq> None" using o(5) same_servers_dom [OF same] by auto
  have c: "w_controllers ?w c = Some ctl'" by simp
  have clk: "clock ?w = clock w" by simp
  note spec = renew_all_spec [OF c o(4) there, folded w2, unfolded clk]
  have nodes: "w_nodes (scale_out sync ord nodeOrder is c us w) u = map_option (renewed (c_config ctl') (clock w)) (ns' u)" for u
    using spec o(5) same_servers_dom [OF same, of u] by (cases "ns' u") auto
  obtain ctl2 where "w_controllers (scale_out sync ord nodeOrder is c us w) c = Some ctl2" "c_config ctl2 = c_config ctl'"
    "clock (scale_out sync ord nodeOrder is c us w) = clock w" using spec by blast
  then show thesis using that [OF ctl(2) ctl' same _ _ _ nodes] fills by blast
qed

text \<open>
  What a growing cluster promises: servers and nodes are the ones there were, under a new topology that differs in the replicas and perhaps the epoch,
  all copies are active and, if there are two active nodes, no shard is without a replica; and an entry that every copy of its shard held, every copy still holds.
\<close>

definition scaled :: "ClusterConfig \<Rightarrow> string \<Rightarrow> World \<Rightarrow> ClusterConfig \<Rightarrow> World \<Rightarrow> bool" where
  "scaled cfg c w cfg' w' \<longleftrightarrow> clock w' = clock w \<and> (\<exists>ctl. w_controllers w' c = Some ctl \<and> c_config ctl = cfg') \<and>
     (\<forall>u. w_nodes w' u = None \<longleftrightarrow> w_nodes w u = None) \<and>
     (\<forall>u s'. w_nodes w' u = Some s' \<longrightarrow> config s' = cfg' \<and> IsActive (clock w') (lease s') \<and>
        (\<exists>s. w_nodes w u = Some s \<and> nodeID s' = nodeID s \<and> lease_duration (lease s') = lease_duration (lease s))) \<and>
     Nodes cfg' = Nodes cfg \<and> TotalShards cfg' = TotalShards cfg \<and> topology_ok cfg' \<and> (Epoch cfg' = Epoch cfg \<or> Epoch cfg' = Epoch cfg + 1) \<and>
     (\<forall>i shard'. Shards cfg' i = Some shard' \<longrightarrow>
        (\<exists>shard. Shards cfg i = Some shard \<and> PrimaryID shard' = PrimaryID shard \<and> shard_Status shard' = shard_Status shard) \<and>
        (\<forall>r \<in> set (ReplicaIDs shard'). is_active cfg r) \<and> (\<forall>n n'. is_active cfg n \<and> is_active cfg n' \<and> n \<noteq> n' \<longrightarrow> ReplicaIDs shard' \<noteq> [])) \<and>
     (\<forall>key val. held (shard_urls cfg key) key val w \<longrightarrow> held (shard_urls cfg' key) key val w')"

lemma in_shard_urls:
  "u \<in> shard_urls cfg key \<longleftrightarrow> (\<exists>shard r. Shards cfg (shard_of key (TotalShards cfg)) = Some shard \<and>
     r \<in> set (PrimaryID shard # ReplicaIDs shard) \<and> Nodes cfg r \<noteq> None \<and> u = node_url cfg r)"
  unfolding shard_urls_def by (cases "Shards cfg (shard_of key (TotalShards cfg))")
    (simp_all add: in_replica_urls node_url_def del: replica_urls.simps, fastforce)

lemma held_data: "held urls key val w \<longleftrightarrow> (\<forall>u \<in> urls. data_at (w_nodes w) u key = Some val)"
  unfolding held_def data_at_def by (auto split: option.splits)

lemma data_at_renewed: "w_nodes w u = map_option (renewed cfg now) (ns u) \<Longrightarrow> data_at (w_nodes w) u = data_at ns u"
  by (simp add: data_at_def split: option.split)

text \<open>The copies under the new topology.\<close>

lemma scaled_copies:
  assumes "Nodes (c_config ctl') = Nodes (c_config ctl)" and "TotalShards (c_config ctl') = TotalShards (c_config ctl)"
    and prim: "\<And>i shard'. Shards (c_config ctl') i = Some shard' \<Longrightarrow> \<exists>shard. Shards (c_config ctl) i = Some shard \<and> PrimaryID shard' = PrimaryID shard"
    and reg: "\<And>i shard. Shards (c_config ctl) i = Some shard \<Longrightarrow> Nodes (c_config ctl) (PrimaryID shard) \<noteq> None"
    and fill: "\<And>p r. new_replica ctl ctl' (shard_of key (TotalShards (c_config ctl))) p r \<Longrightarrow> data_at ns (node_url (c_config ctl) p) key = Some val \<Longrightarrow>
       data_at ns' (node_url (c_config ctl) r) key = Some val"
    and change: "\<And>u. data_at ns' u key \<noteq> data_at ns u key \<Longrightarrow> \<exists>p r. new_replica ctl ctl' (shard_of key (TotalShards (c_config ctl))) p r \<and>
       data_at ns' u key = data_at ns (node_url (c_config ctl) p) key"
    and held: "\<forall>u \<in> shard_urls (c_config ctl) key. data_at ns u key = Some val" and u: "u \<in> shard_urls (c_config ctl') key"
  shows "data_at ns' u key = Some val"
proof -
  let ?i = "shard_of key (TotalShards (c_config ctl))" and ?url = "node_url (c_config ctl)"
  have url: "node_url (c_config ctl') = ?url" using assms(1) by (auto simp: node_url_def)
  from u obtain shard' r where s': "Shards (c_config ctl') ?i = Some shard'" and r: "r \<in> set (PrimaryID shard' # ReplicaIDs shard')"
    "Nodes (c_config ctl) r \<noteq> None" "u = ?url r" unfolding in_shard_urls assms(1,2) url by blast
  obtain shard where s: "Shards (c_config ctl) ?i = Some shard" "PrimaryID shard' = PrimaryID shard" using prim [OF s'] by blast
  have "?url (PrimaryID shard) \<in> shard_urls (c_config ctl) key" unfolding in_shard_urls using s(1) reg [OF s(1)] by (auto intro!: exI [of _ shard])
  then have p: "data_at ns (?url (PrimaryID shard')) key = Some val" using held s(2) by simp
  have new: "p = PrimaryID shard'" if "new_replica ctl ctl' ?i p r'" for p r' using that s' by (auto simp: new_replica_def)
  show ?thesis
  proof (cases "r \<in> set (PrimaryID shard # ReplicaIDs shard)")
    case True
    then have "u \<in> shard_urls (c_config ctl) key" unfolding in_shard_urls using s(1) r(2,3) by blast
    then have "data_at ns u key = Some val" using held by blast
    then show ?thesis using change [of u] new p by metis
  next
    case False
    then have "new_replica ctl ctl' ?i (PrimaryID shard') r" using s' s r(1) unfolding new_replica_def by auto
    from fill [OF this p] show ?thesis using r(3) by simp
  qed
qed

text \<open>Under two active nodes no shard stays without a replica.\<close>

lemma fully_replicated_spare:
  assumes "fully_replicated active shard" and "set active = {n. is_active cfg n}"
  shows "\<forall>r \<in> set (ReplicaIDs shard). is_active cfg r"
    and "is_active cfg n \<Longrightarrow> is_active cfg n' \<Longrightarrow> n \<noteq> n' \<Longrightarrow> ReplicaIDs shard \<noteq> []"
proof -
  show "\<forall>r \<in> set (ReplicaIDs shard). is_active cfg r" using assms by (auto simp: fully_replicated_def)
  assume "is_active cfg n" "is_active cfg n'" "n \<noteq> n'"
  then have "{n, n'} \<subseteq> set active" "card {n, n'} = 2" using assms(2) by auto
  then have "2 \<le> length active" by (metis List.finite_set card_length card_mono order_trans)
  then have "1 \<le> desired_replicas active" by (simp add: desired_replicas_def go_len_def Let_def)
  then show "ReplicaIDs shard \<noteq> []" using assms(1) by (auto simp: fully_replicated_def)
qed

lemma rebalanced_topology:
  assumes can: "can_scale cfg c w" and ord: "scale_orders ord nodeOrder is us cfg w" and ctl: "c_config ctl = cfg"
    and cfg': "cfg' = c_config (fst (Controller_Rebalance nodeOrder is ctl))" and sh: "Shards cfg' i = Some shard'"
  shows "\<exists>shard. Shards cfg i = Some shard \<and> PrimaryID shard' = PrimaryID shard \<and> shard_Status shard' = shard_Status shard"
    and "\<forall>r \<in> set (ReplicaIDs shard'). is_active cfg r"
    and "is_active cfg n \<Longrightarrow> is_active cfg n' \<Longrightarrow> n \<noteq> n' \<Longrightarrow> ReplicaIDs shard' \<noteq> []"
proof -
  have st: "stable cfg [c] w" "topology_ok cfg" using can by (simp_all add: can_scale_def)
  have o: "range_order nodeOrder (Nodes (c_config ctl))" "range_order is (Shards (c_config ctl))" using ord ctl by (simp_all add: scale_orders_def)
  note prim = stable_primaries [OF st, folded ctl]
  then have "\<forall>i shard. Shards (c_config ctl) i = Some shard \<longrightarrow> PrimaryID shard \<noteq> []" by blast
  from Controller_Rebalance_keeps(1) [OF o(2) this sh [unfolded cfg']]
  show keep: "\<exists>shard. Shards cfg i = Some shard \<and> PrimaryID shard' = PrimaryID shard \<and> shard_Status shard' = shard_Status shard" unfolding ctl .
  let ?active = "active_list nodeOrder (Nodes (c_config ctl))"
  have set: "set ?active = {n. is_active (c_config ctl) n}" by (rule active_list_all [OF o(1)])
  obtain shard where "Shards (c_config ctl) i = Some shard" using keep ctl by blast
  then have "PrimaryID shard \<in> set ?active" using prim set by blast
  then have ne: "?active \<noteq> []" by auto
  have full: "fully_replicated ?active shard'"
    using Controller_Rebalance_shards(2) [OF o _ _ _ ne sh [unfolded cfg']] st(2) ctl by (simp add: topology_ok_def)
  show "\<forall>r \<in> set (ReplicaIDs shard'). is_active cfg r" using fully_replicated_spare(1) [OF full set] ctl by simp
  show "is_active cfg n \<Longrightarrow> is_active cfg n' \<Longrightarrow> n \<noteq> n' \<Longrightarrow> ReplicaIDs shard' \<noteq> []"
    using fully_replicated_spare(2) [OF full set] ctl by simp
qed

lemma scale_out_scaled:
  assumes can: "can_scale cfg c w" and ord: "scale_orders ord nodeOrder is us cfg w"
  shows "\<exists>cfg'. scaled cfg c w cfg' (scale_out sync ord nodeOrder is c us w)"
proof -
  let ?w = "scale_out sync ord nodeOrder is c us w"
  have st: "stable cfg [c] w" "topology_ok cfg" "populated cfg w" "Epoch cfg < Epoch cfg + 1" using can by (simp_all add: can_scale_def)
  have o: "range_order nodeOrder (Nodes cfg)" "range_order is (Shards cfg)" using ord by (simp_all add: scale_orders_def)
  obtain ctl ctl' ctl2 ns' where ctl: "c_config ctl = cfg" and ctl': "ctl' = fst (Controller_Rebalance nodeOrder is ctl)"
    and same: "same_servers (w_nodes w) ns'" and clk: "clock ?w = clock w" and c2: "w_controllers ?w c = Some ctl2" "c_config ctl2 = c_config ctl'"
    and nodes: "\<And>u. w_nodes ?w u = map_option (renewed (c_config ctl') (clock w)) (ns' u)"
    and fill: "\<And>p r k v. new_replica ctl ctl' (shard_of k (TotalShards cfg)) p r \<Longrightarrow> data_at (w_nodes w) (node_url cfg p) k = Some v \<Longrightarrow>
       data_at ns' (node_url cfg r) k = Some v"
    and change: "\<And>u k. data_at ns' u k \<noteq> data_at (w_nodes w) u k \<Longrightarrow> \<exists>p r. new_replica ctl ctl' (shard_of k (TotalShards cfg)) p r \<and>
       data_at ns' u k = data_at (w_nodes w) (node_url cfg p) k"
    by (rule scale_out_world [OF assms, where sync = sync]) blast
  let ?cfg = "c_config ctl'"
  note top = rebalanced_topology [OF can ord ctl, of ?cfg, unfolded ctl', OF refl, folded ctl']
  have prim: "\<forall>i shard. Shards cfg i = Some shard \<longrightarrow> PrimaryID shard \<noteq> []" "\<And>i shard. Shards cfg i = Some shard \<Longrightarrow> Nodes cfg (PrimaryID shard) \<noteq> None"
    using stable_primaries [OF st(1,2)] by (auto simp: is_active_def)
  have frame: "Nodes ?cfg = Nodes cfg" "TotalShards ?cfg = TotalShards cfg" "topology_ok ?cfg" "?cfg = cfg \<or> Epoch ?cfg = Epoch cfg + 1"
    using Controller_Rebalance_frame [of nodeOrder "is" ctl] Controller_Rebalance_ok [OF _ _ _, of nodeOrder ctl "is"] o st(2)
      Controller_Rebalance_keeps(2) [of "is" ctl nodeOrder] prim(1) ctl ctl' by auto
  have server: "config s' = ?cfg \<and> IsActive (clock ?w) (lease s') \<and>
      (\<exists>s. w_nodes w u = Some s \<and> nodeID s' = nodeID s \<and> lease_duration (lease s') = lease_duration (lease s))" if u: "w_nodes ?w u = Some s'" for u s'
  proof -
    from u nodes obtain t where t: "ns' u = Some t" "s' = renewed ?cfg (clock w) t" by auto
    from same_serversD [OF same t(1)] obtain s where s: "w_nodes w u = Some s" "nodeID t = nodeID s" "lease t = lease s" "config t = config s" by blast
    then have "config s = cfg" "0 < lease_duration (lease s)" using st(1,3) unfolding stable_def populated_def by blast+
    then show ?thesis using s t(2) frame(4) st(4) clk by auto
  qed
  have at: "data_at (w_nodes ?w) u = data_at ns' u" for u by (rule data_at_renewed [OF nodes])
  have data: "held (shard_urls ?cfg key) key val ?w" if "held (shard_urls cfg key) key val w" for key val
    unfolding held_data at
  proof
    fix u assume u: "u \<in> shard_urls ?cfg key"
    show "data_at ns' u key = Some val"
    proof (rule scaled_copies [of ctl' ctl key "w_nodes w" val ns', unfolded ctl, OF frame(1,2) _ _ _ _ _ u])
      show "\<exists>shard. Shards cfg i = Some shard \<and> PrimaryID shard' = PrimaryID shard" if "Shards ?cfg i = Some shard'" for i shard'
        using top(1) [OF that] by blast
    qed (use prim(2) fill change that in \<open>simp_all add: held_data\<close>)
  qed
  have "w_nodes ?w u = None \<longleftrightarrow> w_nodes w u = None" for u using nodes [of u] same_servers_dom [OF same, of u] by simp
  then show ?thesis unfolding scaled_def using clk c2 server frame top data by (intro exI [of _ ?cfg]) auto
qed

section \<open>Stable and safe again\<close>

lemma scaled_server:
  assumes "scaled cfg c w cfg' w'" and "populated cfg w" and "is_active cfg n"
  shows "\<exists>node s. Nodes cfg' n = Some node \<and> w_nodes w' (''http://'' @ Address node) = Some s \<and> nodeID s = n"
proof -
  obtain node where n: "Nodes cfg n = Some node" using assms(3) by (auto simp: is_active_def)
  obtain s where s: "w_nodes w (node_url cfg n) = Some s" "nodeID s = n" using assms(2,3) unfolding populated_def by blast
  then obtain s' where s': "w_nodes w' (node_url cfg n) = Some s'" using assms(1) unfolding scaled_def by fastforce
  then have "nodeID s' = n" using assms(1) s unfolding scaled_def by fastforce
  moreover have "Nodes cfg' = Nodes cfg" using assms(1) by (simp add: scaled_def)
  ultimately show ?thesis using n s' by (simp add: node_url_def)
qed

lemma scaled_stable:
  assumes sc: "scaled cfg c w cfg' w'" and can: "can_scale cfg c w"
  shows "stable cfg' [c] w'"
  unfolding stable_def
proof (intro conjI ballI allI impI)
  have st: "stable cfg [c] w" "topology_ok cfg" "populated cfg w" using can by (simp_all add: can_scale_def)
  note server = scaled_server [OF sc st(3)]
  show "[c] \<noteq> []" by simp
  show "\<exists>ctl. w_controllers w' c' = Some ctl \<and> c_config ctl = cfg'" if "c' \<in> set [c]" for c' using sc that by (simp add: scaled_def)
  show "config s = cfg'" and "IsActive (clock w') (lease s)" if "w_nodes w' u = Some s" for u s using sc that unfolding scaled_def by blast+
  show "0 < TotalShards cfg'" using sc st(1) by (simp add: scaled_def stable_def)
  fix i assume i: "0 \<le> i \<and> i < TotalShards cfg'"
  have "dom (Shards cfg') = {0..<TotalShards cfg'}" using sc by (simp add: scaled_def topology_ok_def)
  then have "i \<in> dom (Shards cfg')" using i by simp
  then obtain shard' where sh': "Shards cfg' i = Some shard'" by auto
  then obtain shard where sh: "Shards cfg i = Some shard" "PrimaryID shard' = PrimaryID shard" "shard_Status shard' = shard_Status shard"
    and act: "\<forall>r \<in> set (ReplicaIDs shard'). is_active cfg r" using sc unfolding scaled_def by blast
  have p: "is_active cfg (PrimaryID shard')" "shard_Status shard' \<noteq> ShardStatusLocked" "shard_Status shard' \<noteq> ShardStatusMigrating"
    using stable_primaries [OF st(1,2)] sh by simp_all
  obtain node s where n: "Nodes cfg' (PrimaryID shard') = Some node" "w_nodes w' (''http://'' @ Address node) = Some s" "nodeID s = PrimaryID shard'"
    using server [OF p(1)] by blast
  have "w_nodes w' url \<noteq> None" if "url \<in> set (replica_urls (Nodes cfg') (ReplicaIDs shard'))" for url
    using that act server unfolding in_replica_urls by fastforce
  with sh' p(2,3) n show "\<exists>shard node s. Shards cfg' i = Some shard \<and> shard_Status shard \<noteq> ShardStatusLocked \<and> shard_Status shard \<noteq> ShardStatusMigrating \<and>
      Nodes cfg' (PrimaryID shard) = Some node \<and> w_nodes w' (''http://'' @ Address node) = Some s \<and> nodeID s = PrimaryID shard \<and>
      (\<forall>url \<in> set (replica_urls (Nodes cfg') (ReplicaIDs shard)). w_nodes w' url \<noteq> None)" by blast
qed

lemma scaled_can_fail_over:
  assumes sc: "scaled cfg c w cfg' w'" and can: "can_scale cfg c w" and act: "is_active cfg dead" "is_active cfg other" "other \<noteq> dead"
  shows "can_fail_over cfg' dead (node_url cfg dead) w'"
  unfolding can_fail_over_def
proof (intro conjI allI impI ballI)
  have st: "topology_ok cfg" "populated cfg w" "Epoch cfg < Epoch cfg + 1" "Epoch cfg + 1 < Epoch cfg + 2" using can by (simp_all add: can_scale_def)
  have frame: "Nodes cfg' = Nodes cfg" "topology_ok cfg'" "Epoch cfg' = Epoch cfg \<or> Epoch cfg' = Epoch cfg + 1" using sc by (simp_all add: scaled_def)
  obtain node where node: "Nodes cfg dead = Some node" using act(1) by (auto simp: is_active_def)
  show "topology_wf cfg'" using frame(2) by (simp add: topology_ok_def)
  show "dead \<noteq> []" using node st(1) by (auto simp: topology_ok_def nodes_named_def)
  show "\<exists>node. Nodes cfg' dead = Some node \<and> node_url cfg dead = ''http://'' @ Address node" using node frame(1) by (simp add: node_url_def)
  show "''http://'' @ Address node' \<noteq> node_url cfg dead" if "Nodes cfg' n = Some node' \<and> n \<noteq> dead" for n node'
  proof -
    have "node_url cfg n = ''http://'' @ Address node'" "n \<in> dom (Nodes cfg)" "dead \<in> dom (Nodes cfg)" using that frame(1) node by (auto simp: node_url_def)
    then show ?thesis using st(2) that unfolding populated_def inj_on_def by metis
  qed
  show "ReplicaIDs shard' \<noteq> []" if "Shards cfg' i = Some shard'" for i shard' using sc that act unfolding scaled_def by blast
  show "\<exists>node s. Nodes cfg' r = Some node \<and> w_nodes w' (''http://'' @ Address node) = Some s \<and> nodeID s = r"
    if "Shards cfg' i = Some shard'" "r \<in> set (ReplicaIDs shard')" for i shard' r
  proof (rule scaled_server [OF sc st(2)])
    show "is_active cfg r" using sc that unfolding scaled_def by blast
  qed
  show "0 < lease_duration (lease s)" if "w_nodes w' u = Some s" for u s
    using sc st(2) that unfolding scaled_def populated_def by metis
  show "Epoch cfg' < Epoch cfg' + 1" using frame(3) st(3,4) by (auto simp: add.commute)
qed

text \<open>A client whose topology is from before the change asks the right node: the primaries are the same.\<close>

lemma scaled_route:
  assumes "scaled cfg c w cfg' w'" and "can_scale cfg c w" and "cl_config cl = Some cfg"
  shows "\<exists>shard node. Shards cfg' (shard_of key (TotalShards cfg')) = Some shard \<and> Nodes cfg' (PrimaryID shard) = Some node \<and>
    Route key cl = Some (Inr \<lparr>TargetURL = ''http://'' @ Address node, route_Epoch = Epoch cfg, route_ShardID = shard_of key (TotalShards cfg)\<rparr>)"
proof -
  have st: "stable cfg [c] w" using assms(2) by (simp add: can_scale_def)
  obtain shard node where r: "Shards cfg (shard_of key (TotalShards cfg)) = Some shard" "Nodes cfg (PrimaryID shard) = Some node"
    "Route key cl = Some (Inr \<lparr>TargetURL = ''http://'' @ Address node, route_Epoch = Epoch cfg, route_ShardID = shard_of key (TotalShards cfg)\<rparr>)"
    using Route_current [OF st assms(3), of key] by blast
  obtain shard' where s': "Shards cfg' (shard_of key (TotalShards cfg')) = Some shard'"
    using stable_shard [OF scaled_stable [OF assms(1,2)], of key] by metis
  have frame: "Nodes cfg' = Nodes cfg" "TotalShards cfg' = TotalShards cfg" using assms(1) by (simp_all add: scaled_def)
  obtain old where "Shards cfg (shard_of key (TotalShards cfg)) = Some old" "PrimaryID shard' = PrimaryID old"
    using assms(1) s' frame(2) unfolding scaled_def by metis
  then have "PrimaryID shard' = PrimaryID shard" using r(1) by simp
  then show ?thesis using s' r(2,3) frame(1) by (intro exI [of _ shard'] exI [of _ node]) simp
qed

text \<open>A write before the change is no obstacle to it.\<close>

lemma can_scale_recorded:
  assumes "can_scale cfg c w"
  shows "can_scale cfg c (recorded cfg key val w)"
proof -
  have n: "w_nodes (recorded cfg key val w) u = w_nodes w u \<or>
      w_nodes (recorded cfg key val w) u = map_option (put_on \<lparr>w_Key = key, w_Value = val, w_Epoch = Epoch cfg\<rparr>) (w_nodes w u)" for u
    by (simp add: recorded_def)
  have pop: "populated cfg w" using assms by (simp add: can_scale_def)
  have "\<exists>s. w_nodes (recorded cfg key val w) (node_url cfg m) = Some s \<and> nodeID s = m" if "is_active cfg m" for m
    using pop that n [of "node_url cfg m"] unfolding populated_def by fastforce
  moreover have "0 < lease_duration (lease s) \<and> finite (dom (cm_data (store s)))" if "w_nodes (recorded cfg key val w) u = Some s" for u s
    using pop that n [of u] unfolding populated_def by (fastforce simp: put_on_def ConcurrentMapCache_Put_def)
  ultimately have "populated cfg (recorded cfg key val w)" using pop unfolding populated_def by blast
  then show ?thesis using assms stable_recorded by (simp add: can_scale_def)
qed

lemma recorded_dom: "dom (w_nodes (recorded cfg key val w)) = dom (w_nodes w)"
  by (auto simp: recorded_def dom_def split: if_splits)

lemma scaled_dom:
  assumes "scaled cfg c w cfg' w'"
  shows "dom (w_nodes w') = dom (w_nodes w)" and "can_scale cfg c w \<Longrightarrow> dom (Shards cfg') = dom (Shards cfg)"
  using assms by (auto simp: scaled_def can_scale_def topology_ok_def dom_def)

text \<open>The two-node cluster whose only shard has no replica.\<close>

definition sparse_world :: World where
  "sparse_world = \<lparr>clock = 0, w_nodes = move_nodes, w_controllers = [''http://c'' \<mapsto> move_controller]\<rparr>"

lemma sparse_can_scale: "can_scale move_config ''http://c'' sparse_world"
proof -
  have "inj_on (node_url move_config) (dom (Nodes move_config))" by (auto simp: inj_on_def node_url_def move_defs)
  then have "populated move_config sparse_world"
    unfolding populated_def by (auto simp: sparse_world_def node_url_def is_active_def move_defs split: if_splits)
  moreover have "stable move_config [''http://c''] sparse_world"
    by (auto simp: stable_def sparse_world_def IsActive_def move_defs status_defs split: if_splits)
  moreover have "topology_ok move_config"
    by (auto simp: move_defs topology_ok_def topology_wf_def topology_live_def nodes_named_def shard_wf_def is_active_def)
  ultimately show ?thesis by (simp add: can_scale_def move_config_def example_topology_def)
qed

lemma sparse_orders: "scale_orders sorted_orders [''n1'', ''n2''] [0] [''http://a1'', ''http://a2''] move_config sparse_world"
  using sorted_orders_ok by (auto simp: scale_orders_def range_order_def sparse_world_def move_defs)

end
