(* ===== verification/Retry_Backoff.thy ===== *)
theory Retry_Backoff
  imports Api Complex_Main
begin

text \<open>
  The delays of the retry loop of \<open>pkg/api/retry.go\<close> and how long a request can take because of them. The 64-bit floating-point numbers of
  \<open>calculateBackoff\<close> are real numbers here: their rounding, far below the nanosecond at which a delay is cut off, is not modelled.
  The random number is an argument.
\<close>

section \<open>Delays\<close>

record api_RetryConfig =
  MaxAttempts :: int
  InitialDelay :: duration
  MaxDelay :: duration
  Multiplier :: real
  Jitter :: bool
  EnableIdempotency :: bool

definition DefaultRetryConfigs :: "string \<rightharpoonup> api_RetryConfig" where
  "DefaultRetryConfigs =
     [''PUT'' \<mapsto> \<lparr>MaxAttempts = 3, InitialDelay = 100000000, MaxDelay = 5000000000, Multiplier = 2, Jitter = True, EnableIdempotency = True\<rparr>,
      ''DELETE'' \<mapsto> \<lparr>MaxAttempts = 3, InitialDelay = 100000000, MaxDelay = 5000000000, Multiplier = 2, Jitter = True, EnableIdempotency = True\<rparr>,
      ''GET'' \<mapsto> \<lparr>MaxAttempts = 2, InitialDelay = 50000000, MaxDelay = 2000000000, Multiplier = 2, Jitter = True, EnableIdempotency = False\<rparr>]"

text \<open>The conversion to a duration drops the fraction.\<close>

definition to_duration :: "real \<Rightarrow> duration" where
  "to_duration x = (if x < 0 then \<lceil>x\<rceil> else \<lfloor>x\<rfloor>)"

definition capped_delay :: "api_RetryConfig \<Rightarrow> nat \<Rightarrow> real" where
  "capped_delay cfg attempt =
     (let delay = of_int (InitialDelay cfg) * Multiplier cfg ^ attempt
      in if delay > of_int (MaxDelay cfg) then of_int (MaxDelay cfg) else delay)"

definition calculateBackoff :: "api_RetryConfig \<Rightarrow> real \<Rightarrow> nat \<Rightarrow> duration" where
  "calculateBackoff cfg rnd attempt =
     (let delay = capped_delay cfg attempt;
          jitter = rnd * delay * (3 / 10)
      in to_duration (if Jitter cfg then delay + jitter - delay * (15 / 100) else delay))"

text \<open>The server's retrier is configured for puts.\<close>

definition server_retrier :: api_RetryConfig where
  "server_retrier = the (DefaultRetryConfigs ''PUT'')"

section \<open>Bounds\<close>

lemma server_MaxAttempts: "MaxAttempts server_retrier = put_MaxAttempts"
  by (simp add: server_retrier_def DefaultRetryConfigs_def put_MaxAttempts_def)

lemma to_duration_bounds: "0 \<le> x \<Longrightarrow> x \<le> y \<Longrightarrow> 0 \<le> to_duration x \<and> of_int (to_duration x) \<le> y"
  by (simp add: to_duration_def order_trans [OF of_int_floor_le])

lemma calculateBackoff_bounds:
  assumes "0 \<le> capped_delay cfg attempt" and "0 \<le> rnd" and "rnd < 1"
  shows "0 \<le> calculateBackoff cfg rnd attempt" and "of_int (calculateBackoff cfg rnd attempt) \<le> capped_delay cfg attempt * (115 / 100)"
proof -
  let ?d = "capped_delay cfg attempt"
  have "rnd * ?d \<le> 1 * ?d" using assms by (intro mult_right_mono) auto
  moreover have "0 \<le> rnd * ?d" using assms by simp
  ultimately have "0 \<le> calculateBackoff cfg rnd attempt \<and> of_int (calculateBackoff cfg rnd attempt) \<le> ?d * (115 / 100)"
    unfolding calculateBackoff_def Let_def using assms(1) by (intro to_duration_bounds) simp_all
  then show "0 \<le> calculateBackoff cfg rnd attempt" "of_int (calculateBackoff cfg rnd attempt) \<le> ?d * (115 / 100)" by simp_all
qed

text \<open>The loop takes at most the time of its attempts and of the delays between them.\<close>

lemma retry_loop_time:
  assumes attempt: "\<And>w. re_clock env (fst (fn w)) \<le> re_clock env w + a" and "0 \<le> a"
    and sleep: "\<And>d w. 0 \<le> d \<Longrightarrow> re_clock env (re_sleep env d w) = re_clock env w + d" and delays: "\<And>i. 0 \<le> delays i"
  shows "re_clock env (fst (retry_loop env delays deadline fn k n err w)) \<le> re_clock env w + int n * a + (\<Sum>i = k..<k + n - 1. delays i)"
proof (induction n arbitrary: k err w)
  case (Suc n)
  obtain w' e where fn: "fn w = (w', e)" by fastforce
  then have w': "re_clock env w' \<le> re_clock env w + a" using attempt [of w] by simp
  have nn: "0 \<le> int n * a" "0 \<le> (\<Sum>i = k..<k + n. delays i)" "0 \<le> (\<Sum>i = Suc k..<k + n. delays i)"
    using assms(2) delays by (simp_all add: sum_nonneg)
  have first: "(\<Sum>i = k..<k + n. delays i) = delays k + (\<Sum>i = Suc k..<k + n. delays i)" if "n \<noteq> 0"
    using that by (intro sum.atLeast_Suc_lessThan) simp
  have "re_clock env (fst (retry_loop env delays deadline fn k (Suc n) err w)) \<le> re_clock env w' + int n * a + (\<Sum>i = k..<k + n. delays i)"
  proof (cases "e = None \<or> \<not> isRetryableError (the e) \<or> n = 0")
    case True
    then have "fst (retry_loop env delays deadline fn k (Suc n) err w) = w'" using fn by (auto split: option.splits)
    then show ?thesis using nn by simp
  next
    case False
    show ?thesis
    proof (cases "re_clock env w' + delays k < deadline")
      case True
      then have "retry_loop env delays deadline fn k (Suc n) err w =
          retry_loop env delays deadline fn (Suc k) n (the e) (re_sleep env (delays k) w')" using fn False by auto
      then show ?thesis using Suc.IH [of "Suc k" "the e" "re_sleep env (delays k) w'"] first False sleep [OF delays] by simp
    next
      case late: False
      then have "fst (retry_loop env delays deadline fn k (Suc n) err w) = re_sleep env (max 0 (deadline - re_clock env w')) w'" using fn False by auto
      then show ?thesis using late nn first False delays [of k] sleep by simp
    qed
  qed
  then show ?case using w' by (simp add: algebra_simps)
qed simp

lemma server_delays:
  assumes "0 \<le> rnd" and "rnd < 1"
  shows "0 \<le> calculateBackoff server_retrier rnd attempt"
    and "calculateBackoff server_retrier rnd 0 \<le> 115000000" and "calculateBackoff server_retrier rnd 1 \<le> 230000000"
proof -
  have nn: "0 \<le> capped_delay server_retrier k" for k
    by (simp add: capped_delay_def server_retrier_def DefaultRetryConfigs_def Let_def)
  show "0 \<le> calculateBackoff server_retrier rnd attempt" by (rule calculateBackoff_bounds(1) [OF nn assms])
  have "capped_delay server_retrier 0 = 100000000" "capped_delay server_retrier 1 = 200000000"
    by (simp_all add: capped_delay_def server_retrier_def DefaultRetryConfigs_def Let_def)
  then show "calculateBackoff server_retrier rnd 0 \<le> 115000000" "calculateBackoff server_retrier rnd 1 \<le> 230000000"
    using calculateBackoff_bounds(2) [OF nn assms, of 0] calculateBackoff_bounds(2) [OF nn assms, of 1] by linarith+
qed

section \<open>Properties\<close>

text \<open>C31: The retries add little to a write. When a call of the Raft node takes at most \<open>a\<close>, a write through the HTTP API is answered
  within three times that and 345 milliseconds, the two delays with the most jitter, whatever the outcomes of the attempts, the
  randomness of the delays and the state of the cache.\<close>
theorem put_retries_bounded:
  assumes "\<forall>m w. re_clock env (fst (re_Forward env m w)) \<le> re_clock env w + a" and "0 \<le> a"
    and "\<forall>d w. 0 \<le> d \<longrightarrow> re_clock env (re_sleep env d w) = re_clock env w + d" and "\<forall>i. 0 \<le> rnd i \<and> rnd i < 1"
  shows "re_clock env (fst (handlePut env (\<lambda>i. calculateBackoff server_retrier (rnd i) i) body h c w)) \<le> re_clock env w + 3 * a + 345000000"
proof -
  let ?delays = "\<lambda>i. calculateBackoff server_retrier (rnd i) i"
  have delays: "0 \<le> ?delays i" for i using server_delays(1) assms(4) by blast
  have forward: "re_clock env (fst (forward_request env ?delays token msg c w)) \<le> re_clock env w + 3 * a + 345000000" for token msg
  proof -
    let ?deadline = "re_clock env w + 15000000000"
    let ?r = "ExecuteWithRetry (lift_env env) ?delays put_MaxAttempts ?deadline (forward_attempt env msg) (False, w)"
    have fn: "re_clock (lift_env env) (fst (forward_attempt env msg st)) \<le> re_clock (lift_env env) st + a" for st
      using assms(1) [rule_format, of msg "snd st"] by (auto simp: lift_env_def forward_attempt_def split: prod.splits sum.splits)
    have sleep: "re_clock (lift_env env) (re_sleep (lift_env env) d st) = re_clock (lift_env env) st + d" if "0 \<le> d" for d st
      using assms(3) that by (cases st) (simp add: lift_env_def)
    have sum: "(\<Sum>i = 0..<0 + nat put_MaxAttempts - 1. ?delays i) = ?delays 0 + ?delays 1"
      by (simp add: put_MaxAttempts_def numeral_2_eq_2)
    have "re_clock (lift_env env) (fst ?r) \<le> re_clock (lift_env env) (False, w) + int (nat put_MaxAttempts) * a + (?delays 0 + ?delays 1)"
      unfolding ExecuteWithRetry_def sum [symmetric] by (rule retry_loop_time [OF fn assms(2) sleep delays])
    moreover have "?delays 0 \<le> 115000000" "?delays 1 \<le> 230000000" using server_delays assms(4) by blast+
    ultimately have "re_clock (lift_env env) (fst ?r) \<le> re_clock env w + 3 * a + 345000000" by (simp add: put_MaxAttempts_def lift_env_def)
    then show ?thesis using assms(2)
      by (auto simp: forward_request_def lift_env_def Let_def split: option.splits prod.splits)
  qed
  show ?thesis using forward assms(2) by (simp add: handlePut_def split: option.split)
qed

text \<open>A node that never has a leader, with the time as its state and calls that take a second.\<close>

definition leaderless_env :: "go_time RaftEnv" where
  "leaderless_env = \<lparr>re_Forward = (\<lambda>_ w. (w + 1000000000, Inl ''no leader'')), re_ForwardGet = (\<lambda>_ w. (w + 1000000000, Inl ''no leader'')),
     re_GetValue = (\<lambda>_ _. 0), re_clock = id, re_sleep = (\<lambda>d w. w + d)\<rparr>"

theorem put_retries_bounded_witness:
  "fst (handlePut leaderless_env (\<lambda>i. calculateBackoff server_retrier (1 / 2) i) (Some \<lparr>pr_Key = 1, pr_Value = 2\<rparr>)
     \<lparr>h_Idempotency = ''t'', h_Client = ''c'', h_Remote = []\<rparr> (NewIdempotencyCache 300000000000) 0) \<le> 3345000000"
  using put_retries_bounded [of leaderless_env 1000000000 "\<lambda>_. 1 / 2" "Some \<lparr>pr_Key = 1, pr_Value = 2\<rparr>"
      "\<lparr>h_Idempotency = ''t'', h_Client = ''c'', h_Remote = []\<rparr>" "NewIdempotencyCache 300000000000" 0]
  by (simp add: leaderless_env_def)

end
