(* ===== verification/Spec2Isabelle.thy ===== *)
theory Spec2Isabelle
  imports Cache_Model Metadata Raft_Cluster Raft_Machine Raft_Persist Raft_Timer Datanode Controller Client Services Failover Lease_Safety Api Connection Startup Control_Plane Raft_Handlers Raft_Files Raft_Stability Raft_Peers
    Scale_Out Retry_Backoff
begin

text \<open>
  A verification development for a distributed cache in Go (\<open>src/\<close>).

  \<^bold>\<open>The program.\<close> Data nodes (\<open>cmd/datanode\<close>, \<open>pkg/datanode\<close>) keep key-value pairs in memory (\<open>pkg/cache\<close>). The key space is cut into shards by a hash; each shard has a
  primary and replicas, and a write is acknowledged after every replica has it. The topology (\<open>pkg/metadata\<close>: nodes, shards, an epoch that counts changes) belongs to a
  controller (\<open>cmd/controller\<close>, \<open>pkg/controller\<close>) which hears heartbeats, declares silent nodes dead, promotes replicas, assigns new ones and moves shards. Data nodes serve only while
  they hold a lease, which an answered heartbeat extends, and fetch the topology when its epoch has grown. Controllers are replicated by a Raft implementation
  (\<open>pkg/raft\<close>): elections, log replication, snapshots, persistence, connections to peers. The smart client (\<open>pkg/client\<close>, \<open>cmd/raftcli\<close>) fetches the topology, sends each request to the
  primary of the key's shard and retries. \<open>pkg/api\<close> is a second front end that writes integers through Raft directly, with retries and a cache of completed requests.

  \<^bold>\<open>Conventions\<close> (theory \<open>Prelude\<close>). A struct is a \<open>record\<close>, a Go map a partial function; a loop over a map takes the order of its keys as an argument, constrained by \<^const>\<open>range_order\<close>.
  Go's \<open>int\<close> is \<^typ>\<open>int\<close>: the counters concerned grow by one per event and do not reach 64 bits; conversions to \<open>int32\<close> are written out, hashes and epochs are words. A panic is
  \<^const>\<open>None\<close>. Times and durations are nanoseconds. A function that holds a mutex throughout is one function; where the code gives the mutex up it is split there, and step relations interleave the parts.
  Calls between processes may be lost on the way there or on the way back (\<open>delivery\<close>). JSON, gob and gRPC carry values; what they cannot carry is stated where it matters.

  \<^bold>\<open>Theories.\<close>
  \<^item> \<open>Prelude\<close>: slices, division, string and number functions of Go's library, HTTP status codes, runs of a step relation, and the locale \<open>step_invariant\<close> through which every invariant over runs is derived.
  \<^item> \<open>Cache_Model\<close>: \<open>pkg/cache\<close>. The interface \<open>cachemodel.Cache\<close> is the locale \<open>cache\<close>, interpreted by the four stores; FNV-1a; export and import of a shard.
  \<^item> \<open>Metadata\<close>: \<open>model.go\<close> and \<open>store.go\<close> of \<open>pkg/metadata\<close>; \<open>Rebalance\<close> takes a dead node out of every shard.
  \<^item> \<open>Raft_Types\<close>, \<open>Raft_Node\<close>, \<open>Raft_Log\<close>: the data, the handlers outside replication (\<open>election.go\<close>, \<open>heartbeat.go\<close>, \<open>utils.go\<close>, parts of \<open>raft.go\<close> and \<open>grpc.go\<close>), and replication (\<open>replicator.go\<close>, \<open>LogRequest\<close>,
    \<open>appendEntries\<close>, \<open>commitLogEntries\<close>, \<open>decideRunSnapshot\<close>).
  \<^item> \<open>Raft_Replication\<close>, \<open>Raft_Rounds\<close>, \<open>Raft_Snapshot\<close>, \<open>Raft_Machine\<close>, \<open>Raft_Cluster\<close>, \<open>Raft_Persist\<close>: lemmas about them. The log against the rule of the Raft paper, the commit rule, rounds between a leader and a
    follower, snapshot transfer, a node as a replicated state machine, elections over all nodes (locale \<open>quorums\<close>), files and restart.
  \<^item> \<open>Raft_Steady\<close>, \<open>Raft_Catchup\<close>, \<open>Raft_Memory\<close>, \<open>Raft_Handlers\<close>: a term of office, in which one leader replicates over a network that loses, delays, repeats and reorders, with \<open>LogRequest\<close> split where it gives up the mutex;
    the loop of a replicator against one follower; the in-memory clusters of \<open>tests_setup.go\<close>, in which nodes call each other; and any call at a well-formed node.
  \<^item> \<open>Raft_Timer\<close>, \<open>Raft_Stability\<close>: the election timer loop of a node, and the leader's heartbeat loop, heartbeats in flight and the followers' timers together.
  \<^item> \<open>Raft_Peers\<close>: which peers of \<open>utils.go\<close> a node can call, from the connection manager or from the tests, and what a leader makes of the calls that fail.
  \<^item> \<open>Raft_Files\<close>: \<open>persistance.go\<close> over a file system with directories, and the process dying during a save.
  \<^item> \<open>Test_App\<close>: the application of \<open>tests_setup.go\<close>, on which the Raft theorems are run. \<open>Control_Plane\<close>: the controller as the application of Raft.
  \<^item> \<open>Datanode\<close>: \<open>server.go\<close>, \<open>state.go\<close> and \<open>lease.go\<close> of \<open>pkg/datanode\<close>, over a map of all nodes. The locale \<open>replicated_change\<close> covers the fan-out of puts and deletes.
  \<^item> \<open>Controller\<close>: \<open>controller.go\<close>, \<open>reaper.go\<close> and \<open>state_machine.go\<close> of \<open>pkg/controller\<close>.
  \<^item> \<open>Client\<close>: \<open>smart_client.go\<close> over an environment; the locale \<open>stable_service\<close> says what the client needs of a cluster at rest.
  \<^item> \<open>Services\<close>: the routes of \<open>cmd/datanode\<close> and \<open>cmd/controller\<close>, the conversation of a lease renewal, and the command interpreter of \<open>cmd/raftcli\<close>. The model's own cluster interprets \<open>stable_service\<close>.
  \<^item> \<open>Failover\<close> and \<open>Lease_Safety\<close>: node failure from the last acknowledged write to the first read afterwards, and leases against failure detection over time.
  \<^item> \<open>Replica_Sync\<close> and \<open>Scale_Out\<close>: how a rebalance fills the replicas it adds, and a growing cluster from one stable state to the next. This theory joins it with a failover.
  \<^item> \<open>Sha256\<close>, \<open>Api\<close>, \<open>Retry_Backoff\<close>: the hash, \<open>pkg/api\<close> over an environment that stands for its Raft node, and the delays of its retries.
  \<^item> \<open>Connection\<close>, \<open>Startup\<close>: \<open>config.go\<close> and \<open>connection_manager.go\<close> of \<open>pkg/raft\<close>, and the three \<open>main\<close> functions.

  \<^bold>\<open>What is shown.\<close>
  \<^item> Writes and reads: an acknowledged put or delete is at every copy; rejected requests have no effect; a fenced node serves nothing; a client in a stable cluster reads its writes, also after the primary has
    died and a replica was promoted, and even when the replica was added after the write; its loops end, and so do the retries of the API, within a bound. A node is fenced before it is declared dead if the grace period covers lease and heartbeat timeout, which the values of the executables do not.
  \<^item> Topology: every change by the controller keeps the topology well-formed and its primaries and replicas active; rebalancing gives every shard its replicas and fills them; failure detection is exact; migration copies the shard, and its failures leave it
    locked at most; controllers that Raft has brought equally far agree, also from a snapshot on; a registration reaches every controller.
  \<^item> Raft: at most one leader per term under the two conditions that the code does not enforce; commit exactly at a majority; during a term of office every log is a beginning of the leader's, what is
    committed stays and a majority has it; the log of the paper's rule when nothing conflicts; stable applied prefix; no call makes a well-formed node panic. Progress: a fresh cluster of any size elects a leader, a write reaches every node in two rounds, a follower catches up in
    as many rounds as it is behind. A leader that is heard in time is not challenged, one that is silent is, and one without a quorum steps down; snapshot transfer; files and restart. Connections: availability implies a connection, bounded backoff, no peer forgotten.
  \<^item> Stores and formats: all stores are maps; shards partition the keys; snapshots round-trip.
  \<^item> Where the code breaks its promise, the theorem states the behaviour it has, by a run or for all inputs: two leaders after a late vote request, over-acknowledged entries, delivery out of order, entries lost by installing a snapshot, a follower behind the snapshot that never catches up, a message that makes the leader panic, an unreadable log file after a second save,
    votes that are not saved, a data directory that is never created, metadata lost by a crash, diverging copies, a shard given to a dead node, writes lost by a migration, old values read by old clients, repeated writes swallowed.

  \<^bold>\<open>Bounds and termination.\<close> There is no fuel: loops recurse over lists or over the attempts left, \<open>go_fields\<close> over the length of the line, a forwarded read over whether it was forwarded before, and the polling loops (timers, reconnecting, registration) are steps or take the answers they will get as a list.
  Retry limits are those of the code or arguments. Bounds on numbers (cluster size below \<open>2 ^ 31\<close>, shard numbers below \<open>2 ^ 63\<close>) are hypotheses where a conversion needs them.

  \<^bold>\<open>Not modelled.\<close>
  \<^item> \<open>pkg/raft/raftpb\<close> is generated; the wire records have its fields. \<open>transport.go\<close> hands calls to it.
  \<^item> \<open>commands.go\<close> of \<open>pkg/metadata\<close> is called by no package and encodes commands that the state machine does not know.
  \<^item> The mock peers of \<open>tests_setup.go\<close>, which record calls, and \<open>tests/benchmark\<close> drive the program and are no part of it.
  \<^item> Floating point: the backoff of \<open>retry.go\<close> (\<open>calculateBackoff\<close>) is computed with real numbers; the scaling of the connection backoff is an argument, as are \<open>time.ParseDuration\<close> and \<open>strconv.ParseFloat\<close>.
  \<^item> Logging, printing, opening of sockets, and the remaining tickers, whose ticks are the steps of the relations.
\<close>

section \<open>Growth and failure\<close>



end
